(* ===== verification/Go_Prelude.thy ===== *)
theory Go_Prelude
  imports Main "HOL-Library.Word"
begin

text \<open>
  The Go runtime as the library sees it: a computation takes a state and ends in one of three
  ways, with the state it leaves behind. \<open>Ok\<close> is a normal return. \<open>Panic\<close> is a Go panic (its
  value is what \<open>recover()\<close> gives), which keeps every state change made before it. \<open>Fault\<close> is a
  behaviour that the Go and C++ languages leave undefined (a read of freed memory, a write past
  the end of an allocation), an \<open>ASSERT\<close> that aborts the process, or the model's own exhausted
  fuel; nothing recovers from it.

  The combinators below are the sequencing, the \<open>if err\<close> guards, \<open>defer\<close>/\<open>recover\<close> and the
  slice operations of the language. The rules of the collection \<open>go_simps\<close> execute a
  computation; the rules of \<open>go_inv\<close> prove that a computation keeps an invariant.
\<close>

type_synonym u64 = "64 word"
type_synonym u32 = "32 word"

named_theorems go_simps \<open>symbolic execution of Go computations\<close>
named_theorems go_inv \<open>preservation of a state predicate by Go computations\<close>

subsection \<open>Outcomes\<close>

datatype panic_value =
    PanicString string   \<comment> \<open>\<open>panic("...")\<close>\<close>
  | RuntimeError string  \<comment> \<open>a \<open>runtime.Error\<close>: nil dereference, index or makeslice out of range\<close>
  | PanicError string    \<comment> \<open>\<open>panic(err)\<close> with a value of type \<open>error\<close>\<close>

datatype fault = UseAfterFree | DoubleFree | OutOfBounds | NullPointer | AssertFailed | OutOfFuel

datatype 'a outcome = Ok 'a | Panic panic_value | Fault fault

type_synonym ('s, 'a) go = "'s \<Rightarrow> 'a outcome \<times> 's"

fun is_Ok :: "'a outcome \<Rightarrow> bool" where
  "is_Ok (Ok a) = True"
| "is_Ok (Panic p) = False"
| "is_Ok (Fault f) = False"

fun is_Fault :: "'a outcome \<Rightarrow> bool" where
  "is_Fault (Fault f) = True"
| "is_Fault (Ok a) = False"
| "is_Fault (Panic p) = False"

subsection \<open>Sequencing\<close>

definition go_return :: "'a \<Rightarrow> ('s, 'a) go" where
  "go_return a = (\<lambda>s. (Ok a, s))"

definition go_bind :: "('s, 'a) go \<Rightarrow> ('a \<Rightarrow> ('s, 'b) go) \<Rightarrow> ('s, 'b) go" where
  "go_bind m f = (\<lambda>s. case m s of
      (Ok a, s') \<Rightarrow> f a s'
    | (Panic p, s') \<Rightarrow> (Panic p, s')
    | (Fault x, s') \<Rightarrow> (Fault x, s'))"

definition go_then :: "('s, 'a) go \<Rightarrow> ('s, 'b) go \<Rightarrow> ('s, 'b) go" where
  "go_then m n = go_bind m (\<lambda>_. n)"

definition go_panic :: "panic_value \<Rightarrow> ('s, 'a) go" where
  "go_panic p = (\<lambda>s. (Panic p, s))"

definition go_fault :: "fault \<Rightarrow> ('s, 'a) go" where
  "go_fault f = (\<lambda>s. (Fault f, s))"

definition go_gets :: "('s \<Rightarrow> 'a) \<Rightarrow> ('s, 'a) go" where
  "go_gets f = (\<lambda>s. (Ok (f s), s))"

definition go_modify :: "('s \<Rightarrow> 's) \<Rightarrow> ('s, unit) go" where
  "go_modify f = (\<lambda>s. (Ok (), f s))"

definition go_when :: "bool \<Rightarrow> ('s, unit) go \<Rightarrow> ('s, unit) go" where
  "go_when b m = (if b then m else go_return ())"

text \<open>
  \<open>go_recover m h\<close> is a function whose body is \<open>m\<close> and whose deferred call recovers: when the
  body panics with \<open>p\<close>, the deferred call \<open>h p\<close> runs in the state of the panic and, if it
  returns, the function returns the zero value of its (unnamed) result, given as \<open>z\<close>.
\<close>

definition go_recover :: "'a \<Rightarrow> ('s, 'a) go \<Rightarrow> (panic_value \<Rightarrow> ('s, unit) go) \<Rightarrow> ('s, 'a) go" where
  "go_recover z m h = (\<lambda>s. case m s of
      (Ok a, s') \<Rightarrow> (Ok a, s')
    | (Panic p, s') \<Rightarrow> go_bind (h p) (\<lambda>_. go_return z) s'
    | (Fault x, s') \<Rightarrow> (Fault x, s'))"

text \<open>\<^verbatim>\<open>ASSERT(b)\<close> of the C++ side: it aborts when the condition does not hold.\<close>

definition c_assert :: "('s \<Rightarrow> bool) \<Rightarrow> ('s, unit) go" where
  "c_assert b = (\<lambda>s. if b s then (Ok (), s) else (Fault AssertFailed, s))"

text \<open>A result computed without state, as a computation.\<close>

fun go_lift :: "'a outcome \<Rightarrow> ('s, 'a) go" where
  "go_lift r = (\<lambda>s. (r, s))"

subsection \<open>Slices\<close>

definition nil_deref :: panic_value where
  "nil_deref = RuntimeError ''invalid memory address or nil pointer dereference''"

definition index_out_of_range :: panic_value where
  "index_out_of_range = RuntimeError ''index out of range''"

definition makeslice_out_of_range :: panic_value where
  "makeslice_out_of_range = RuntimeError ''makeslice: len out of range''"

text \<open>
  \<open>make([]T, n)\<close> panics when the backing array would exceed the address space the runtime
  allocates from: \<open>maxAlloc\<close>, \<open>2 ^ 48\<close> bytes on the 64-bit Linux targets.
\<close>

definition go_make :: "nat \<Rightarrow> 'a \<Rightarrow> u64 \<Rightarrow> ('s, 'a list) go" where
  "go_make elemSize zero n =
     (if elemSize * unat n \<le> 2 ^ 48 then go_return (replicate (unat n) zero)
      else go_panic makeslice_out_of_range)"

definition go_index :: "'a list \<Rightarrow> nat \<Rightarrow> ('s, 'a) go" where
  "go_index xs i = (if i < length xs then go_return (xs ! i) else go_panic index_out_of_range)"

subsection \<open>Executing computations\<close>

lemma go_return_apply [go_simps]: "go_return a s = (Ok a, s)"
  by (simp add: go_return_def)

lemma go_bind_apply [go_simps]:
  "go_bind m f s = (case m s of (r, s') \<Rightarrow> (case r of
      Ok a \<Rightarrow> f a s' | Panic p \<Rightarrow> (Panic p, s') | Fault x \<Rightarrow> (Fault x, s')))"
  by (simp add: go_bind_def)

lemma go_bind_Ok: "m s = (Ok a, s') \<Longrightarrow> go_bind m f s = f a s'"
  by (simp add: go_bind_def)

lemma go_bind_Panic: "m s = (Panic p, s') \<Longrightarrow> go_bind m f s = (Panic p, s')"
  by (simp add: go_bind_def)

lemma go_bind_Fault: "m s = (Fault x, s') \<Longrightarrow> go_bind m f s = (Fault x, s')"
  by (simp add: go_bind_def)

lemma go_then_apply [go_simps]: "go_then m n s = go_bind m (\<lambda>_. n) s"
  by (simp add: go_then_def)

lemma go_panic_apply [go_simps]: "go_panic p s = (Panic p, s)"
  by (simp add: go_panic_def)

lemma go_fault_apply [go_simps]: "go_fault f s = (Fault f, s)"
  by (simp add: go_fault_def)

lemma go_gets_apply [go_simps]: "go_gets f s = (Ok (f s), s)"
  by (simp add: go_gets_def)

lemma go_modify_apply [go_simps]: "go_modify f s = (Ok (), f s)"
  by (simp add: go_modify_def)

lemma go_when_True [go_simps]: "b \<Longrightarrow> go_when b m s = m s"
  by (simp add: go_when_def)

lemma go_when_False [go_simps]: "\<not> b \<Longrightarrow> go_when b m s = (Ok (), s)"
  by (simp add: go_when_def go_return_def)

lemma go_recover_apply [go_simps]:
  "go_recover z m h s = (case m s of (r, s') \<Rightarrow> (case r of
      Ok a \<Rightarrow> (Ok a, s') | Panic p \<Rightarrow> go_bind (h p) (\<lambda>_. go_return z) s'
    | Fault x \<Rightarrow> (Fault x, s')))"
  by (simp add: go_recover_def)

lemma go_recover_Ok: "m s = (Ok a, s') \<Longrightarrow> go_recover z m h s = (Ok a, s')"
  by (simp add: go_recover_def)

lemma go_recover_Panic:
  "m s = (Panic p, s') \<Longrightarrow> go_recover z m h s = go_bind (h p) (\<lambda>_. go_return z) s'"
  by (simp add: go_recover_def)

lemma go_recover_Fault: "m s = (Fault x, s') \<Longrightarrow> go_recover z m h s = (Fault x, s')"
  by (simp add: go_recover_def)

lemma c_assert_Ok [go_simps]: "b s \<Longrightarrow> c_assert b s = (Ok (), s)"
  by (simp add: c_assert_def)

lemma c_assert_Fault [go_simps]: "\<not> b s \<Longrightarrow> c_assert b s = (Fault AssertFailed, s)"
  by (simp add: c_assert_def)

lemma go_make_Ok [go_simps]:
  "elemSize * unat n \<le> 2 ^ 48 \<Longrightarrow> go_make elemSize z n s = (Ok (replicate (unat n) z), s)"
  by (simp add: go_make_def go_return_def)

lemma go_make_Panic [go_simps]:
  "2 ^ 48 < elemSize * unat n \<Longrightarrow> go_make elemSize z n s = (Panic makeslice_out_of_range, s)"
  by (simp add: go_make_def go_panic_def)

lemma go_index_Ok [go_simps]: "i < length xs \<Longrightarrow> go_index xs i s = (Ok (xs ! i), s)"
  by (simp add: go_index_def go_return_def)

lemma go_index_Panic [go_simps]:
  "length xs \<le> i \<Longrightarrow> go_index xs i s = (Panic index_out_of_range, s)"
  by (simp add: go_index_def go_panic_def)

declare go_simps [simp]

text \<open>The monad laws, with \<open>go_then\<close> as the special case of \<open>go_bind\<close>.\<close>

lemma go_bind_return_left: "go_bind (go_return a) f = f a"
  by (simp add: fun_eq_iff)

lemma go_bind_return_right: "go_bind m go_return = m"
proof
  fix s show "go_bind m go_return s = m s"
    by (cases "m s"; cases "fst (m s)") (auto simp: go_bind_def)
qed

lemma go_bind_assoc: "go_bind (go_bind m f) g = go_bind m (\<lambda>a. go_bind (f a) g)"
proof
  fix s show "go_bind (go_bind m f) g s = go_bind m (\<lambda>a. go_bind (f a) g) s"
    by (cases "m s"; cases "fst (m s)") (auto simp: go_bind_def)
qed

text \<open>Inversion: how a sequence can have returned.\<close>

lemma go_bind_OkE:
  assumes "go_bind m f s = (Ok b, t)"
  obtains a s' where "m s = (Ok a, s')" and "f a s' = (Ok b, t)"
  using assms by (auto simp: go_bind_def split: outcome.splits prod.splits)

subsection \<open>Keeping an invariant\<close>

text \<open>
  \<open>keeps I m\<close>: every way \<open>m\<close> can end, a panic included, leaves the invariant in place.
\<close>

definition keeps :: "('s \<Rightarrow> bool) \<Rightarrow> ('s, 'a) go \<Rightarrow> bool" where
  "keeps I m \<longleftrightarrow> (\<forall>s. I s \<longrightarrow> I (snd (m s)))"

lemma keepsI: "(\<And>s. I s \<Longrightarrow> I (snd (m s))) \<Longrightarrow> keeps I m"
  by (simp add: keeps_def)

lemma keepsD: "keeps I m \<Longrightarrow> I s \<Longrightarrow> I (snd (m s))"
  by (simp add: keeps_def)

lemma keepsD2: "keeps I m \<Longrightarrow> I s \<Longrightarrow> m s = (r, s') \<Longrightarrow> I s'"
  by (metis keepsD snd_conv)

lemma keeps_return [go_inv]: "keeps I (go_return a)"
  by (simp add: keeps_def)

lemma keeps_panic [go_inv]: "keeps I (go_panic p)"
  by (simp add: keeps_def)

lemma keeps_fault [go_inv]: "keeps I (go_fault f)"
  by (simp add: keeps_def)

lemma keeps_gets [go_inv]: "keeps I (go_gets f)"
  by (simp add: keeps_def)

lemma keeps_lift [go_inv]: "keeps I (go_lift r)"
  by (simp add: keeps_def)

lemma keeps_assert [go_inv]: "keeps I (c_assert b)"
  by (simp add: keeps_def c_assert_def)

lemma keeps_make [go_inv]: "keeps I (go_make e z n)"
  by (simp add: keeps_def go_make_def)

lemma keeps_index [go_inv]: "keeps I (go_index xs i)"
  by (simp add: keeps_def go_index_def)

lemma keeps_modify [go_inv]: "(\<And>s. I s \<Longrightarrow> I (f s)) \<Longrightarrow> keeps I (go_modify f)"
  by (simp add: keeps_def)

lemma keeps_bind [go_inv]:
  assumes m: "keeps I m" and f: "\<And>a. keeps I (f a)"
  shows "keeps I (go_bind m f)"
proof (rule keepsI)
  fix s assume "I s"
  then have "I (snd (m s))" by (rule keepsD [OF m])
  then show "I (snd (go_bind m f s))"
    by (auto simp: go_bind_def split: prod.split outcome.split intro: keepsD [OF f])
qed

lemma keeps_then [go_inv]: "keeps I m \<Longrightarrow> keeps I n \<Longrightarrow> keeps I (go_then m n)"
  by (simp add: go_then_def keeps_bind)

lemma keeps_when [go_inv]: "(b \<Longrightarrow> keeps I m) \<Longrightarrow> keeps I (go_when b m)"
  by (simp add: go_when_def keeps_return)

lemma keeps_if [go_inv]:
  "(b \<Longrightarrow> keeps I m) \<Longrightarrow> (\<not> b \<Longrightarrow> keeps I n) \<Longrightarrow> keeps I (if b then m else n)"
  by simp

lemma keeps_case_option [go_inv]:
  "(x = None \<Longrightarrow> keeps I m) \<Longrightarrow> (\<And>a. x = Some a \<Longrightarrow> keeps I (f a)) \<Longrightarrow>
   keeps I (case x of None \<Rightarrow> m | Some a \<Rightarrow> f a)"
  by (cases x) auto

lemma keeps_case_prod [go_inv]:
  "(\<And>a b. x = (a, b) \<Longrightarrow> keeps I (f a b)) \<Longrightarrow> keeps I (case x of (a, b) \<Rightarrow> f a b)"
  by (cases x) auto

lemma recover_post:
  assumes m: "I (snd (m s))" and h: "\<And>p. keeps I (h p)"
  shows "I (snd (go_recover z m h s))"
proof -
  have "keeps I (go_bind (h p) (\<lambda>_. go_return z))" for p
    by (intro go_inv h)
  with m show ?thesis
    by (auto simp: go_recover_def keeps_def simp del: go_bind_apply split: prod.split outcome.split)
qed

lemma keeps_recover [go_inv]:
  assumes "keeps I m" "\<And>p. keeps I (h p)"
  shows "keeps I (go_recover z m h)"
  using recover_post [of I m] assms by (simp add: keeps_def)

subsection \<open>Words and lists\<close>

lemma unat_double: "unat n < 2 ^ 63 \<Longrightarrow> unat (n * 2 :: u64) = 2 * unat n"
  by (simp add: unat_word_ariths)

lemma unat_u64: "n < 2 ^ 64 \<Longrightarrow> unat (of_nat n :: u64) = n"
  by (simp add: unat_of_nat take_bit_nat_eq_self)

end
