(* ===== verification/Api_Types.thy ===== *)
theory Api_Types
  imports Go_Prelude
begin

text \<open>
  The constants of \<^verbatim>\<open>pkg/api/type.go\<close> that cross the boundary between Go and C: filter
  statuses, buffer actions, destroy and finalize reasons, request phases, and the C status codes
  and enumerations of \<^verbatim>\<open>pkg/http/api.h\<close>. A Go or C \<^verbatim>\<open>int\<close> is an \<open>int\<close>; the conversions between
  widths are written where the code makes them (\<open>status_to_u64\<close>, \<open>c_int\<close>).
\<close>

subsection \<open>Filter statuses\<close>

type_synonym StatusType = int

definition Running :: StatusType where [simp]: "Running = 0"
definition LocalReply :: StatusType where [simp]: "LocalReply = 1"
definition Continue :: StatusType where [simp]: "Continue = 2"
definition StopAndBuffer :: StatusType where [simp]: "StopAndBuffer = 3"
definition StopAndBufferWatermark :: StatusType where [simp]: "StopAndBufferWatermark = 4"
definition StopNoBuffer :: StatusType where [simp]: "StopNoBuffer = 5"

text \<open>
  The statuses of Envoy's own filters, which the file declares as well; the C side knows none of
  them.
\<close>

definition HeaderContinue :: StatusType where "HeaderContinue = 100"
definition HeaderStopIteration :: StatusType where "HeaderStopIteration = 101"
definition HeaderContinueAndDontEndStream :: StatusType where "HeaderContinueAndDontEndStream = 102"
definition HeaderStopAllIterationAndBuffer :: StatusType where "HeaderStopAllIterationAndBuffer = 103"
definition HeaderStopAllIterationAndWatermark :: StatusType where
  "HeaderStopAllIterationAndWatermark = 104"
definition DataContinue :: StatusType where "DataContinue = 200"
definition DataStopIterationAndBuffer :: StatusType where "DataStopIterationAndBuffer = 201"
definition DataStopIterationAndWatermark :: StatusType where "DataStopIterationAndWatermark = 202"
definition DataStopIterationNoBuffer :: StatusType where "DataStopIterationNoBuffer = 203"
definition TrailerContinue :: StatusType where "TrailerContinue = 300"
definition TrailerStopIteration :: StatusType where "TrailerStopIteration = 301"

definition envoy_statuses :: "StatusType list" where
  "envoy_statuses = [HeaderContinue, HeaderStopIteration, HeaderContinueAndDontEndStream,
     HeaderStopAllIterationAndBuffer, HeaderStopAllIterationAndWatermark, DataContinue,
     DataStopIterationAndBuffer, DataStopIterationAndWatermark, DataStopIterationNoBuffer,
     TrailerContinue, TrailerStopIteration]"

lemmas envoy_status_defs = HeaderContinue_def HeaderStopIteration_def
  HeaderContinueAndDontEndStream_def HeaderStopAllIterationAndBuffer_def
  HeaderStopAllIterationAndWatermark_def DataContinue_def DataStopIterationAndBuffer_def
  DataStopIterationAndWatermark_def DataStopIterationNoBuffer_def TrailerContinue_def
  TrailerStopIteration_def

text \<open>\<^verbatim>\<open>uint64(status)\<close> in Go, and the truncation \<^verbatim>\<open>C.int(status)\<close> of a \<^verbatim>\<open>uint64\<close>.\<close>

definition status_to_u64 :: "StatusType \<Rightarrow> u64" where
  "status_to_u64 status = word_of_int status"

definition c_int :: "u64 \<Rightarrow> int" where
  "c_int x = sint (ucast x :: 32 word)"

text \<open>The truncation \<^verbatim>\<open>C.int(n)\<close> of a Go \<^verbatim>\<open>int\<close>.\<close>

definition c_int_of_int :: "int \<Rightarrow> int" where
  "c_int_of_int n = signed_take_bit 31 n"

subsection \<open>Buffer actions, reasons and phases\<close>

datatype BufferAction = SetBuffer | AppendBuffer | PrependBuffer

definition Normal :: int where [simp]: "Normal = 0"
definition Terminate :: int where [simp]: "Terminate = 1"

definition NormalFinalize :: int where [simp]: "NormalFinalize = 0"
definition GCFinalize :: int where [simp]: "GCFinalize = 1"

definition DecodeHeaderPhase :: int where [simp]: "DecodeHeaderPhase = 1"
definition DecodeDataPhase :: int where [simp]: "DecodeDataPhase = 2"
definition DecodeTrailerPhase :: int where [simp]: "DecodeTrailerPhase = 3"
definition EncodeHeaderPhase :: int where [simp]: "EncodeHeaderPhase = 4"
definition EncodeDataPhase :: int where [simp]: "EncodeDataPhase = 5"
definition EncodeTrailerPhase :: int where [simp]: "EncodeTrailerPhase = 6"

definition EnvoyRequestPhase_String :: "int \<Rightarrow> string" where
  "EnvoyRequestPhase_String e =
     (if e = DecodeHeaderPhase then ''DecodeHeader''
      else if e = DecodeDataPhase then ''DecodeData''
      else if e = DecodeTrailerPhase then ''DecodeTrailer''
      else if e = EncodeHeaderPhase then ''EncodeHeader''
      else if e = EncodeDataPhase then ''EncodeData''
      else if e = EncodeTrailerPhase then ''EncodeTrailer''
      else ''unknown phase'')"

subsection \<open>The C header\<close>

definition CAPIOK :: int where [simp]: "CAPIOK = 0"
definition CAPIFilterIsGone :: int where [simp]: "CAPIFilterIsGone = -1"
definition CAPIFilterIsDestroy :: int where [simp]: "CAPIFilterIsDestroy = -2"
definition CAPINotInGo :: int where [simp]: "CAPINotInGo = -3"
definition CAPIInvalidPhase :: int where [simp]: "CAPIInvalidPhase = -4"
definition CAPIYield :: int where [simp]: "CAPIYield = -5"

datatype bufferAction = ActSet | ActAppend | ActPrepend

datatype headerAction = HeaderSet | HeaderAdd

subsection \<open>Lemmas\<close>

text \<open>The phases the filter reports are told apart by their names.\<close>

definition valid_phase :: "int \<Rightarrow> bool" where
  "valid_phase e \<longleftrightarrow> 1 \<le> e \<and> e \<le> 6"

lemma valid_phase_cases:
  assumes "valid_phase e"
  obtains "e = 1" | "e = 2" | "e = 3" | "e = 4" | "e = 5" | "e = 6"
proof -
  have "e = 1 \<or> e = 2 \<or> e = 3 \<or> e = 4 \<or> e = 5 \<or> e = 6"
    using assms by (auto simp: valid_phase_def)
  then show ?thesis using that by blast
qed

lemma phase_string_unknown: "\<not> valid_phase e \<Longrightarrow> EnvoyRequestPhase_String e = ''unknown phase''"
  by (auto simp: EnvoyRequestPhase_String_def valid_phase_def)

lemma phase_string_inj:
  "valid_phase e \<Longrightarrow> valid_phase e' \<Longrightarrow>
   EnvoyRequestPhase_String e = EnvoyRequestPhase_String e' \<Longrightarrow> e = e'"
  by (elim valid_phase_cases) (simp_all add: EnvoyRequestPhase_String_def)

text \<open>A status that fits a C \<^verbatim>\<open>int\<close> crosses the boundary unchanged.\<close>

lemma c_int_status_to_u64: "c_int (status_to_u64 status) = signed_take_bit 31 status"
proof -
  have "sint (ucast (word_of_int status :: u64) :: 32 word) = signed_take_bit 31 status"
    by transfer (simp add: signed_take_bit_take_bit)
  then show ?thesis by (simp add: c_int_def status_to_u64_def)
qed

lemma c_int_status:
  "- (2 ^ 31) \<le> status \<Longrightarrow> status < 2 ^ 31 \<Longrightarrow> c_int (status_to_u64 status) = status"
  by (simp add: c_int_status_to_u64 signed_take_bit_int_eq_self)

lemma c_int_of_int_id: "- (2 ^ 31) \<le> n \<Longrightarrow> n < 2 ^ 31 \<Longrightarrow> c_int_of_int n = n"
  by (simp add: c_int_of_int_def signed_take_bit_int_eq_self)

text \<open>One that does not fit is reduced: \<open>2 ^ 32 + 2\<close> arrives as \<open>Continue\<close>.\<close>

lemma c_int_status_range:
  "- (2 ^ 31) \<le> c_int (status_to_u64 status) \<and> c_int (status_to_u64 status) < 2 ^ 31"
  using signed_take_bit_int_greater_eq_minus_exp [of 31 status] signed_take_bit_int_less_exp [of 31 status]
  by (simp add: c_int_status_to_u64)

text \<open>
  The names of the six phases are different, and any other number has the name of no phase.
\<close>

lemma phase_names_tell_phases_apart:
  "inj_on EnvoyRequestPhase_String {1..6} \<and>
   (EnvoyRequestPhase_String e = ''unknown phase'') = (e \<notin> {1..6})"
proof -
  have "inj_on EnvoyRequestPhase_String {1..6}"
    by (rule inj_onI) (use phase_string_inj in \<open>auto simp: valid_phase_def\<close>)
  moreover have "EnvoyRequestPhase_String e \<noteq> ''unknown phase''" if "valid_phase e"
    using that by (elim valid_phase_cases) (simp_all add: EnvoyRequestPhase_String_def)
  ultimately show ?thesis using phase_string_unknown [of e] by (auto simp: valid_phase_def)
qed

end
