(* ===== verification/Envoy_Env.thy ===== *)
theory Envoy_Env
  imports Go_Prelude
begin

text \<open>
  What the library uses of Envoy itself. Envoy is not part of the repository, so its header maps
  (type \<open>'h\<close>) and buffers (type \<open>'b\<close>) stay abstract: the model's definitions take a record
  \<open>('h, 'b) envoy\<close> of the operations they call, and a property that depends on what an operation
  does names it as a hypothesis, \<open>header_laws\<close> or \<open>buffer_laws\<close>. The laws are Envoy's documented
  ones: header names are lower case in the map, \<open>setCopy\<close> leaves one value, \<open>remove\<close> none,
  \<open>move\<close> appends the source and empties it.
\<close>

record ('h, 'b) envoy =
  env_lower :: "string \<Rightarrow> string"                       \<comment> \<open>\<^verbatim>\<open>Http::LowerCaseString(k)\<close>\<close>
  hm_get :: "'h \<Rightarrow> string \<Rightarrow> string list"                \<comment> \<open>\<^verbatim>\<open>HeaderMap::get\<close>: the values\<close>
  hm_iterate :: "'h \<Rightarrow> (string \<times> string) list"         \<comment> \<open>\<^verbatim>\<open>HeaderMap::iterate\<close>\<close>
  hm_addCopy :: "'h \<Rightarrow> string \<Rightarrow> string \<Rightarrow> 'h"
  hm_setCopy :: "'h \<Rightarrow> string \<Rightarrow> string \<Rightarrow> 'h"
  hm_remove :: "'h \<Rightarrow> string \<Rightarrow> 'h"
  hm_size :: "'h \<Rightarrow> u64"
  hm_byteSize :: "'h \<Rightarrow> u64"
  bi_new :: "'b"                                        \<comment> \<open>\<^verbatim>\<open>Buffer::OwnedImpl()\<close>\<close>
  bi_length :: "'b \<Rightarrow> u64"
  bi_bytes :: "'b \<Rightarrow> string"                            \<comment> \<open>\<^verbatim>\<open>getRawSlices\<close>, in order\<close>
  bi_add :: "'b \<Rightarrow> string \<Rightarrow> 'b"
  bi_prepend :: "'b \<Rightarrow> string \<Rightarrow> 'b"
  bi_drain :: "'b \<Rightarrow> u64 \<Rightarrow> 'b"
  bi_move :: "'b \<Rightarrow> 'b \<Rightarrow> 'b \<times> 'b"                      \<comment> \<open>\<^verbatim>\<open>dst.move(src)\<close>: new dst, new src\<close>
  meta_set :: "string option \<Rightarrow> string \<Rightarrow> string \<Rightarrow> string" \<comment> \<open>\<^verbatim>\<open>setDynamicMetadata\<close>\<close>
  routeName :: "nat \<Rightarrow> string"                         \<comment> \<open>\<^verbatim>\<open>streamInfo().getRouteName()\<close>\<close>

subsection \<open>Views\<close>

text \<open>The values of one header, in the order the map lists them, and the size of the text.\<close>

definition vals :: "string \<Rightarrow> (string \<times> string) list \<Rightarrow> string list" where
  "vals k es = map snd (filter (\<lambda>e. fst e = k) es)"

fun entries_bytes :: "(string \<times> string) list \<Rightarrow> nat" where
  "entries_bytes [] = 0"
| "entries_bytes ((k, v) # es) = length k + length v + entries_bytes es"

subsection \<open>Documented behaviour\<close>

definition header_laws :: "('h, 'b) envoy \<Rightarrow> bool" where
  "header_laws E \<longleftrightarrow>
     (\<forall>k. env_lower E (env_lower E k) = env_lower E k) \<and>
     (\<forall>m k. hm_get E m k = vals k (hm_iterate E m)) \<and>
     (\<forall>m k v. vals k (hm_iterate E (hm_setCopy E m k v)) = [v]) \<and>
     (\<forall>m k v k'. k' \<noteq> k \<longrightarrow>
        vals k' (hm_iterate E (hm_setCopy E m k v)) = vals k' (hm_iterate E m)) \<and>
     (\<forall>m k v k'. k' \<noteq> k \<longrightarrow>
        vals k' (hm_iterate E (hm_addCopy E m k v)) = vals k' (hm_iterate E m)) \<and>
     (\<forall>m k. vals k (hm_iterate E (hm_remove E m k)) = []) \<and>
     (\<forall>m k k'. k' \<noteq> k \<longrightarrow>
        vals k' (hm_iterate E (hm_remove E m k)) = vals k' (hm_iterate E m))"

text \<open>
  \<open>addCopy\<close> on a header that Envoy stores inline joins the values with a comma; on every other
  header it adds a value. \<open>hm_appends E k\<close> says that \<open>k\<close> is of the second kind.
\<close>

definition hm_appends :: "('h, 'b) envoy \<Rightarrow> string \<Rightarrow> bool" where
  "hm_appends E k \<longleftrightarrow>
     (\<forall>m v. vals k (hm_iterate E (hm_addCopy E m k v)) = vals k (hm_iterate E m) @ [v])"

definition buffer_laws :: "('h, 'b) envoy \<Rightarrow> bool" where
  "buffer_laws E \<longleftrightarrow>
     bi_bytes E (bi_new E) = [] \<and>
     (\<forall>b. bi_length E b = of_nat (length (bi_bytes E b))) \<and>
     (\<forall>b v. bi_bytes E (bi_add E b v) = bi_bytes E b @ v) \<and>
     (\<forall>b v. bi_bytes E (bi_prepend E b v) = v @ bi_bytes E b) \<and>
     (\<forall>b n. bi_bytes E (bi_drain E b n) = drop (unat n) (bi_bytes E b)) \<and>
     (\<forall>d s. bi_bytes E (fst (bi_move E d s)) = bi_bytes E d @ bi_bytes E s) \<and>
     (\<forall>d s. bi_bytes E (snd (bi_move E d s)) = [])"

subsection \<open>Lemmas\<close>

lemma vals_Nil [simp]: "vals k [] = []"
  by (simp add: vals_def)

lemma vals_Cons [simp]: "vals k (e # es) = (if fst e = k then snd e # vals k es else vals k es)"
  by (simp add: vals_def)

lemma vals_append [simp]: "vals k (es @ fs) = vals k es @ vals k fs"
  by (simp add: vals_def)

lemma vals_eq_Nil_iff: "vals k es = [] \<longleftrightarrow> k \<notin> fst ` set es"
  by (induction es) auto

lemma entries_bytes_append [simp]: "entries_bytes (es @ fs) = entries_bytes es + entries_bytes fs"
  by (induction es rule: entries_bytes.induct) auto

lemma header_lawsD:
  assumes "header_laws E"
  shows vals_set_same: "vals k (hm_iterate E (hm_setCopy E m k v)) = [v]"
    and vals_set_other:
      "k' \<noteq> k \<Longrightarrow> vals k' (hm_iterate E (hm_setCopy E m k v)) = vals k' (hm_iterate E m)"
    and vals_add_other:
      "k' \<noteq> k \<Longrightarrow> vals k' (hm_iterate E (hm_addCopy E m k v)) = vals k' (hm_iterate E m)"
    and vals_remove_same: "vals k (hm_iterate E (hm_remove E m k)) = []"
    and vals_remove_other:
      "k' \<noteq> k \<Longrightarrow> vals k' (hm_iterate E (hm_remove E m k)) = vals k' (hm_iterate E m)"
    and get_vals: "hm_get E m k = vals k (hm_iterate E m)"
    and lower_idem: "env_lower E (env_lower E k) = env_lower E k"
  using assms by (auto simp: header_laws_def)

lemma buffer_lawsD:
  assumes "buffer_laws E"
  shows bytes_new: "bi_bytes E (bi_new E) = []"
    and length_bytes: "bi_length E b = of_nat (length (bi_bytes E b))"
    and bytes_add: "bi_bytes E (bi_add E b v) = bi_bytes E b @ v"
    and bytes_prepend: "bi_bytes E (bi_prepend E b v) = v @ bi_bytes E b"
    and bytes_drain: "bi_bytes E (bi_drain E b n) = drop (unat n) (bi_bytes E b)"
    and bytes_move_dst: "bi_bytes E (fst (bi_move E d s)) = bi_bytes E d @ bi_bytes E s"
    and bytes_move_src: "bi_bytes E (snd (bi_move E d s)) = []"
  using assms by (auto simp: buffer_laws_def)

end
