(* ===== verification/Processor_State.thy ===== *)
theory Processor_State
  imports Api_Types Envoy_Env
begin

text \<open>
  The C++ side's \<^verbatim>\<open>processor_state.h\<close> and \<^verbatim>\<open>processor_state.cc\<close>: one \<open>ProcessorState\<close> per
  direction (decoding, encoding) says who owns the stream, Envoy or Go, and \<open>BufferList\<close> holds
  the body buffers handed to Go. The operations are computations over the state they belong to;
  an \<^verbatim>\<open>ASSERT\<close> of the source is \<open>c_assert\<close>. A member \<^verbatim>\<open>x_\<close> of the source is the field \<open>x\<close>
  (\<open>fstate\<close> for \<^verbatim>\<open>state_\<close>, \<open>queue_bytes\<close> for \<^verbatim>\<open>bytes_\<close>).
\<close>

subsection \<open>Enumerations\<close>

datatype FilterState =
    WaitingHeader | ProcessingHeader
  | WaitingData | WaitingAllData | ProcessingData
  | WaitingTrailer | ProcessingTrailer
  | Done

datatype Phase =
    DecodeHeader | DecodeData | DecodeTrailer
  | EncodeHeader | EncodeData | EncodeTrailer
  | PhaseDone

fun Phase_int :: "Phase \<Rightarrow> int" where
  "Phase_int DecodeHeader = 1"
| "Phase_int DecodeData = 2"
| "Phase_int DecodeTrailer = 3"
| "Phase_int EncodeHeader = 4"
| "Phase_int EncodeData = 5"
| "Phase_int EncodeTrailer = 6"
| "Phase_int PhaseDone = 7"

text \<open>
  \<^verbatim>\<open>static_cast<GolangStatus>\<close> of an \<open>int\<close>: the six enumerators, and every other value, which the
  switches of the source send to their \<^verbatim>\<open>default\<close> branch.
\<close>

datatype GolangStatus =
    GRunning | GLocalReply | GContinue | GStopAndBuffer | GStopAndBufferWatermark | GStopNoBuffer
  | GUnexpected int

definition golangStatus :: "int \<Rightarrow> GolangStatus" where
  "golangStatus n =
     (if n = 0 then GRunning
      else if n = 1 then GLocalReply
      else if n = 2 then GContinue
      else if n = 3 then GStopAndBuffer
      else if n = 4 then GStopAndBufferWatermark
      else if n = 5 then GStopNoBuffer
      else GUnexpected n)"

subsection \<open>BufferList\<close>

text \<open>
  A \<^verbatim>\<open>deque\<close> of owned buffers. Go holds a buffer by its address, so each one is listed with it;
  \<open>push\<close> takes the address the allocator returned.
\<close>

record 'b BufferList =
  queue :: "(u64 \<times> 'b) list"
  queue_bytes :: u32

definition BufferList_new :: "'b BufferList" where
  "BufferList_new = \<lparr>queue = [], queue_bytes = 0\<rparr>"

definition BufferList_empty :: "'b BufferList \<Rightarrow> bool" where
  "BufferList_empty q \<longleftrightarrow> queue_bytes q = 0"

definition push :: "('h, 'b) envoy \<Rightarrow> u64 \<Rightarrow> 'b \<Rightarrow> 'b BufferList \<Rightarrow> 'b \<times> 'b BufferList" where
  "push E addr data q =
     (let n = bi_length E data;
          (buffer, rest) = bi_move E (bi_new E) data
      in (rest, q\<lparr>queue := queue q @ [(addr, buffer)], queue_bytes := queue_bytes q + ucast n\<rparr>))"

fun moveOut_loop :: "('h, 'b) envoy \<Rightarrow> (u64 \<times> 'b) list \<Rightarrow> 'b \<Rightarrow> 'b" where
  "moveOut_loop E [] data = data"
| "moveOut_loop E ((_, b) # q) data = moveOut_loop E q (fst (bi_move E data b))"

definition moveOut :: "('h, 'b) envoy \<Rightarrow> 'b \<Rightarrow> 'b BufferList \<Rightarrow> 'b \<times> 'b BufferList" where
  "moveOut E data q = (moveOut_loop E (queue q) data, q\<lparr>queue := [], queue_bytes := 0\<rparr>)"

text \<open>\<^verbatim>\<open>queue_.back()\<close> of an empty deque is undefined behaviour.\<close>

definition clearLatest :: "('h, 'b) envoy \<Rightarrow> ('b BufferList, unit) go" where
  "clearLatest E = (\<lambda>q.
     if queue q = [] then (Fault OutOfBounds, q)
     else (Ok (), q\<lparr>queue_bytes := queue_bytes q - ucast (bi_length E (snd (last (queue q)))),
                    queue := butlast (queue q)\<rparr>))"

definition clearAll :: "'b BufferList \<Rightarrow> 'b BufferList" where
  "clearAll q = q\<lparr>queue_bytes := 0, queue := []\<rparr>"

text \<open>
  The loop of \<open>checkExisting\<close> steps with \<^verbatim>\<open>it = queue_.erase(it)\<close>: every buffer it looks at and
  that is not the one it looks for leaves the queue.
\<close>

fun checkExisting_loop :: "u64 \<Rightarrow> (u64 \<times> 'b) list \<Rightarrow> bool \<times> (u64 \<times> 'b) list" where
  "checkExisting_loop data [] = (False, [])"
| "checkExisting_loop data ((a, b) # q) =
     (if a = data then (True, (a, b) # q) else checkExisting_loop data q)"

definition checkExisting :: "u64 \<Rightarrow> 'b BufferList \<Rightarrow> bool \<times> 'b BufferList" where
  "checkExisting data q =
     (let (found, rest) = checkExisting_loop data (queue q) in (found, q\<lparr>queue := rest\<rparr>))"

subsection \<open>ProcessorState\<close>

record 'b ProcessorState =
  fstate :: FilterState
  end_stream :: bool
  do_end_stream :: bool
  seen_trailers :: bool
  watermark_requested :: bool
  data_buffer :: "'b option"
  doDataList :: "'b BufferList"

definition ProcessorState_new :: "'b ProcessorState" where
  "ProcessorState_new =
     \<lparr>fstate = WaitingHeader, end_stream = False, do_end_stream = False, seen_trailers = False,
      watermark_requested = False, data_buffer = None, doDataList = BufferList_new\<rparr>"

definition isProcessingInGo :: "'b ProcessorState \<Rightarrow> bool" where
  "isProcessingInGo p \<longleftrightarrow>
     fstate p = ProcessingHeader \<or> fstate p = ProcessingData \<or> fstate p = ProcessingTrailer"

definition isProcessingHeader :: "'b ProcessorState \<Rightarrow> bool" where
  "isProcessingHeader p \<longleftrightarrow> fstate p = ProcessingHeader"

definition isBufferDataEmpty :: "('h, 'b) envoy \<Rightarrow> 'b ProcessorState \<Rightarrow> bool" where
  "isBufferDataEmpty E p \<longleftrightarrow>
     (case data_buffer p of None \<Rightarrow> True | Some b \<Rightarrow> bi_length E b = 0)"

definition isStreamEnd :: "'b ProcessorState \<Rightarrow> bool" where
  "isStreamEnd p \<longleftrightarrow> end_stream p \<or> seen_trailers p"

definition drainBufferData :: "('h, 'b) envoy \<Rightarrow> 'b ProcessorState \<Rightarrow> 'b ProcessorState" where
  "drainBufferData E p = (case data_buffer p of
      None \<Rightarrow> p
    | Some b \<Rightarrow> (let len = bi_length E b in
        if len > 0 then p\<lparr>data_buffer := Some (bi_drain E b len)\<rparr> else p))"

definition processHeader :: "bool \<Rightarrow> ('b ProcessorState, unit) go" where
  "processHeader eos = go_then
     (c_assert (\<lambda>p. fstate p = WaitingHeader))
     (go_modify (\<lambda>p. p\<lparr>fstate := ProcessingHeader, do_end_stream := eos\<rparr>))"

definition processData :: "bool \<Rightarrow> ('b ProcessorState, unit) go" where
  "processData eos = go_then
     (c_assert (\<lambda>p. fstate p = WaitingData \<or>
        (fstate p = WaitingAllData \<and> (eos \<or> seen_trailers p))))
     (go_modify (\<lambda>p. p\<lparr>fstate := ProcessingData, do_end_stream := eos\<rparr>))"

definition processTrailer :: "('b ProcessorState, unit) go" where
  "processTrailer = go_then
     (c_assert (\<lambda>p. fstate p = WaitingTrailer \<or> fstate p = WaitingData \<or>
        fstate p = WaitingAllData))
     (go_modify (\<lambda>p. p\<lparr>fstate := ProcessingTrailer, do_end_stream := True\<rparr>))"

text \<open>The status Go returned for headers, data and trailers; the result says whether to go on.\<close>

definition handleHeaderGolangStatus :: "GolangStatus \<Rightarrow> ('b ProcessorState, bool) go" where
  "handleHeaderGolangStatus status = go_then
     (c_assert (\<lambda>p. fstate p = ProcessingHeader))
     (\<lambda>p. case status of
        GLocalReply \<Rightarrow> (Ok False, p)
      | GRunning \<Rightarrow> (Ok False, p)
      | GContinue \<Rightarrow>
          (Ok True, p\<lparr>fstate := (if do_end_stream p then Done else WaitingData)\<rparr>)
      | GStopAndBuffer \<Rightarrow> (Ok False, p\<lparr>fstate := WaitingAllData\<rparr>)
      | GStopAndBufferWatermark \<Rightarrow> (Ok False, p\<lparr>fstate := WaitingData\<rparr>)
      | _ \<Rightarrow> (Ok False, p))"

definition see_trailers :: "('h, 'b) envoy \<Rightarrow> 'b ProcessorState \<Rightarrow> 'b ProcessorState" where
  "see_trailers E p =
     (if seen_trailers p \<and> isBufferDataEmpty E p then p\<lparr>fstate := WaitingTrailer\<rparr> else p)"

definition handleDataGolangStatus ::
    "('h, 'b) envoy \<Rightarrow> GolangStatus \<Rightarrow> ('b ProcessorState, bool) go" where
  "handleDataGolangStatus E status = go_then
     (c_assert (\<lambda>p. fstate p = ProcessingData))
     (\<lambda>p. case status of
        GLocalReply \<Rightarrow> (Ok False, p)
      | GRunning \<Rightarrow> (Ok False, p)
      | GContinue \<Rightarrow>
          (Ok True, see_trailers E
             (p\<lparr>fstate := (if do_end_stream p then Done else WaitingData)\<rparr>))
      | GStopAndBuffer \<Rightarrow> (Ok False, see_trailers E (p\<lparr>fstate := WaitingAllData\<rparr>))
      | GStopAndBufferWatermark \<Rightarrow> (Ok False, see_trailers E (p\<lparr>fstate := WaitingData\<rparr>))
      | GStopNoBuffer \<Rightarrow>
          (case clearLatest E (doDataList p) of
             (Ok _, q) \<Rightarrow>
               (Ok False, see_trailers E (p\<lparr>doDataList := q, fstate := WaitingData\<rparr>))
           | (Panic x, q) \<Rightarrow> (Panic x, p)
           | (Fault x, q) \<Rightarrow> (Fault x, p))
      | GUnexpected _ \<Rightarrow> (Ok False, see_trailers E p))"

definition handleTrailerGolangStatus :: "GolangStatus \<Rightarrow> ('b ProcessorState, bool) go" where
  "handleTrailerGolangStatus status = go_then
     (c_assert (\<lambda>p. fstate p = ProcessingTrailer))
     (\<lambda>p. case status of
        GLocalReply \<Rightarrow> (Ok False, p)
      | GRunning \<Rightarrow> (Ok False, p)
      | GContinue \<Rightarrow> (Ok True, p\<lparr>fstate := Done\<rparr>)
      | _ \<Rightarrow> (Ok False, p))"

definition handleGolangStatus ::
    "('h, 'b) envoy \<Rightarrow> GolangStatus \<Rightarrow> ('b ProcessorState, bool) go" where
  "handleGolangStatus E status = go_then (c_assert isProcessingInGo)
     (\<lambda>p. case fstate p of
        ProcessingHeader \<Rightarrow> handleHeaderGolangStatus status p
      | ProcessingData \<Rightarrow> handleDataGolangStatus E status p
      | ProcessingTrailer \<Rightarrow> handleTrailerGolangStatus status p
      | _ \<Rightarrow> (Fault AssertFailed, p))"

text \<open>The phase reported to Go. The encoding side adds three to the decoding side's number.\<close>

fun state2Phase :: "FilterState \<Rightarrow> Phase" where
  "state2Phase WaitingHeader = DecodeHeader"
| "state2Phase ProcessingHeader = DecodeHeader"
| "state2Phase WaitingData = DecodeData"
| "state2Phase WaitingAllData = DecodeData"
| "state2Phase ProcessingData = DecodeData"
| "state2Phase WaitingTrailer = DecodeTrailer"
| "state2Phase ProcessingTrailer = DecodeTrailer"
| "state2Phase Done = EncodeHeader"

definition DecodingProcessorState_phase :: "'b ProcessorState \<Rightarrow> int" where
  "DecodingProcessorState_phase p = Phase_int (state2Phase (fstate p))"

definition EncodingProcessorState_phase :: "'b ProcessorState \<Rightarrow> int" where
  "EncodingProcessorState_phase p = Phase_int (state2Phase (fstate p)) + 3"

text \<open>\<^verbatim>\<open>continueDoData\<close>: the data and the end flag to inject into the filter chain, if any.\<close>

definition continueDoData ::
    "('h, 'b) envoy \<Rightarrow> 'b ProcessorState \<Rightarrow> ('b \<times> bool) option \<times> 'b ProcessorState" where
  "continueDoData E p =
     (if \<not> end_stream p \<and> BufferList_empty (doDataList p) then (None, p)
      else let (data_to_write, q) = moveOut E (bi_new E) (doDataList p)
           in (Some (data_to_write, do_end_stream p), p\<lparr>doDataList := q\<rparr>))"

text \<open>
  A local reply sent by the decoding side resets its state, so that Envoy can bring the reply's
  own headers; the reply itself is Envoy's.
\<close>

definition DecodingProcessorState_sendLocalReply :: "'b ProcessorState \<Rightarrow> 'b ProcessorState" where
  "DecodingProcessorState_sendLocalReply p = p\<lparr>fstate := WaitingHeader\<rparr>"

subsection \<open>The buffer list as a queue of bytes\<close>

definition list_bytes :: "('h, 'b) envoy \<Rightarrow> 'b BufferList \<Rightarrow> string" where
  "list_bytes E q = concat (map (\<lambda>x. bi_bytes E (snd x)) (queue q))"

lemma isProcessingInGo_drain [simp]:
  "isProcessingInGo (drainBufferData E p) = isProcessingInGo p"
  by (simp add: isProcessingInGo_def drainBufferData_def Let_def split: option.split)

lemma list_bytes_new [simp]: "list_bytes E BufferList_new = []"
  by (simp add: list_bytes_def BufferList_new_def)

lemma push_bytes:
  assumes "buffer_laws E"
  shows "list_bytes E (snd (push E a b q)) = list_bytes E q @ bi_bytes E b"
    and "bi_bytes E (fst (push E a b q)) = []"
  using buffer_lawsD [OF assms]
  by (simp_all add: push_def list_bytes_def case_prod_unfold Let_def)

lemma moveOut_loop_bytes:
  "buffer_laws E \<Longrightarrow> bi_bytes E (moveOut_loop E q b) =
     bi_bytes E b @ concat (map (\<lambda>x. bi_bytes E (snd x)) q)"
  by (induction q arbitrary: b) (auto simp: buffer_lawsD)

lemma moveOut_bytes:
  assumes "buffer_laws E"
  shows "bi_bytes E (fst (moveOut E b q)) = bi_bytes E b @ list_bytes E q"
    and "queue (snd (moveOut E b q)) = []" and "BufferList_empty (snd (moveOut E b q))"
  by (simp_all add: moveOut_def moveOut_loop_bytes [OF assms] list_bytes_def BufferList_empty_def)

fun pushes :: "('h, 'b) envoy \<Rightarrow> (u64 \<times> 'b) list \<Rightarrow> 'b BufferList \<Rightarrow> 'b BufferList" where
  "pushes E [] q = q"
| "pushes E ((a, b) # bs) q = pushes E bs (snd (push E a b q))"

lemma pushes_bytes:
  assumes "buffer_laws E"
  shows "list_bytes E (pushes E bs q) =
    list_bytes E q @ concat (map (\<lambda>x. bi_bytes E (snd x)) bs)"
  by (induction bs arbitrary: q) (auto simp: push_bytes [OF assms])

lemma ucast_of_nat_u64: "(ucast (of_nat n :: u64) :: u32) = of_nat n"
  by transfer simp

lemma queue_bytes_pushes:
  assumes "buffer_laws E"
  shows "queue_bytes (pushes E bs q) =
    queue_bytes q + of_nat (length (concat (map (\<lambda>x. bi_bytes E (snd x)) bs)))"
proof (induction bs arbitrary: q)
  case (Cons x bs)
  obtain a b where x: "x = (a, b)" by (cases x)
  have "queue_bytes (snd (push E a b q)) = queue_bytes q + of_nat (length (bi_bytes E b))"
    by (simp add: push_def case_prod_unfold Let_def buffer_lawsD(2) [OF assms] ucast_of_nat_u64)
  with Cons show ?case by (simp add: x)
qed simp

text \<open>What Go was given comes out to the filter chain, in order and once.\<close>

lemma continueDoData_pushes:
  assumes laws: "buffer_laws E"
    and p: "doDataList p = pushes E bs BufferList_new"
    and some: "end_stream p \<or>
      (of_nat (length (concat (map (\<lambda>x. bi_bytes E (snd x)) bs))) :: u32) \<noteq> 0"
  shows "\<exists>d. continueDoData E p = (Some (d, do_end_stream p), p\<lparr>doDataList := BufferList_new\<rparr>) \<and>
    bi_bytes E d = concat (map (\<lambda>x. bi_bytes E (snd x)) bs)"
proof -
  let ?m = "moveOut E (bi_new E) (doDataList p)"
  have "\<not> (\<not> end_stream p \<and> BufferList_empty (doDataList p))"
    using some by (simp add: p BufferList_empty_def queue_bytes_pushes [OF laws] BufferList_new_def)
  then have "continueDoData E p = (Some (fst ?m, do_end_stream p), p\<lparr>doDataList := snd ?m\<rparr>)"
    by (simp add: continueDoData_def case_prod_unfold Let_def)
  moreover have "snd ?m = BufferList_new" by (simp add: moveOut_def BufferList_new_def)
  moreover have "bi_bytes E (fst ?m) = concat (map (\<lambda>x. bi_bytes E (snd x)) bs)"
    by (simp add: moveOut_bytes [OF laws] p pushes_bytes [OF laws] buffer_lawsD [OF laws])
  ultimately show ?thesis by simp
qed

lemma queue_push: "map fst (queue (snd (push E a b q))) = map fst (queue q) @ [a]"
  by (simp add: push_def case_prod_unfold Let_def)

lemma queue_pushes: "map fst (queue (pushes E bs q)) = map fst (queue q) @ map fst bs"
  by (induction E bs q rule: pushes.induct) (simp_all add: queue_push)

lemma checkExisting_loop_eq:
  "checkExisting_loop a q = (a \<in> fst ` set q, dropWhile (\<lambda>x. fst x \<noteq> a) q)"
  by (induction a q rule: checkExisting_loop.induct) auto

lemma checkExisting_eq:
  "checkExisting a q = (a \<in> fst ` set (queue q), q\<lparr>queue := dropWhile (\<lambda>x. fst x \<noteq> a) (queue q)\<rparr>)"
  by (simp add: checkExisting_def checkExisting_loop_eq)

text \<open>Looking for the latest buffer loses every other one.\<close>

lemma checkExisting_latest:
  assumes "queue q = bs @ [(a, b)]" "a \<notin> fst ` set bs"
  shows "checkExisting a q = (True, q\<lparr>queue := [(a, b)]\<rparr>)"
proof -
  have "dropWhile (\<lambda>x. fst x \<noteq> a) (bs @ [(a, b)]) = [(a, b)]"
    using assms(2) by (induction bs) auto
  then show ?thesis by (simp add: checkExisting_eq assms(1))
qed

subsection \<open>Statuses and phases\<close>

lemma handleHeader_apply:
  "fstate p = ProcessingHeader \<Longrightarrow> handleHeaderGolangStatus status p = (Ok (status = GContinue),
     case status of
       GContinue \<Rightarrow> p\<lparr>fstate := (if do_end_stream p then Done else WaitingData)\<rparr>
     | GStopAndBuffer \<Rightarrow> p\<lparr>fstate := WaitingAllData\<rparr>
     | GStopAndBufferWatermark \<Rightarrow> p\<lparr>fstate := WaitingData\<rparr>
     | _ \<Rightarrow> p)"
  by (simp add: handleHeaderGolangStatus_def split: GolangStatus.split)

lemma handleTrailer_apply:
  "fstate p = ProcessingTrailer \<Longrightarrow> handleTrailerGolangStatus status p = (Ok (status = GContinue),
     if status = GContinue then p\<lparr>fstate := Done\<rparr> else p)"
  by (simp add: handleTrailerGolangStatus_def split: GolangStatus.split)

lemma handleData_result:
  assumes "fstate p = ProcessingData" "queue (doDataList p) \<noteq> []"
  shows "fst (handleDataGolangStatus E status p) = Ok (status = GContinue)"
  using assms by (simp add: handleDataGolangStatus_def clearLatest_def split: GolangStatus.split)

text \<open>The order in which the phases of one direction go by.\<close>

fun phase_rank :: "FilterState \<Rightarrow> nat" where
  "phase_rank WaitingHeader = 0"
| "phase_rank ProcessingHeader = 1"
| "phase_rank WaitingData = 2"
| "phase_rank WaitingAllData = 2"
| "phase_rank ProcessingData = 2"
| "phase_rank WaitingTrailer = 3"
| "phase_rank ProcessingTrailer = 3"
| "phase_rank Done = 4"

instantiation FilterState :: linorder
begin

fun state_number :: "FilterState \<Rightarrow> nat" where
  "state_number WaitingHeader = 0"
| "state_number ProcessingHeader = 1"
| "state_number WaitingData = 2"
| "state_number WaitingAllData = 3"
| "state_number ProcessingData = 4"
| "state_number WaitingTrailer = 5"
| "state_number ProcessingTrailer = 6"
| "state_number Done = 7"

definition less_eq_FilterState :: "FilterState \<Rightarrow> FilterState \<Rightarrow> bool" where
  "less_eq_FilterState s t \<longleftrightarrow> state_number s \<le> state_number t"

definition less_FilterState :: "FilterState \<Rightarrow> FilterState \<Rightarrow> bool" where
  "less_FilterState s t \<longleftrightarrow> state_number s < state_number t"

instance
proof
  fix s t :: FilterState
  show "s \<le> t \<Longrightarrow> t \<le> s \<Longrightarrow> s = t"
    by (cases s; cases t) (simp_all add: less_eq_FilterState_def)
qed (auto simp: less_eq_FilterState_def less_FilterState_def)

end

text \<open>
  One move of a direction while it answers no local reply: a callback begins, a status comes back,
  data or trailers arrive.
\<close>

inductive ps_step :: "('h, 'b) envoy \<Rightarrow> 'b ProcessorState \<Rightarrow> 'b ProcessorState \<Rightarrow> bool" for E where
  BeginHeader: "processHeader eos p = (Ok (), p') \<Longrightarrow> ps_step E p p'"
| BeginData: "processData eos p = (Ok (), p') \<Longrightarrow> ps_step E p p'"
| BeginTrailer: "processTrailer p = (Ok (), p') \<Longrightarrow> ps_step E p p'"
| Status: "handleGolangStatus E status p = (Ok go_on, p') \<Longrightarrow> ps_step E p p'"
| Buffered: "ps_step E p (p\<lparr>data_buffer := b, doDataList := q\<rparr>)"
| Ended: "ps_step E p (p\<lparr>end_stream := eos, seen_trailers := trailers\<rparr>)"

inductive_simps ps_step_iff: "ps_step E p p'"

lemma clearLatest_queue:
  "clearLatest E q = (if queue q = [] then (Fault OutOfBounds, q)
     else (Ok (), snd (clearLatest E q)))"
  by (simp add: clearLatest_def)

lemma begin_rank:
  "processHeader eos p = (Ok (), p') \<Longrightarrow> fstate p = WaitingHeader \<and> fstate p' = ProcessingHeader"
  "processData eos p = (Ok (), p') \<Longrightarrow>
     fstate p \<in> {WaitingData, WaitingAllData} \<and> fstate p' = ProcessingData"
  "processTrailer p = (Ok (), p') \<Longrightarrow>
     fstate p \<in> {WaitingTrailer, WaitingData, WaitingAllData} \<and> fstate p' = ProcessingTrailer"
  by (auto simp: processHeader_def processData_def processTrailer_def c_assert_def
      split: if_splits)

lemma see_trailers_fstate:
  "fstate (see_trailers E p) = fstate p \<or> fstate (see_trailers E p) = WaitingTrailer"
  by (simp add: see_trailers_def)

lemma handleData_rank:
  assumes "handleDataGolangStatus E status p = (Ok go_on, p')"
  shows "fstate p = ProcessingData \<and>
    fstate p' \<in> {ProcessingData, WaitingData, WaitingAllData, WaitingTrailer, Done}"
proof -
  have p: "fstate p = ProcessingData"
    using assms by (auto simp: handleDataGolangStatus_def c_assert_def split: if_splits)
  with assms show ?thesis
    by (auto simp: handleDataGolangStatus_def see_trailers_def split: GolangStatus.splits
        prod.splits outcome.splits if_splits)
qed

lemma status_rank:
  assumes "handleGolangStatus E status p = (Ok go_on, p')"
  shows "phase_rank (fstate p) \<le> phase_rank (fstate p')"
proof -
  have go: "isProcessingInGo p"
    using assms by (auto simp: handleGolangStatus_def c_assert_def split: if_splits)
  then consider "fstate p = ProcessingHeader" | "fstate p = ProcessingData"
    | "fstate p = ProcessingTrailer" by (auto simp: isProcessingInGo_def)
  then show ?thesis
  proof cases
    case 1
    with assms go show ?thesis
      by (auto simp: handleGolangStatus_def handleHeader_apply split: GolangStatus.splits)
  next
    case 2
    with assms go have "handleDataGolangStatus E status p = (Ok go_on, p')"
      by (simp add: handleGolangStatus_def)
    from handleData_rank [OF this] show ?thesis by auto
  next
    case 3
    with assms go show ?thesis
      by (auto simp: handleGolangStatus_def handleTrailer_apply)
  qed
qed

lemma ps_step_rank: "ps_step E p p' \<Longrightarrow> phase_rank (fstate p) \<le> phase_rank (fstate p')"
proof (induction rule: ps_step.induct)
  case (BeginHeader eos p p')
  with begin_rank(1) [of eos p p'] show ?case by simp
next
  case (BeginData eos p p')
  with begin_rank(2) [of eos p p'] show ?case by auto
next
  case (BeginTrailer p p')
  with begin_rank(3) [of p p'] show ?case by auto
qed (simp_all add: status_rank)

text \<open>A run of moves; its length is a number of callbacks and statuses, not of states.\<close>

inductive ps_run :: "('h, 'b) envoy \<Rightarrow> 'b ProcessorState \<Rightarrow> 'b ProcessorState \<Rightarrow> bool" for E where
  ps_stop: "ps_run E p p"
| ps_more: "ps_run E p p' \<Longrightarrow> ps_step E p' p'' \<Longrightarrow> ps_run E p p''"

lemma ps_run_rank: "ps_run E p p' \<Longrightarrow> phase_rank (fstate p) \<le> phase_rank (fstate p')"
proof (induction rule: ps_run.induct)
  case (ps_more p p' p'')
  then show ?case using ps_step_rank [of E p' p''] by simp
qed simp

text \<open>
  Once a direction has begun, its headers are not given to Go again, unless a local reply resets
  it.
\<close>

lemma header_once:
  assumes "ps_run E p p'" "fstate p \<noteq> WaitingHeader"
  shows "fst (processHeader eos p') = Fault AssertFailed"
proof -
  have "phase_rank (fstate p) \<noteq> 0" using assms(2) by (cases "fstate p") simp_all
  then have "fstate p' \<noteq> WaitingHeader" using ps_run_rank [OF assms(1)] by (cases "fstate p'") auto
  then show ?thesis by (simp add: processHeader_def)
qed

end
