(* ===== verification/Keyed_Store.thy ===== *)
theory Keyed_Store
  imports Go_Prelude
begin

text \<open>
  The interface of a store with keys, as a locale: what a lookup returns after a store or a deletion,
  and what follows for a sequence of them. The configuration cache of \<^verbatim>\<open>config.go\<close>, the request map of
  \<^verbatim>\<open>moe.go\<close> and the map of libraries of \<^verbatim>\<open>dso.cc\<close> provide it.
\<close>

subsection \<open>Operations\<close>

text \<open>A sequence of stores and deletions, and the map it stands for.\<close>

datatype ('k, 'v) store_op = StoreOp 'k 'v | DeleteOp 'k

fun store_spec :: "('k, 'v) store_op list \<Rightarrow> ('k \<Rightarrow> 'v option) \<Rightarrow> 'k \<Rightarrow> 'v option" where
  "store_spec [] m = m"
| "store_spec (StoreOp k v # ops) m = store_spec ops (m(k \<mapsto> v))"
| "store_spec (DeleteOp k # ops) m = store_spec ops (m(k := None))"

fun op_keys :: "('k, 'v) store_op list \<Rightarrow> 'k set" where
  "op_keys [] = {}"
| "op_keys (StoreOp k v # ops) = insert k (op_keys ops)"
| "op_keys (DeleteOp k # ops) = insert k (op_keys ops)"

locale keyed_store =
  fixes load :: "'k \<Rightarrow> 's \<Rightarrow> 'v option"
    and store :: "'k \<Rightarrow> 'v \<Rightarrow> 's \<Rightarrow> 's"
    and delete :: "'k \<Rightarrow> 's \<Rightarrow> 's"
  assumes load_store: "load k' (store k v s) = (if k' = k then Some v else load k' s)"
    and load_delete: "load k' (delete k s) = (if k' = k then None else load k' s)"
begin

definition run_op :: "('k, 'v) store_op \<Rightarrow> 's \<Rightarrow> 's" where
  "run_op op' s = (case op' of StoreOp k v \<Rightarrow> store k v s | DeleteOp k \<Rightarrow> delete k s)"

definition run :: "('k, 'v) store_op list \<Rightarrow> 's \<Rightarrow> 's" where
  "run ops s = fold run_op ops s"

lemma run_simps [simp]:
  "run [] s = s"
  "run (StoreOp k v # ops) s = run ops (store k v s)"
  "run (DeleteOp k # ops) s = run ops (delete k s)"
  by (simp_all add: run_def run_op_def)

lemma load_run: "load k (run ops s) = store_spec ops (\<lambda>k. load k s) k"
  by (induction ops "\<lambda>k. load k s" arbitrary: s rule: store_spec.induct)
    (simp_all add: load_store load_delete fun_upd_def)

lemma load_run_other: "k \<notin> op_keys ops \<Longrightarrow> load k (run ops s) = load k s"
  by (induction ops arbitrary: s rule: op_keys.induct) (auto simp: load_store load_delete)

text \<open>Values stored under different keys are all there afterwards.\<close>

lemma load_all:
  "distinct (map fst kvs) \<Longrightarrow> (k, v) \<in> set kvs \<Longrightarrow>
   load k (run (map (\<lambda>(k, v). StoreOp k v) kvs) s) = Some v"
proof (induction kvs arbitrary: s)
  case (Cons x kvs)
  obtain k' v' where x: "x = (k', v')" by (cases x)
  have keys: "op_keys (map (\<lambda>(k, v). StoreOp k v) kvs) = fst ` set kvs" for kvs :: "('k \<times> 'v) list"
    by (induction kvs) (simp_all split: prod.split)
  show ?case
  proof (cases "(k, v) \<in> set kvs")
    case True
    with Cons x show ?thesis by force
  next
    case False
    with Cons.prems have "k = k'" "v = v'" "k \<notin> fst ` set kvs" using x by auto
    then show ?thesis using x by (simp add: load_run_other keys load_store)
  qed
qed simp

end

end
