(* ===== verification/Dso.thy ===== *)
theory Dso
  imports Keyed_Store "HOL-Library.List_Lexorder" "HOL-Library.Char_ord"
begin

text \<open>
  Loading the Go library into Envoy: \<^verbatim>\<open>common/dso/dso.cc\<close> and \<^verbatim>\<open>bootstrap/dso/config.cc\<close>. The dynamic
  linker is a parameter: \<open>dlopen\<close> gives a handle for a file, \<open>dlsym\<close> the address of a symbol, and the
  code at an address is \<open>so_code\<close>. The map of libraries is a \<^verbatim>\<open>std::map\<close>, an association list in
  the order of its keys.
\<close>

subsection \<open>\<^verbatim>\<open>std::map\<close>\<close>

fun map_put :: "'k::linorder \<Rightarrow> 'v \<Rightarrow> ('k \<times> 'v) list \<Rightarrow> ('k \<times> 'v) list" where
  "map_put k v [] = [(k, v)]"
| "map_put k v ((k', v') # m) =
     (if k = k' then (k, v) # m else if k < k' then (k, v) # (k', v') # m
      else (k', v') # map_put k v m)"

definition map_erase :: "'k \<Rightarrow> ('k \<times> 'v) list \<Rightarrow> ('k \<times> 'v) list" where
  "map_erase k m = filter (\<lambda>e. fst e \<noteq> k) m"

definition in_order :: "('k::linorder \<times> 'v) list \<Rightarrow> bool" where
  "in_order m \<longleftrightarrow> sorted_wrt (<) (map fst m)"

lemma map_of_put: "map_of (map_put k v m) k' = (if k' = k then Some v else map_of m k')"
  by (induction k v m rule: map_put.induct) auto

lemma map_of_erase: "map_of (map_erase k m) k' = (if k' = k then None else map_of m k')"
  by (induction m) (auto simp: map_erase_def)

lemma keys_put: "fst ` set (map_put k v m) = insert k (fst ` set m)"
  by (induction k v m rule: map_put.induct) auto

lemma in_order_put: "in_order m \<Longrightarrow> in_order (map_put k v m)"
  by (induction k v m rule: map_put.induct) (auto simp: in_order_def keys_put)

lemma in_order_erase: "in_order m \<Longrightarrow> in_order (map_erase k m)"
  by (induction m) (auto simp: in_order_def map_erase_def)

interpretation std_map: keyed_store "\<lambda>k m. map_of m k" map_put map_erase
  by unfold_locales (simp_all add: map_of_put map_of_erase)

subsection \<open>The dynamic linker\<close>

record linker =
  dlopen :: "string \<Rightarrow> nat option"
  dlsym :: "nat \<Rightarrow> string \<Rightarrow> nat option"

text \<open>The functions at the addresses of a library, over the state \<open>'w\<close> they run in.\<close>

record 'w so_code =
  code_moeNewHttpPluginConfig :: "nat \<Rightarrow> string \<Rightarrow> ('w, u64) go"
  code_moeMergeHttpPluginConfig :: "nat \<Rightarrow> u64 \<Rightarrow> u64 \<Rightarrow> ('w, u64) go"
  code_moeOnHttpHeader :: "nat \<Rightarrow> nat \<Rightarrow> u64 \<Rightarrow> u64 \<Rightarrow> u64 \<Rightarrow> ('w, u64) go"
  code_moeOnHttpData :: "nat \<Rightarrow> nat \<Rightarrow> u64 \<Rightarrow> u64 \<Rightarrow> u64 \<Rightarrow> ('w, u64) go"
  code_moeOnHttpSemaCallback :: "nat \<Rightarrow> nat \<Rightarrow> ('w, unit) go"
  code_moeOnHttpDestroy :: "nat \<Rightarrow> nat \<Rightarrow> u64 \<Rightarrow> ('w, unit) go"

subsection \<open>\<^verbatim>\<open>DsoInstance\<close>\<close>

record DsoInstance =
  dsoName :: string
  dso_handler :: "nat option"
  loaded :: bool
  moeNewHttpPluginConfig_ptr :: "nat option"
  moeMergeHttpPluginConfig_ptr :: "nat option"
  moeOnHttpHeader_ptr :: "nat option"
  moeOnHttpData_ptr :: "nat option"
  moeOnHttpSemaCallback_ptr :: "nat option"
  moeOnHttpDestroy_ptr :: "nat option"

text \<open>\<^verbatim>\<open>func = dlsym(handler_, ...); if (func) { ... } else { loaded_ = false; }\<close>\<close>

definition load_symbol ::
    "linker \<Rightarrow> nat \<Rightarrow> string \<Rightarrow> ((nat option \<Rightarrow> nat option) \<Rightarrow> DsoInstance \<Rightarrow> DsoInstance) \<Rightarrow>
     DsoInstance \<Rightarrow> DsoInstance" where
  "load_symbol L h name upd d = (case dlsym L h name of
      Some func \<Rightarrow> upd (\<lambda>_. Some func) d
    | None \<Rightarrow> d\<lparr>loaded := False\<rparr>)"

definition load_symbols :: "linker \<Rightarrow> nat \<Rightarrow> DsoInstance \<Rightarrow> DsoInstance" where
  "load_symbols L h d =
     load_symbol L h ''moeOnHttpDestroy'' moeOnHttpDestroy_ptr_update
    (load_symbol L h ''moeOnHttpSemaCallback'' moeOnHttpSemaCallback_ptr_update
    (load_symbol L h ''moeOnHttpData'' moeOnHttpData_ptr_update
    (load_symbol L h ''moeOnHttpHeader'' moeOnHttpHeader_ptr_update
    (load_symbol L h ''moeMergeHttpPluginConfig'' moeMergeHttpPluginConfig_ptr_update
    (load_symbol L h ''moeNewHttpPluginConfig'' moeNewHttpPluginConfig_ptr_update d)))))"

definition DsoInstance_new :: "linker \<Rightarrow> string \<Rightarrow> DsoInstance" where
  "DsoInstance_new L name =
     (let d = \<lparr>dsoName = name, dso_handler = None, loaded = False,
        moeNewHttpPluginConfig_ptr = None, moeMergeHttpPluginConfig_ptr = None,
        moeOnHttpHeader_ptr = None, moeOnHttpData_ptr = None,
        moeOnHttpSemaCallback_ptr = None, moeOnHttpDestroy_ptr = None\<rparr>
      in case dlopen L name of
        None \<Rightarrow> d
      | Some h \<Rightarrow> load_symbols L h (d\<lparr>dso_handler := Some h, loaded := True\<rparr>))"

text \<open>\<^verbatim>\<open>assert(f_ != nullptr); return f_(...)\<close>\<close>

definition call_symbol :: "nat option \<Rightarrow> (nat \<Rightarrow> ('w, 'a) go) \<Rightarrow> ('w, 'a) go" where
  "call_symbol ptr f = (case ptr of None \<Rightarrow> go_fault AssertFailed | Some p \<Rightarrow> f p)"

definition DsoInstance_moeNewHttpPluginConfig ::
    "'w so_code \<Rightarrow> DsoInstance \<Rightarrow> string \<Rightarrow> ('w, u64) go" where
  "DsoInstance_moeNewHttpPluginConfig K d buf =
     call_symbol (moeNewHttpPluginConfig_ptr d) (\<lambda>p. code_moeNewHttpPluginConfig K p buf)"

definition DsoInstance_moeMergeHttpPluginConfig ::
    "'w so_code \<Rightarrow> DsoInstance \<Rightarrow> u64 \<Rightarrow> u64 \<Rightarrow> ('w, u64) go" where
  "DsoInstance_moeMergeHttpPluginConfig K d p0 p1 =
     call_symbol (moeMergeHttpPluginConfig_ptr d) (\<lambda>p. code_moeMergeHttpPluginConfig K p p0 p1)"

definition DsoInstance_moeOnHttpHeader ::
    "'w so_code \<Rightarrow> DsoInstance \<Rightarrow> nat \<Rightarrow> u64 \<Rightarrow> u64 \<Rightarrow> u64 \<Rightarrow> ('w, u64) go" where
  "DsoInstance_moeOnHttpHeader K d p0 p1 p2 p3 =
     call_symbol (moeOnHttpHeader_ptr d) (\<lambda>p. code_moeOnHttpHeader K p p0 p1 p2 p3)"

definition DsoInstance_moeOnHttpData ::
    "'w so_code \<Rightarrow> DsoInstance \<Rightarrow> nat \<Rightarrow> u64 \<Rightarrow> u64 \<Rightarrow> u64 \<Rightarrow> ('w, u64) go" where
  "DsoInstance_moeOnHttpData K d p0 p1 p2 p3 =
     call_symbol (moeOnHttpData_ptr d) (\<lambda>p. code_moeOnHttpData K p p0 p1 p2 p3)"

definition DsoInstance_moeOnHttpSemaCallback ::
    "'w so_code \<Rightarrow> DsoInstance \<Rightarrow> nat \<Rightarrow> ('w, unit) go" where
  "DsoInstance_moeOnHttpSemaCallback K d p0 =
     call_symbol (moeOnHttpSemaCallback_ptr d) (\<lambda>p. code_moeOnHttpSemaCallback K p p0)"

text \<open>\<^verbatim>\<open>GoUint64(p1)\<close> of a C \<^verbatim>\<open>int\<close>.\<close>

definition DsoInstance_moeOnHttpDestroy ::
    "'w so_code \<Rightarrow> DsoInstance \<Rightarrow> nat \<Rightarrow> int \<Rightarrow> ('w, unit) go" where
  "DsoInstance_moeOnHttpDestroy K d p0 p1 =
     call_symbol (moeOnHttpDestroy_ptr d) (\<lambda>p. code_moeOnHttpDestroy K p p0 (word_of_int p1))"

subsection \<open>\<^verbatim>\<open>DsoInstanceManager\<close>\<close>

type_synonym dso_map = "(string \<times> DsoInstance) list"

definition getDsoInstanceByID :: "string \<Rightarrow> dso_map \<Rightarrow> DsoInstance option" where
  "getDsoInstanceByID dsoId m = map_of m dsoId"

text \<open>The part of \<open>pub\<close> after its check, under the write lock.\<close>

definition pub_load :: "linker \<Rightarrow> string \<Rightarrow> string \<Rightarrow> dso_map \<Rightarrow> bool \<times> dso_map" where
  "pub_load L dsoId name m =
     (let dso = DsoInstance_new L name in
      if loaded dso then (True, map_put dsoId dso m) else (False, m))"

definition pub :: "linker \<Rightarrow> string \<Rightarrow> string \<Rightarrow> dso_map \<Rightarrow> bool \<times> dso_map" where
  "pub L dsoId name m =
     (if getDsoInstanceByID dsoId m \<noteq> None then (False, m) else pub_load L dsoId name m)"

text \<open>The instance itself is not deleted: a filter that holds it goes on using it.\<close>

definition unpub :: "string \<Rightarrow> dso_map \<Rightarrow> bool \<times> dso_map" where
  "unpub dsoId m = (map_of m dsoId \<noteq> None, map_erase dsoId m)"

definition show_dsos :: "dso_map \<Rightarrow> string" where
  "show_dsos m = concat (map (\<lambda>e. fst e @ '','') m)"

subsection \<open>The bootstrap extension\<close>

text \<open>
  \<^verbatim>\<open>DsoExtension::onServerInitialized\<close> registers a callback that publishes its library once the server
  is initialised; the callbacks of all extensions run in order.
\<close>

record dso_config =
  cfg_so_id :: string
  cfg_so_path :: string

definition onServerInitialized ::
    "linker \<Rightarrow> dso_config \<Rightarrow> (dso_map \<Rightarrow> dso_map) list \<Rightarrow> (dso_map \<Rightarrow> dso_map) list" where
  "onServerInitialized L c cbs = cbs @ [\<lambda>m. snd (pub L (cfg_so_id c) (cfg_so_path c) m)]"

definition run_bootstrap :: "linker \<Rightarrow> dso_config list \<Rightarrow> dso_map \<Rightarrow> dso_map" where
  "run_bootstrap L cs m = fold (\<lambda>cb m. cb m) (fold (onServerInitialized L) cs []) m"

subsection \<open>What the manager holds\<close>

datatype dso_op = Pub string string | Unpub string

fun run_dso :: "linker \<Rightarrow> dso_op list \<Rightarrow> dso_map \<Rightarrow> dso_map" where
  "run_dso L [] m = m"
| "run_dso L (Pub i n # ops) m = run_dso L ops (snd (pub L i n m))"
| "run_dso L (Unpub i # ops) m = run_dso L ops (snd (unpub i m))"

definition resolves :: "linker \<Rightarrow> string \<Rightarrow> bool" where
  "resolves L name \<longleftrightarrow> (case dlopen L name of None \<Rightarrow> False | Some h \<Rightarrow>
     (\<forall>s \<in> {''moeNewHttpPluginConfig'', ''moeMergeHttpPluginConfig'', ''moeOnHttpHeader'',
        ''moeOnHttpData'', ''moeOnHttpSemaCallback'', ''moeOnHttpDestroy''}. dlsym L h s \<noteq> None))"

text \<open>An instance with the six functions of the library it was made from.\<close>

definition linked :: "linker \<Rightarrow> DsoInstance \<Rightarrow> bool" where
  "linked L d \<longleftrightarrow> (\<exists>h. dlopen L (dsoName d) = Some h \<and>
     moeNewHttpPluginConfig_ptr d = dlsym L h ''moeNewHttpPluginConfig'' \<and>
     moeMergeHttpPluginConfig_ptr d = dlsym L h ''moeMergeHttpPluginConfig'' \<and>
     moeOnHttpHeader_ptr d = dlsym L h ''moeOnHttpHeader'' \<and>
     moeOnHttpData_ptr d = dlsym L h ''moeOnHttpData'' \<and>
     moeOnHttpSemaCallback_ptr d = dlsym L h ''moeOnHttpSemaCallback'' \<and>
     moeOnHttpDestroy_ptr d = dlsym L h ''moeOnHttpDestroy'')"

lemma load_symbols_simps:
  assumes "loaded d"
    and "moeNewHttpPluginConfig_ptr d = None" "moeMergeHttpPluginConfig_ptr d = None"
      "moeOnHttpHeader_ptr d = None" "moeOnHttpData_ptr d = None"
      "moeOnHttpSemaCallback_ptr d = None" "moeOnHttpDestroy_ptr d = None"
  shows "dsoName (load_symbols L h d) = dsoName d" "dso_handler (load_symbols L h d) = dso_handler d"
    "moeNewHttpPluginConfig_ptr (load_symbols L h d) = dlsym L h ''moeNewHttpPluginConfig''"
    "moeMergeHttpPluginConfig_ptr (load_symbols L h d) = dlsym L h ''moeMergeHttpPluginConfig''"
    "moeOnHttpHeader_ptr (load_symbols L h d) = dlsym L h ''moeOnHttpHeader''"
    "moeOnHttpData_ptr (load_symbols L h d) = dlsym L h ''moeOnHttpData''"
    "moeOnHttpSemaCallback_ptr (load_symbols L h d) = dlsym L h ''moeOnHttpSemaCallback''"
    "moeOnHttpDestroy_ptr (load_symbols L h d) = dlsym L h ''moeOnHttpDestroy''"
    "loaded (load_symbols L h d) \<longleftrightarrow> (\<forall>s \<in> {''moeNewHttpPluginConfig'',
       ''moeMergeHttpPluginConfig'', ''moeOnHttpHeader'', ''moeOnHttpData'',
       ''moeOnHttpSemaCallback'', ''moeOnHttpDestroy''}. dlsym L h s \<noteq> None)"
  using assms by (simp_all add: load_symbols_def load_symbol_def split: option.split)

lemma dsoName_new [simp]: "dsoName (DsoInstance_new L name) = name"
  by (simp add: DsoInstance_new_def Let_def load_symbols_simps split: option.split)

lemma loaded_new: "loaded (DsoInstance_new L name) \<longleftrightarrow> resolves L name"
  by (simp add: DsoInstance_new_def Let_def resolves_def load_symbols_simps split: option.split)

lemma linked_new: "loaded (DsoInstance_new L name) \<Longrightarrow> linked L (DsoInstance_new L name)"
  by (auto simp: DsoInstance_new_def Let_def linked_def load_symbols_simps split: option.splits)

lemma pub_lookup:
  "getDsoInstanceByID j (snd (pub L i name m)) =
     (if j = i \<and> getDsoInstanceByID i m = None \<and> resolves L name then Some (DsoInstance_new L name)
      else getDsoInstanceByID j m)"
  by (auto simp: pub_def pub_load_def Let_def getDsoInstanceByID_def map_of_put loaded_new)

lemma unpub_lookup:
  "getDsoInstanceByID j (snd (unpub i m)) = (if j = i then None else getDsoInstanceByID j m)"
  by (simp add: unpub_def getDsoInstanceByID_def map_of_erase)

definition published :: "linker \<Rightarrow> dso_map \<Rightarrow> bool" where
  "published L m \<longleftrightarrow> in_order m \<and> (\<forall>i d. getDsoInstanceByID i m = Some d \<longrightarrow>
     resolves L (dsoName d) \<and> linked L d)"

lemma published_Nil [simp]: "published L []"
  by (simp add: published_def in_order_def getDsoInstanceByID_def)

lemma published_pub: "published L m \<Longrightarrow> published L (snd (pub L i name m))"
  using linked_new [of L name]
  by (auto simp: published_def pub_lookup loaded_new split: if_splits)
    (auto simp: pub_def pub_load_def Let_def in_order_put)

lemma published_unpub: "published L m \<Longrightarrow> published L (snd (unpub i m))"
  by (auto simp: published_def unpub_lookup split: if_splits)
    (auto simp: unpub_def in_order_erase)

lemma published_run: "published L m \<Longrightarrow> published L (run_dso L ops m)"
  by (induction L ops m rule: run_dso.induct) (simp_all add: published_pub published_unpub)

lemma published_linked:
  assumes "published L m" "getDsoInstanceByID i m = Some d"
  obtains h where "dlopen L (dsoName d) = Some h"
    "moeNewHttpPluginConfig_ptr d = dlsym L h ''moeNewHttpPluginConfig''"
    "moeMergeHttpPluginConfig_ptr d = dlsym L h ''moeMergeHttpPluginConfig''"
    "moeOnHttpHeader_ptr d = dlsym L h ''moeOnHttpHeader''"
    "moeOnHttpData_ptr d = dlsym L h ''moeOnHttpData''"
    "moeOnHttpSemaCallback_ptr d = dlsym L h ''moeOnHttpSemaCallback''"
    "moeOnHttpDestroy_ptr d = dlsym L h ''moeOnHttpDestroy''"
    "\<forall>s \<in> {''moeNewHttpPluginConfig'', ''moeMergeHttpPluginConfig'', ''moeOnHttpHeader'',
        ''moeOnHttpData'', ''moeOnHttpSemaCallback'', ''moeOnHttpDestroy''}. dlsym L h s \<noteq> None"
proof -
  have "resolves L (dsoName d)" "linked L d" using assms by (simp_all add: published_def)
  then show thesis unfolding linked_def using that by (force simp only: resolves_def option.simps)
qed

text \<open>
  Two threads that publish: \<open>pub\<close> drops the shared lock of its check before it takes the write lock,
  so another thread can come in between. A thread is \<open>PubStart\<close> before the check, \<open>PubChecked\<close> before
  the rest.
\<close>

datatype pub_thread = PubStart string string | PubChecked string string | PubDone bool

inductive pub_step ::
    "linker \<Rightarrow> pub_thread list \<times> dso_map \<Rightarrow> pub_thread list \<times> dso_map \<Rightarrow> bool" for L where
  PubRefused: "i < length ts \<Longrightarrow> ts ! i = PubStart k n \<Longrightarrow> getDsoInstanceByID k m \<noteq> None \<Longrightarrow>
    pub_step L (ts, m) (ts[i := PubDone False], m)"
| PubPassed: "i < length ts \<Longrightarrow> ts ! i = PubStart k n \<Longrightarrow> getDsoInstanceByID k m = None \<Longrightarrow>
    pub_step L (ts, m) (ts[i := PubChecked k n], m)"
| PubLoaded: "i < length ts \<Longrightarrow> ts ! i = PubChecked k n \<Longrightarrow> pub_load L k n m = (r, m') \<Longrightarrow>
    pub_step L (ts, m) (ts[i := PubDone r], m')"

inductive_cases pub_stepE: "pub_step L (ts, m) (ts', m')"

lemma pub_step_published:
  assumes "pub_step L s s'" "published L (snd s)"
  shows "published L (snd s')"
  using assms
proof (induction rule: pub_step.induct)
  case (PubLoaded i ts k n m r m')
  then show ?case
    using linked_new [of L n]
    by (auto simp: pub_load_def Let_def published_def getDsoInstanceByID_def map_of_put
        loaded_new in_order_put split: if_splits)
qed simp_all

text \<open>Both threads are told that they published, and the library of the first is replaced.\<close>

lemma concurrent_pub_replaces:
  assumes "resolves L a" "resolves L b"
  shows "\<exists>m. (pub_step L)\<^sup>*\<^sup>* ([PubStart k a, PubStart k b], []) ([PubDone True, PubDone True], m) \<and>
    getDsoInstanceByID k m = Some (DsoInstance_new L b)"
proof -
  let ?m = "map_put k (DsoInstance_new L b) (map_put k (DsoInstance_new L a) [])"
  have "pub_step L ([PubStart k a, PubStart k b], []) ([PubChecked k a, PubStart k b], [])"
    using PubPassed [of 0 "[PubStart k a, PubStart k b]" k a "[]" L]
    by (simp add: getDsoInstanceByID_def)
  moreover have "pub_step L ([PubChecked k a, PubStart k b], []) ([PubChecked k a, PubChecked k b], [])"
    using PubPassed [of 1 "[PubChecked k a, PubStart k b]" k b "[]" L]
    by (simp add: getDsoInstanceByID_def)
  moreover have "pub_step L ([PubChecked k a, PubChecked k b], [])
      ([PubDone True, PubChecked k b], map_put k (DsoInstance_new L a) [])"
    using PubLoaded [of 0 "[PubChecked k a, PubChecked k b]" k a L "[]"] assms(1)
    by (simp add: pub_load_def Let_def loaded_new)
  moreover have "pub_step L ([PubDone True, PubChecked k b], map_put k (DsoInstance_new L a) [])
      ([PubDone True, PubDone True], ?m)"
    using PubLoaded [of 1 "[PubDone True, PubChecked k b]" k b L
        "map_put k (DsoInstance_new L a) []"] assms(2)
    by (simp add: pub_load_def Let_def loaded_new)
  ultimately have "(pub_step L)\<^sup>*\<^sup>* ([PubStart k a, PubStart k b], []) ([PubDone True, PubDone True], ?m)"
    by (meson converse_rtranclp_into_rtranclp rtranclp.rtrancl_refl)
  then show ?thesis by (auto simp: getDsoInstanceByID_def map_of_put)
qed

subsection \<open>The first publication of an identifier wins\<close>

lemma fold_onServerInitialized:
  "fold (onServerInitialized L) cs cbs =
     cbs @ map (\<lambda>c m. snd (pub L (cfg_so_id c) (cfg_so_path c) m)) cs"
  by (induction cs arbitrary: cbs) (simp_all add: onServerInitialized_def)

lemma run_bootstrap_simps [simp]:
  "run_bootstrap L [] m = m"
  "run_bootstrap L (c # cs) m = run_bootstrap L cs (snd (pub L (cfg_so_id c) (cfg_so_path c) m))"
  by (simp_all add: run_bootstrap_def fold_onServerInitialized onServerInitialized_def)

lemma published_bootstrap: "published L m \<Longrightarrow> published L (run_bootstrap L cs m)"
  by (induction cs arbitrary: m) (simp_all add: published_pub)

lemma run_dso_Nil: "ops = [] \<Longrightarrow> run_dso L ops m = m"
  by simp

lemma run_bootstrap_lookup:
  "getDsoInstanceByID i (run_bootstrap L cs m) = (case getDsoInstanceByID i m of
      Some d \<Rightarrow> Some d
    | None \<Rightarrow> map_option (\<lambda>c. DsoInstance_new L (cfg_so_path c))
        (find (\<lambda>c. cfg_so_id c = i \<and> resolves L (cfg_so_path c)) cs))"
  by (induction cs arbitrary: m) (auto simp: pub_lookup split: option.split)

lemma show_dsos_sorted:
  assumes "published L m"
  shows "\<exists>ids. show_dsos m = concat (map (\<lambda>i. i @ '','') ids) \<and> sorted ids \<and> distinct ids \<and>
    set ids = dom (\<lambda>i. getDsoInstanceByID i m)"
proof (intro exI conjI)
  have o: "sorted_wrt (<) (map fst m)" using assms by (simp add: published_def in_order_def)
  show "show_dsos m = concat (map (\<lambda>i. i @ '','') (map fst m))"
    by (simp add: show_dsos_def comp_def)
  show "sorted (map fst m)" "distinct (map fst m)"
    using o by (simp_all add: strict_sorted_iff)
  show "set (map fst m) = dom (\<lambda>i. getDsoInstanceByID i m)"
    unfolding getDsoInstanceByID_def by (simp add: dom_map_of_conv_image_fst)
qed

end
