(* ===== verification/Filter_Capi.thy ===== *)
theory Filter_Capi
  imports Processor_State Dso
begin

text \<open>
  The C API that Go calls: \<^verbatim>\<open>cgo.cc\<close> and the "APIs for go call C" of \<^verbatim>\<open>golang_filter.cc\<close>. The
  state is the C++ heap: header maps by address, the \<open>Filter\<close> objects that are still alive, the
  \<open>httpRequestInternal\<close> structs that Go points to, and the events posted to the worker thread.
  Each function takes its \<^verbatim>\<open>mutex_\<close> for its whole body, so it is one step of this state.

  Memory that belongs to Go (the slices a copy function fills) is passed in and returned; a write
  past its end is the fault \<open>OutOfBounds\<close>, a struct that was deleted is \<open>UseAfterFree\<close>.
\<close>

subsection \<open>State\<close>

text \<open>The \<^verbatim>\<open>httpRequest\<close> of \<^verbatim>\<open>api.h\<close> with the fields \<^verbatim>\<open>httpRequestInternal\<close> adds.\<close>

record httpRequestInternal =
  configId :: u64
  phase :: int
  waitSema :: int
  weakFilter :: nat
  strValue :: string

definition httpRequestInternal_new :: "nat \<Rightarrow> httpRequestInternal" where
  "httpRequestInternal_new f =
     \<lparr>configId = 0, phase = 0, waitSema = 0, weakFilter = f, strValue = []\<rparr>"

record 'b Filter =
  headers_ptr :: "nat option"
  trailers_ptr :: "nat option"
  local_headers :: "nat option"
  local_trailers :: "nat option"
  decoding_state :: "'b ProcessorState"
  encoding_state :: "'b ProcessorState"
  filter_req :: "nat option"
  has_destroyed :: bool
  local_reply_waiting_go :: bool
  enter_encoding :: bool

definition Filter_new :: "'b Filter" where
  "Filter_new =
     \<lparr>headers_ptr = None, trailers_ptr = None, local_headers = None, local_trailers = None,
      decoding_state = ProcessorState_new, encoding_state = ProcessorState_new,
      filter_req = None, has_destroyed = False, local_reply_waiting_go = False,
      enter_encoding = False\<rparr>"

text \<open>
  The closures the API posts to the dispatcher of the worker thread. The closure of a local reply
  holds views of Go's strings, which nothing keeps alive until it runs; the event has the bytes the
  views had when it was posted.
\<close>

datatype posted_event =
    PostLocalReply (reply_code: int) (reply_body: string) (reply_grpc: int) (reply_details: string)
  | PostContinue GolangStatus
  | PostGetMetadata (meta_name: string) (meta_slot: nat)
  | PostSetMetadata (meta_name: string) (meta_key: string) (meta_value: string)

text \<open>
  The calls the filter makes on Envoy's own callbacks; \<open>True\<close> stands for the encoding side.
\<close>

datatype 'b envoy_call =
    ContinueCall bool
  | InjectCall bool 'b bool
  | ReplyCall bool int string int string
  | PayloadTooLargeCall bool
  | AboveWatermarkCall bool
  | BelowWatermarkCall bool

text \<open>
  The configuration objects of \<^verbatim>\<open>golang_filter.h\<close>. A \<^verbatim>\<open>Protobuf::Any\<close> is its two fields;
  \<^verbatim>\<open>plugins_config_\<close> points to the configurations of the plugins by their address.
\<close>

record Any =
  type_url :: string
  any_value :: string

record FilterConfig =
  filter_chain :: string
  plugin_name :: string
  so_id :: string
  plugin_config :: Any
  config_id :: u64

record RoutePluginConfig =
  route_plugin_config :: Any
  route_config_id :: u64
  merged_config_id :: u64

record FilterConfigPerRoute =
  plugins_config :: "(string \<times> nat) list"

text \<open>The state of the C++ side; \<open>dsos\<close> is the static map of libraries.\<close>

record ('h, 'b) cstate =
  hm_heap :: "nat \<Rightarrow> 'h"
  filters :: "nat \<Rightarrow> 'b Filter option"
  creqs :: "nat \<Rightarrow> httpRequestInternal option"
  posted :: "(nat \<times> posted_event) list"
  dyn_meta :: "nat \<Rightarrow> string \<Rightarrow> string option"
  go_slots :: "nat \<Rightarrow> bool"
  envoy_calls :: "'b envoy_call list"
  dsos :: dso_map
  filterConfigs :: "nat \<Rightarrow> FilterConfig option"
  routePlugins :: "nat \<Rightarrow> RoutePluginConfig option"

subsection \<open>Access to the filter\<close>

definition getProcessorState :: "'b Filter \<Rightarrow> 'b ProcessorState" where
  "getProcessorState F = (if enter_encoding F then encoding_state F else decoding_state F)"

definition setProcessorState :: "'b ProcessorState \<Rightarrow> 'b Filter \<Rightarrow> 'b Filter" where
  "setProcessorState p F =
     (if enter_encoding F then F\<lparr>encoding_state := p\<rparr> else F\<lparr>decoding_state := p\<rparr>)"

definition put_filter :: "nat \<Rightarrow> 'b Filter \<Rightarrow> ('h, 'b) cstate \<Rightarrow> ('h, 'b) cstate" where
  "put_filter i F c = c\<lparr>filters := (filters c)(i \<mapsto> F)\<rparr>"

definition put_creq :: "nat \<Rightarrow> httpRequestInternal \<Rightarrow> ('h, 'b) cstate \<Rightarrow> ('h, 'b) cstate" where
  "put_creq r q c = c\<lparr>creqs := (creqs c)(r \<mapsto> q)\<rparr>"

definition post :: "nat \<Rightarrow> posted_event \<Rightarrow> ('h, 'b) cstate \<Rightarrow> ('h, 'b) cstate" where
  "post i e c = c\<lparr>posted := posted c @ [(i, e)]\<rparr>"

text \<open>
  \<open>moeHandlerWrapper\<close> reads the weak pointer of the request and runs \<open>f\<close> on the filter if it is
  still alive. \<open>ret\<close> turns a status code into the result of the call (it adds the Go memory a
  call returns untouched).
\<close>

definition moeHandlerWrapper ::
    "(int \<Rightarrow> 'a) \<Rightarrow> nat \<Rightarrow> (nat \<Rightarrow> 'b Filter \<Rightarrow> (('h, 'b) cstate, 'a) go) \<Rightarrow> (('h, 'b) cstate, 'a) go" where
  "moeHandlerWrapper ret r f = (\<lambda>c. case creqs c r of
      None \<Rightarrow> (Fault UseAfterFree, c)
    | Some q \<Rightarrow> (case filters c (weakFilter q) of
          None \<Rightarrow> (Ok (ret CAPIFilterIsGone), c)
        | Some F \<Rightarrow> f (weakFilter q) F c))"

text \<open>The two checks with which every API function of \<^verbatim>\<open>Filter\<close> starts.\<close>

definition inGoGuard ::
    "(int \<Rightarrow> 'a) \<Rightarrow> (nat \<Rightarrow> 'b Filter \<Rightarrow> (('h, 'b) cstate, 'a) go) \<Rightarrow> nat \<Rightarrow> 'b Filter \<Rightarrow>
     (('h, 'b) cstate, 'a) go" where
  "inGoGuard ret body i F =
     (if has_destroyed F then go_return (ret CAPIFilterIsDestroy)
      else if \<not> isProcessingInGo (getProcessorState F) then go_return (ret CAPINotInGo)
      else body i F)"

subsection \<open>Continue and local reply\<close>

definition continueStatus ::
    "GolangStatus \<Rightarrow> nat \<Rightarrow> 'b Filter \<Rightarrow> (('h, 'b) cstate, int) go" where
  "continueStatus status = inGoGuard id (\<lambda>i F.
     go_then (go_modify (post i (PostContinue status))) (go_return CAPIOK))"

definition moeHttpContinue :: "nat \<Rightarrow> int \<Rightarrow> (('h, 'b) cstate, int) go" where
  "moeHttpContinue r status = moeHandlerWrapper id r (continueStatus (golangStatus status))"

definition sendLocalReply ::
    "int \<Rightarrow> string \<Rightarrow> int \<Rightarrow> string \<Rightarrow> nat \<Rightarrow> 'b Filter \<Rightarrow> (('h, 'b) cstate, int) go" where
  "sendLocalReply response_code body_text grpc_status details = inGoGuard id (\<lambda>i F.
     go_then (go_modify (post i (PostLocalReply response_code body_text grpc_status details)))
       (go_return CAPIOK))"

text \<open>The headers argument is dropped: \<^verbatim>\<open>(void)headers\<close>.\<close>

definition moeHttpSendLocalReply ::
    "nat \<Rightarrow> int \<Rightarrow> string \<Rightarrow> string list \<Rightarrow> int \<Rightarrow> string \<Rightarrow> (('h, 'b) cstate, int) go" where
  "moeHttpSendLocalReply r response_code body_text headers grpc_status details =
     moeHandlerWrapper id r (sendLocalReply response_code body_text grpc_status details)"

subsection \<open>Headers\<close>

text \<open>The result is the status and the Go string the call wrote, if it wrote one.\<close>

definition getHeader ::
    "('h, 'b) envoy \<Rightarrow> string \<Rightarrow> nat \<Rightarrow> 'b Filter \<Rightarrow> (('h, 'b) cstate, int \<times> string option) go" where
  "getHeader E key = inGoGuard (\<lambda>st. (st, None)) (\<lambda>i F.
     case (if isProcessingHeader (getProcessorState F) then headers_ptr F else trailers_ptr F) of
       None \<Rightarrow> go_return (CAPIInvalidPhase, None)
     | Some m \<Rightarrow> go_gets (\<lambda>c.
         case hm_get E (hm_heap c m) (env_lower E key) of
           [] \<Rightarrow> (CAPIOK, None)
         | v # _ \<Rightarrow> (CAPIOK, Some v)))"

definition moeHttpGetHeader ::
    "('h, 'b) envoy \<Rightarrow> nat \<Rightarrow> string \<Rightarrow> (('h, 'b) cstate, int \<times> string option) go" where
  "moeHttpGetHeader E r key = moeHandlerWrapper (\<lambda>st. (st, None)) r (getHeader E key)"

text \<open>
  Go memory for a copy: the string headers \<open>(p, n)\<close> of the slice \<open>goStrs\<close>, with \<open>p\<close> an offset
  into the byte buffer \<open>goBuf\<close>. \<open>put_string\<close> is one turn of the copy: it writes string number
  \<open>i\<close> at offset \<open>off\<close>, and faults when either write leaves its allocation.
\<close>

type_synonym gomem = "(nat \<times> nat) list \<times> string"

definition memcpy :: "nat \<Rightarrow> string \<Rightarrow> string \<Rightarrow> string option" where
  "memcpy off data buf =
     (if off + length data \<le> length buf
      then Some (take off buf @ data @ drop (off + length data) buf) else None)"

definition put_string ::
    "string \<Rightarrow> nat \<times> nat \<times> gomem \<Rightarrow> (nat \<times> nat \<times> gomem) option" where
  "put_string s x = (case x of (i, off, strs, buf) \<Rightarrow>
     if i < length strs then
       (case memcpy off s buf of
          None \<Rightarrow> None
        | Some buf' \<Rightarrow> Some (Suc i, off + length s, strs[i := (off, length s)], buf'))
     else None)"

fun copy_entries ::
    "(string \<times> string) list \<Rightarrow> nat \<times> nat \<times> gomem \<Rightarrow> (nat \<times> nat \<times> gomem) option" where
  "copy_entries [] x = Some x"
| "copy_entries ((key, value) # es) x =
     Option.bind (put_string key x) (\<lambda>y. Option.bind (put_string value y) (copy_entries es))"

definition copyHeaderMapToGo :: "('h, 'b) envoy \<Rightarrow> 'h \<Rightarrow> gomem \<Rightarrow> gomem outcome" where
  "copyHeaderMapToGo E m mem =
     (case copy_entries (hm_iterate E m) (0, 0, mem) of
        None \<Rightarrow> Fault OutOfBounds
      | Some (_, _, mem') \<Rightarrow> Ok mem')"

definition copyHeaders ::
    "('h, 'b) envoy \<Rightarrow> gomem \<Rightarrow> nat \<Rightarrow> 'b Filter \<Rightarrow> (('h, 'b) cstate, int \<times> gomem) go" where
  "copyHeaders E mem = inGoGuard (\<lambda>st. (st, mem)) (\<lambda>i F.
     case headers_ptr F of
       None \<Rightarrow> go_return (CAPIInvalidPhase, mem)
     | Some m \<Rightarrow> go_bind (go_gets (\<lambda>c. hm_heap c m)) (\<lambda>h.
         go_bind (go_lift (copyHeaderMapToGo E h mem)) (\<lambda>mem'. go_return (CAPIOK, mem'))))"

definition moeHttpCopyHeaders ::
    "('h, 'b) envoy \<Rightarrow> nat \<Rightarrow> gomem \<Rightarrow> (('h, 'b) cstate, int \<times> gomem) go" where
  "moeHttpCopyHeaders E r mem = moeHandlerWrapper (\<lambda>st. (st, mem)) r (copyHeaders E mem)"

definition upd_hm :: "nat \<Rightarrow> ('h \<Rightarrow> 'h) \<Rightarrow> ('h, 'b) cstate \<Rightarrow> ('h, 'b) cstate" where
  "upd_hm m f c = c\<lparr>hm_heap := (hm_heap c)(m := f (hm_heap c m))\<rparr>"

definition setHeader ::
    "('h, 'b) envoy \<Rightarrow> string \<Rightarrow> string \<Rightarrow> headerAction \<Rightarrow> nat \<Rightarrow> 'b Filter \<Rightarrow>
     (('h, 'b) cstate, int) go" where
  "setHeader E key value act = inGoGuard id (\<lambda>i F.
     case headers_ptr F of
       None \<Rightarrow> go_return CAPIInvalidPhase
     | Some m \<Rightarrow> go_then
         (go_modify (upd_hm m (\<lambda>h. case act of
            HeaderAdd \<Rightarrow> hm_addCopy E h (env_lower E key) value
          | HeaderSet \<Rightarrow> hm_setCopy E h (env_lower E key) value)))
         (go_return CAPIOK))"

definition moeHttpSetHeaderHelper ::
    "('h, 'b) envoy \<Rightarrow> nat \<Rightarrow> string \<Rightarrow> string \<Rightarrow> headerAction \<Rightarrow> (('h, 'b) cstate, int) go" where
  "moeHttpSetHeaderHelper E r key value act = moeHandlerWrapper id r (setHeader E key value act)"

definition removeHeader ::
    "('h, 'b) envoy \<Rightarrow> string \<Rightarrow> nat \<Rightarrow> 'b Filter \<Rightarrow> (('h, 'b) cstate, int) go" where
  "removeHeader E key = inGoGuard id (\<lambda>i F.
     case headers_ptr F of
       None \<Rightarrow> go_return CAPIInvalidPhase
     | Some m \<Rightarrow> go_then (go_modify (upd_hm m (\<lambda>h. hm_remove E h (env_lower E key))))
         (go_return CAPIOK))"

definition moeHttpRemoveHeader ::
    "('h, 'b) envoy \<Rightarrow> nat \<Rightarrow> string \<Rightarrow> (('h, 'b) cstate, int) go" where
  "moeHttpRemoveHeader E r key = moeHandlerWrapper id r (removeHeader E key)"

subsection \<open>Buffers\<close>

definition find_buffer :: "u64 \<Rightarrow> (u64 \<times> 'b) list \<Rightarrow> 'b option" where
  "find_buffer data q = map_of q data"

definition upd_buffer :: "u64 \<Rightarrow> ('b \<Rightarrow> 'b) \<Rightarrow> (u64 \<times> 'b) list \<Rightarrow> (u64 \<times> 'b) list" where
  "upd_buffer data f q = map (\<lambda>(a, b). (a, if a = data then f b else b)) q"

definition put_queue :: "'b BufferList \<Rightarrow> 'b Filter \<Rightarrow> 'b Filter" where
  "put_queue q F = setProcessorState ((getProcessorState F)\<lparr>doDataList := q\<rparr>) F"

text \<open>
  \<open>copyBuffer\<close> copies every slice of the buffer into \<open>data\<close>, whatever room the caller made.
\<close>

definition copyBuffer ::
    "('h, 'b) envoy \<Rightarrow> u64 \<Rightarrow> string \<Rightarrow> nat \<Rightarrow> 'b Filter \<Rightarrow> (('h, 'b) cstate, int \<times> string) go" where
  "copyBuffer E buffer data = inGoGuard (\<lambda>st. (st, data)) (\<lambda>i F.
     let (found, q) = checkExisting buffer (doDataList (getProcessorState F)) in
     go_then (go_modify (put_filter i (put_queue q F)))
       (case (if found then find_buffer buffer (queue q) else None) of
          None \<Rightarrow> go_return (CAPIInvalidPhase, data)
        | Some b \<Rightarrow> (case memcpy 0 (bi_bytes E b) data of
             None \<Rightarrow> go_fault OutOfBounds
           | Some data' \<Rightarrow> go_return (CAPIOK, data'))))"

definition moeHttpGetBuffer ::
    "('h, 'b) envoy \<Rightarrow> nat \<Rightarrow> u64 \<Rightarrow> string \<Rightarrow> (('h, 'b) cstate, int \<times> string) go" where
  "moeHttpGetBuffer E r bufferPtr data =
     moeHandlerWrapper (\<lambda>st. (st, data)) r (copyBuffer E bufferPtr data)"

definition apply_action ::
    "('h, 'b) envoy \<Rightarrow> bufferAction \<Rightarrow> string \<Rightarrow> 'b \<Rightarrow> 'b" where
  "apply_action E action value b =
     (if action = ActSet then bi_add E (bi_drain E b (bi_length E b)) value
      else if action = ActPrepend then bi_prepend E b value
      else bi_add E b value)"

text \<open>
  A view \<^verbatim>\<open>string_view(data, length)\<close> is the bytes it gives when it is read, or \<open>None\<close> when the C
  \<^verbatim>\<open>int\<close> is not a length of the string, so that reading it leaves the string. Making a view reads
  nothing; the buffer is changed by reading it, after the checks.
\<close>

definition string_view :: "string \<Rightarrow> int \<Rightarrow> string option" where
  "string_view data len =
     (if 0 \<le> len \<and> nat len \<le> length data then Some (take (nat len) data) else None)"

definition setBufferHelper ::
    "('h, 'b) envoy \<Rightarrow> u64 \<Rightarrow> string option \<Rightarrow> bufferAction \<Rightarrow> nat \<Rightarrow> 'b Filter \<Rightarrow>
     (('h, 'b) cstate, int) go" where
  "setBufferHelper E buffer view action = inGoGuard id (\<lambda>i F.
     let (found, q) = checkExisting buffer (doDataList (getProcessorState F)) in
     if found then (case view of
         None \<Rightarrow> go_fault OutOfBounds
       | Some value \<Rightarrow> go_then
           (go_modify (put_filter i (put_queue
              (q\<lparr>queue := upd_buffer buffer (apply_action E action value) (queue q)\<rparr>) F)))
           (go_return CAPIOK))
     else go_then (go_modify (put_filter i (put_queue q F))) (go_return CAPIInvalidPhase))"

definition moeHttpSetBufferHelper ::
    "('h, 'b) envoy \<Rightarrow> nat \<Rightarrow> u64 \<Rightarrow> string \<Rightarrow> int \<Rightarrow> bufferAction \<Rightarrow> (('h, 'b) cstate, int) go" where
  "moeHttpSetBufferHelper E r bufferPtr data len action =
     moeHandlerWrapper id r (setBufferHelper E bufferPtr (string_view data len) action)"

subsection \<open>Trailers\<close>

definition copyTrailers ::
    "('h, 'b) envoy \<Rightarrow> gomem \<Rightarrow> nat \<Rightarrow> 'b Filter \<Rightarrow> (('h, 'b) cstate, int \<times> gomem) go" where
  "copyTrailers E mem = inGoGuard (\<lambda>st. (st, mem)) (\<lambda>i F.
     case trailers_ptr F of
       None \<Rightarrow> go_return (CAPIInvalidPhase, mem)
     | Some m \<Rightarrow> go_bind (go_gets (\<lambda>c. hm_heap c m)) (\<lambda>h.
         go_bind (go_lift (copyHeaderMapToGo E h mem)) (\<lambda>mem'. go_return (CAPIOK, mem'))))"

definition moeHttpCopyTrailers ::
    "('h, 'b) envoy \<Rightarrow> nat \<Rightarrow> gomem \<Rightarrow> (('h, 'b) cstate, int \<times> gomem) go" where
  "moeHttpCopyTrailers E r mem = moeHandlerWrapper (\<lambda>st. (st, mem)) r (copyTrailers E mem)"

definition setTrailer ::
    "('h, 'b) envoy \<Rightarrow> string \<Rightarrow> string \<Rightarrow> nat \<Rightarrow> 'b Filter \<Rightarrow> (('h, 'b) cstate, int) go" where
  "setTrailer E key value = inGoGuard id (\<lambda>i F.
     case trailers_ptr F of
       None \<Rightarrow> go_return CAPIInvalidPhase
     | Some m \<Rightarrow> go_then (go_modify (upd_hm m (\<lambda>h. hm_setCopy E h (env_lower E key) value)))
         (go_return CAPIOK))"

definition moeHttpSetTrailer ::
    "('h, 'b) envoy \<Rightarrow> nat \<Rightarrow> string \<Rightarrow> string \<Rightarrow> (('h, 'b) cstate, int) go" where
  "moeHttpSetTrailer E r key value = moeHandlerWrapper id r (setTrailer E key value)"

subsection \<open>Route name\<close>

text \<open>
  The string is anchored in the request struct, \<open>strValue\<close>, and Go gets a view of it: the
  result is the status and the value Go reads there.
\<close>

definition ValueRouteName :: int where [simp]: "ValueRouteName = 1"

definition getStringValue ::
    "('h, 'b) envoy \<Rightarrow> int \<Rightarrow> nat \<Rightarrow> 'b Filter \<Rightarrow> (('h, 'b) cstate, int \<times> string option) go" where
  "getStringValue E id' = inGoGuard (\<lambda>st. (st, None)) (\<lambda>i F.
     if id' = ValueRouteName then
       (\<lambda>c. case Option.bind (filter_req F) (creqs c) of
          None \<Rightarrow> (Fault UseAfterFree, c)
        | Some q \<Rightarrow> (Ok (CAPIOK, Some (routeName E i)),
            put_creq (the (filter_req F)) (q\<lparr>strValue := routeName E i\<rparr>) c))
     else go_fault AssertFailed)"

definition moeHttpGetStringValue ::
    "('h, 'b) envoy \<Rightarrow> nat \<Rightarrow> int \<Rightarrow> (('h, 'b) cstate, int \<times> string option) go" where
  "moeHttpGetStringValue E r id' =
     moeHandlerWrapper (\<lambda>st. (st, None)) r (getStringValue E id')"

subsection \<open>Dynamic metadata\<close>

text \<open>
  The metadata of a stream is a serialized struct for each filter name. \<open>worker\<close> says whether the
  caller is on Envoy's worker thread (\<^verbatim>\<open>isThreadSafe\<close>); otherwise a closure is posted. A read
  leaves its bytes in \<open>strValue\<close> of the C struct and points the Go slice there, which is recorded
  by the slice's flag in \<open>go_slots\<close>. The closure of a write holds a view of Go memory; the event
  has the bytes the view had when it was posted.
\<close>

definition upd_creq ::
    "'b Filter \<Rightarrow> (httpRequestInternal \<Rightarrow> httpRequestInternal) \<Rightarrow> (('h, 'b) cstate, unit) go" where
  "upd_creq F f = (\<lambda>c. case Option.bind (filter_req F) (creqs c) of
      None \<Rightarrow> (Fault UseAfterFree, c)
    | Some q \<Rightarrow> (Ok (), put_creq (the (filter_req F)) (f q) c))"

definition give_metadata :: "string \<Rightarrow> nat \<Rightarrow> nat \<Rightarrow> 'b Filter \<Rightarrow> (('h, 'b) cstate, unit) go" where
  "give_metadata name slot i F = go_bind (go_gets (\<lambda>c. dyn_meta c i name)) (\<lambda>x. case x of
      None \<Rightarrow> go_return ()
    | Some bytes \<Rightarrow> go_then (upd_creq F (strValue_update (\<lambda>_. bytes)))
        (go_modify (\<lambda>c. c\<lparr>go_slots := (go_slots c)(slot := True)\<rparr>)))"

definition getDynamicMetadata ::
    "bool \<Rightarrow> string \<Rightarrow> nat \<Rightarrow> nat \<Rightarrow> 'b Filter \<Rightarrow> (('h, 'b) cstate, int) go" where
  "getDynamicMetadata worker name slot = inGoGuard id (\<lambda>i F.
     if \<not> worker then
       go_then (upd_creq F (waitSema_update (\<lambda>_. 1)))
      (go_then (go_modify (post i (PostGetMetadata name slot)))
         (go_return CAPIYield))
     else go_then (give_metadata name slot i F) (go_return CAPIOK))"

definition moeHttpGetDynamicMetadata ::
    "bool \<Rightarrow> nat \<Rightarrow> string \<Rightarrow> nat \<Rightarrow> (('h, 'b) cstate, int) go" where
  "moeHttpGetDynamicMetadata worker r name slot =
     moeHandlerWrapper id r (getDynamicMetadata worker name slot)"

definition setDynamicMetadataInternal ::
    "('h, 'b) envoy \<Rightarrow> nat \<Rightarrow> string \<Rightarrow> string \<Rightarrow> string \<Rightarrow> ('h, 'b) cstate \<Rightarrow> ('h, 'b) cstate" where
  "setDynamicMetadataInternal E i name key value c =
     c\<lparr>dyn_meta := (dyn_meta c)(i := (dyn_meta c i)(name \<mapsto>
         meta_set E (dyn_meta c i name) key value))\<rparr>"

definition setDynamicMetadata ::
    "('h, 'b) envoy \<Rightarrow> bool \<Rightarrow> string \<Rightarrow> string \<Rightarrow> string \<Rightarrow> nat \<Rightarrow> 'b Filter \<Rightarrow>
     (('h, 'b) cstate, int) go" where
  "setDynamicMetadata E worker name key value = inGoGuard id (\<lambda>i F.
     if \<not> worker then
       go_then (go_modify (post i (PostSetMetadata name key value))) (go_return CAPIOK)
     else
       go_then (go_modify (setDynamicMetadataInternal E i name key value)) (go_return CAPIOK))"

definition moeHttpSetDynamicMetadata ::
    "('h, 'b) envoy \<Rightarrow> bool \<Rightarrow> nat \<Rightarrow> string \<Rightarrow> string \<Rightarrow> string \<Rightarrow>
     (('h, 'b) cstate, int) go" where
  "moeHttpSetDynamicMetadata E worker r name key value =
     moeHandlerWrapper id r (setDynamicMetadata E worker name key value)"

subsection \<open>Finalization\<close>

text \<open>\<^verbatim>\<open>delete req\<close>: deleting a struct twice is the fault \<open>DoubleFree\<close>.\<close>

definition moeHttpFinalize :: "nat \<Rightarrow> int \<Rightarrow> (('h, 'b) cstate, unit) go" where
  "moeHttpFinalize r reason = (\<lambda>c. case creqs c r of
      None \<Rightarrow> (Fault DoubleFree, c)
    | Some _ \<Rightarrow> (Ok (), c\<lparr>creqs := (creqs c)(r := None)\<rparr>))"

end
