(* ===== verification/Go_World.thy ===== *)
theory Go_World
  imports Filter_Capi
begin

text \<open>
  The state of the Go side of \<^verbatim>\<open>pkg/http\<close>, with the C++ side as one component. Go objects that are
  shared by pointer live in a heap, one map per struct type; a nil pointer, and any pointer the
  heap does not hold, is dereferenced with the runtime's nil panic. The type parameters are
  Envoy's header maps \<open>'h\<close> and buffers \<open>'b\<close>, the parsed plugin configurations \<open>'cfg\<close> and
  the state \<open>'u\<close> of the user's filters.
\<close>

subsection \<open>Structs\<close>

text \<open>
  \<^verbatim>\<open>type httpRequest struct\<close> (filter.go). \<open>sema\<close> is the counter of the \<^verbatim>\<open>sync.WaitGroup\<close>;
  \<open>finalizer\<close> records whether \<^verbatim>\<open>runtime.SetFinalizer\<close> is armed on the object. \<open>httpFilter\<close> is
  an interface value: nil, or a handle whose methods the plugin gives.
\<close>

record httpRequest =
  req :: nat
  httpFilter :: "nat option"
  paniced :: bool
  safePanic :: bool
  sema :: int
  finalizer :: bool

definition httpRequest_new :: "nat \<Rightarrow> httpRequest" where
  "httpRequest_new r =
     \<lparr>req = r, httpFilter = None, paniced = False, safePanic = False, sema = 0, finalizer = False\<rparr>"

text \<open>\<^verbatim>\<open>map[string][]string\<close>, and the two header structs of type.go, which have the same fields.\<close>

type_synonym gomap = "string \<Rightarrow> string list option"

record headerMapImpl =
  request :: nat
  headers :: "gomap option"   \<comment> \<open>\<open>None\<close> is the nil map\<close>
  headerNum :: u64
  headerBytes :: u64

type_synonym headerTrailerMapImpl = headerMapImpl

record httpBuffer =
  buf_request :: nat
  envoyBufferInstance :: u64
  buf_length :: u64
  buf_value :: string

record ('h, 'b, 'cfg, 'u) world =
  httpRequests :: "nat \<Rightarrow> httpRequest option"
  Requests :: "nat \<Rightarrow> nat option"
  headerMaps :: "nat \<Rightarrow> headerMapImpl option"
  trailerMaps :: "nat \<Rightarrow> headerTrailerMapImpl option"
  httpBuffers :: "nat \<Rightarrow> httpBuffer option"
  next_ptr :: nat
  configNumGenerator :: u64
  configCache :: "u64 \<Rightarrow> 'cfg option"
  cside :: "('h, 'b) cstate"
  ustate :: 'u

subsection \<open>Access\<close>

definition on_c :: "(('h, 'b) cstate, 'a) go \<Rightarrow> (('h, 'b, 'cfg, 'u) world, 'a) go" where
  "on_c m = (\<lambda>w. case m (cside w) of (r, c) \<Rightarrow> (r, w\<lparr>cside := c\<rparr>))"

definition deref :: "('w \<Rightarrow> nat \<Rightarrow> 'a option) \<Rightarrow> nat \<Rightarrow> ('w, 'a) go" where
  "deref sel p = (\<lambda>w. case sel w p of None \<Rightarrow> (Panic nil_deref, w) | Some a \<Rightarrow> (Ok a, w))"

definition upd_request ::
    "nat \<Rightarrow> (httpRequest \<Rightarrow> httpRequest) \<Rightarrow> ('h, 'b, 'cfg, 'u) world \<Rightarrow> ('h, 'b, 'cfg, 'u) world" where
  "upd_request r f w = w\<lparr>httpRequests := (httpRequests w)(r := map_option f (httpRequests w r))\<rparr>"

definition upd_headerMap ::
    "nat \<Rightarrow> (headerMapImpl \<Rightarrow> headerMapImpl) \<Rightarrow> ('h, 'b, 'cfg, 'u) world \<Rightarrow>
     ('h, 'b, 'cfg, 'u) world" where
  "upd_headerMap h f w = w\<lparr>headerMaps := (headerMaps w)(h := map_option f (headerMaps w h))\<rparr>"

definition upd_trailerMap ::
    "nat \<Rightarrow> (headerTrailerMapImpl \<Rightarrow> headerTrailerMapImpl) \<Rightarrow> ('h, 'b, 'cfg, 'u) world \<Rightarrow>
     ('h, 'b, 'cfg, 'u) world" where
  "upd_trailerMap h f w = w\<lparr>trailerMaps := (trailerMaps w)(h := map_option f (trailerMaps w h))\<rparr>"

definition upd_httpBuffer ::
    "nat \<Rightarrow> (httpBuffer \<Rightarrow> httpBuffer) \<Rightarrow> ('h, 'b, 'cfg, 'u) world \<Rightarrow> ('h, 'b, 'cfg, 'u) world" where
  "upd_httpBuffer b f w = w\<lparr>httpBuffers := (httpBuffers w)(b := map_option f (httpBuffers w b))\<rparr>"

text \<open>\<^verbatim>\<open>&T{...}\<close>: a fresh pointer.\<close>

definition new_request :: "httpRequest \<Rightarrow> (('h, 'b, 'cfg, 'u) world, nat) go" where
  "new_request q = (\<lambda>w. (Ok (next_ptr w),
     w\<lparr>httpRequests := (httpRequests w)(next_ptr w \<mapsto> q), next_ptr := Suc (next_ptr w)\<rparr>))"

definition new_headerMap :: "headerMapImpl \<Rightarrow> (('h, 'b, 'cfg, 'u) world, nat) go" where
  "new_headerMap h = (\<lambda>w. (Ok (next_ptr w),
     w\<lparr>headerMaps := (headerMaps w)(next_ptr w \<mapsto> h), next_ptr := Suc (next_ptr w)\<rparr>))"

definition new_trailerMap :: "headerTrailerMapImpl \<Rightarrow> (('h, 'b, 'cfg, 'u) world, nat) go" where
  "new_trailerMap h = (\<lambda>w. (Ok (next_ptr w),
     w\<lparr>trailerMaps := (trailerMaps w)(next_ptr w \<mapsto> h), next_ptr := Suc (next_ptr w)\<rparr>))"

definition new_httpBuffer :: "httpBuffer \<Rightarrow> (('h, 'b, 'cfg, 'u) world, nat) go" where
  "new_httpBuffer b = (\<lambda>w. (Ok (next_ptr w),
     w\<lparr>httpBuffers := (httpBuffers w)(next_ptr w \<mapsto> b), next_ptr := Suc (next_ptr w)\<rparr>))"

subsection \<open>Lemmas\<close>

lemma on_c_apply [go_simps]:
  "on_c m w = (case m (cside w) of (r, c) \<Rightarrow> (r, w\<lparr>cside := c\<rparr>))"
  by (simp add: on_c_def)

lemma deref_apply [go_simps]:
  "deref sel p w = (case sel w p of None \<Rightarrow> (Panic nil_deref, w) | Some a \<Rightarrow> (Ok a, w))"
  by (simp add: deref_def)

declare go_simps [simp]

lemma keeps_deref [go_inv]: "keeps I (deref sel p)"
  by (simp add: keeps_def deref_def split: option.split)

text \<open>A C call keeps whatever does not depend on the C++ side beyond what the call keeps.\<close>

lemma keeps_on_c:
  assumes "\<And>w r c. I w \<Longrightarrow> m (cside w) = (r, c) \<Longrightarrow> I (w\<lparr>cside := c\<rparr>)"
  shows "keeps I (on_c m)"
  using assms by (auto simp: keeps_def on_c_def split: prod.split)

lemma upd_request_same: "httpRequests (upd_request r f w) r = map_option f (httpRequests w r)"
  by (simp add: upd_request_def)

lemma upd_request_other: "r' \<noteq> r \<Longrightarrow> httpRequests (upd_request r f w) r' = httpRequests w r'"
  by (simp add: upd_request_def)

lemma upd_request_frame:
  shows "cside (upd_request r f w) = cside w"
    and "Requests (upd_request r f w) = Requests w"
    and "headerMaps (upd_request r f w) = headerMaps w"
    and "trailerMaps (upd_request r f w) = trailerMaps w"
    and "httpBuffers (upd_request r f w) = httpBuffers w"
    and "next_ptr (upd_request r f w) = next_ptr w"
    and "configCache (upd_request r f w) = configCache w"
    and "configNumGenerator (upd_request r f w) = configNumGenerator w"
    and "ustate (upd_request r f w) = ustate w"
  by (simp_all add: upd_request_def)

lemmas upd_request_simps [simp] = upd_request_same upd_request_other upd_request_frame

lemma upd_headerMap_same: "headerMaps (upd_headerMap h f w) h = map_option f (headerMaps w h)"
  by (simp add: upd_headerMap_def)

lemma upd_headerMap_frame:
  shows "cside (upd_headerMap h f w) = cside w"
    and "httpRequests (upd_headerMap h f w) = httpRequests w"
    and "h' \<noteq> h \<Longrightarrow> headerMaps (upd_headerMap h f w) h' = headerMaps w h'"
    and "next_ptr (upd_headerMap h f w) = next_ptr w"
    and "Requests (upd_headerMap h f w) = Requests w"
  by (simp_all add: upd_headerMap_def)

lemmas upd_headerMap_simps [simp] = upd_headerMap_same upd_headerMap_frame

lemma upd_httpBuffer_same: "httpBuffers (upd_httpBuffer b f w) b = map_option f (httpBuffers w b)"
  by (simp add: upd_httpBuffer_def)

lemma upd_httpBuffer_frame:
  shows "cside (upd_httpBuffer b f w) = cside w"
    and "httpRequests (upd_httpBuffer b f w) = httpRequests w"
  by (simp_all add: upd_httpBuffer_def)

lemmas upd_httpBuffer_simps [simp] = upd_httpBuffer_same upd_httpBuffer_frame

lemma upd_trailerMap_same: "trailerMaps (upd_trailerMap h f w) h = map_option f (trailerMaps w h)"
  by (simp add: upd_trailerMap_def)

lemma upd_trailerMap_frame:
  shows "cside (upd_trailerMap h f w) = cside w"
    and "httpRequests (upd_trailerMap h f w) = httpRequests w"
  by (simp_all add: upd_trailerMap_def)

lemmas upd_trailerMap_simps [simp] = upd_trailerMap_same upd_trailerMap_frame

end
