(* ===== verification/Http_Capi.thy ===== *)
theory Http_Capi
  imports Go_World
begin

text \<open>
  \<^verbatim>\<open>pkg/http/capi.go\<close>: the Go interface \<open>HttpCAPI\<close>, a record of methods because the rest of the
  package calls it through the variable \<^verbatim>\<open>cAPI\<close>, and its implementation \<open>httpCApiImpl\<close>, each
  method of which makes one call into C and turns the status it gets into a return or a panic.
\<close>

subsection \<open>The interface\<close>

text \<open>
  A \<^verbatim>\<open>*string\<close> out-parameter is a function that stores into the variable it points to; the
  \<^verbatim>\<open>value *string\<close> of \<open>HttpGetHeader\<close> points to a local variable of the caller, whose old value
  is passed and whose new value is returned. The Go map given to \<open>HttpSendLocalReply\<close> is its
  entries in the order \<^verbatim>\<open>range\<close> meets them.
\<close>

record 'w HttpCAPI =
  HttpContinue :: "nat \<Rightarrow> u64 \<Rightarrow> ('w, unit) go"
  HttpSendLocalReply ::
    "nat \<Rightarrow> int \<Rightarrow> string \<Rightarrow> (string \<times> string) list \<Rightarrow> int \<Rightarrow> string \<Rightarrow> ('w, unit) go"
  HttpGetHeader :: "nat \<Rightarrow> string \<Rightarrow> string \<Rightarrow> ('w, string) go"
  HttpCopyHeaders :: "nat \<Rightarrow> u64 \<Rightarrow> u64 \<Rightarrow> ('w, gomap) go"
  HttpSetHeader :: "nat \<Rightarrow> string \<Rightarrow> string \<Rightarrow> bool \<Rightarrow> ('w, unit) go"
  HttpRemoveHeader :: "nat \<Rightarrow> string \<Rightarrow> ('w, unit) go"
  HttpGetBuffer :: "nat \<Rightarrow> u64 \<Rightarrow> (string \<Rightarrow> 'w \<Rightarrow> 'w) \<Rightarrow> u64 \<Rightarrow> ('w, unit) go"
  HttpSetBufferHelper :: "nat \<Rightarrow> u64 \<Rightarrow> string \<Rightarrow> BufferAction \<Rightarrow> ('w, unit) go"
  HttpCopyTrailers :: "nat \<Rightarrow> u64 \<Rightarrow> u64 \<Rightarrow> ('w, gomap) go"
  HttpSetTrailer :: "nat \<Rightarrow> string \<Rightarrow> string \<Rightarrow> ('w, unit) go"
  HttpGetRouteName :: "nat \<Rightarrow> ('w, string) go"
  HttpFinalize :: "nat \<Rightarrow> int \<Rightarrow> ('w, unit) go"

subsection \<open>Status codes as panics\<close>

definition ErrRequestFinished :: string where
  "ErrRequestFinished = ''request has been finished''"

definition ErrFilterDestroyed :: string where
  "ErrFilterDestroyed = ''golang filter has been destroyed''"

definition ErrNotInGo :: string where
  "ErrNotInGo = ''not proccessing Go''"

definition ErrInvalidPhase :: string where
  "ErrInvalidPhase = ''invalid phase, maybe headers/buffer already continued''"

text \<open>A status outside the switch, such as \<open>CAPIYield\<close>, falls through it.\<close>

definition handleCApiStatus :: "int \<Rightarrow> ('w, unit) go" where
  "handleCApiStatus status =
     (if status = CAPIOK then go_return ()
      else if status = CAPIFilterIsGone then go_panic (PanicString ErrRequestFinished)
      else if status = CAPIFilterIsDestroy then go_panic (PanicString ErrFilterDestroyed)
      else if status = CAPINotInGo then go_panic (PanicString ErrNotInGo)
      else if status = CAPIInvalidPhase then go_panic (PanicString ErrInvalidPhase)
      else go_return ())"

subsection \<open>The implementation\<close>

text \<open>\<^verbatim>\<open>unsafe.Pointer(r.req)\<close>, then the call.\<close>

definition c_call ::
    "nat \<Rightarrow> (nat \<Rightarrow> (('h, 'b) cstate, 'a) go) \<Rightarrow> (('h, 'b, 'cfg, 'u) world, 'a) go" where
  "c_call r f = go_bind (deref httpRequests r) (\<lambda>q. on_c (f (req q)))"

definition impl_HttpContinue :: "nat \<Rightarrow> u64 \<Rightarrow> (('h, 'b, 'cfg, 'u) world, unit) go" where
  "impl_HttpContinue r status =
     go_bind (c_call r (\<lambda>p. moeHttpContinue p (c_int status))) handleCApiStatus"

definition impl_HttpSendLocalReply ::
    "nat \<Rightarrow> int \<Rightarrow> string \<Rightarrow> (string \<times> string) list \<Rightarrow> int \<Rightarrow> string \<Rightarrow>
     (('h, 'b, 'cfg, 'u) world, unit) go" where
  "impl_HttpSendLocalReply r response_code body_text hdrs grpc_status details =
     (let strs = concat (map (\<lambda>(k, v). [k, v]) hdrs) in
      go_bind (c_call r (\<lambda>p. moeHttpSendLocalReply p (c_int_of_int response_code) body_text strs
          grpc_status details))
        handleCApiStatus)"

definition impl_HttpGetHeader ::
    "('h, 'b) envoy \<Rightarrow> nat \<Rightarrow> string \<Rightarrow> string \<Rightarrow> (('h, 'b, 'cfg, 'u) world, string) go" where
  "impl_HttpGetHeader E r key value =
     go_bind (c_call r (\<lambda>p. moeHttpGetHeader E p key)) (\<lambda>(res, out).
       go_then (handleCApiStatus res)
         (go_return (case out of None \<Rightarrow> value | Some v \<Rightarrow> v)))"

text \<open>
  A string header \<open>(p, n)\<close> reads \<open>n\<close> bytes of the buffer from \<open>p\<close>; the zero header is the empty
  string.
\<close>

definition go_string :: "string \<Rightarrow> nat \<times> nat \<Rightarrow> string" where
  "go_string buf s = take (snd s) (drop (fst s) buf)"

text \<open>
  The loop \<^verbatim>\<open>for i := 0; i < num*2; i += 2\<close>, with the bounds checks of \<^verbatim>\<open>strs[i]\<close> and
  \<^verbatim>\<open>strs[i+1]\<close>.
\<close>

definition map_append :: "gomap \<Rightarrow> string \<Rightarrow> string \<Rightarrow> gomap" where
  "map_append m key value =
     (case m key of None \<Rightarrow> m(key \<mapsto> [value]) | Some v \<Rightarrow> m(key \<mapsto> v @ [value]))"

function strs_to_map :: "string list \<Rightarrow> nat \<Rightarrow> nat \<Rightarrow> gomap \<Rightarrow> gomap outcome" where
  "strs_to_map strs n i m =
     (if i < n then
        (if i < length strs \<and> Suc i < length strs then
           strs_to_map strs n (i + 2) (map_append m (strs ! i) (strs ! Suc i))
         else Panic index_out_of_range)
      else Ok m)"
  by pat_completeness auto
termination
  by (relation "measure (\<lambda>(strs, n, i, m). n - i)") auto

declare strs_to_map.simps [simp del]

definition copy_to_map ::
    "(nat \<Rightarrow> gomem \<Rightarrow> (('h, 'b) cstate, int \<times> gomem) go) \<Rightarrow> nat \<Rightarrow> u64 \<Rightarrow> u64 \<Rightarrow>
     (('h, 'b, 'cfg, 'u) world, gomap) go" where
  "copy_to_map call r num bytes =
     go_bind (go_make 16 (0, 0) (num * 2)) (\<lambda>strs.
     go_bind (go_make 1 (CHR 0x00) bytes) (\<lambda>buf.
     go_bind (c_call r (\<lambda>p. call p (strs, buf))) (\<lambda>(res, (strs, buf)).
     go_then (handleCApiStatus res)
       (go_lift (strs_to_map (map (go_string buf) strs) (unat (num * 2)) 0 Map.empty)))))"

definition impl_HttpCopyHeaders ::
    "('h, 'b) envoy \<Rightarrow> nat \<Rightarrow> u64 \<Rightarrow> u64 \<Rightarrow> (('h, 'b, 'cfg, 'u) world, gomap) go" where
  "impl_HttpCopyHeaders E r num bytes = copy_to_map (moeHttpCopyHeaders E) r num bytes"

definition impl_HttpSetHeader ::
    "('h, 'b) envoy \<Rightarrow> nat \<Rightarrow> string \<Rightarrow> string \<Rightarrow> bool \<Rightarrow> (('h, 'b, 'cfg, 'u) world, unit) go" where
  "impl_HttpSetHeader E r key value add =
     (let act = (if add then HeaderAdd else HeaderSet) in
      go_bind (c_call r (\<lambda>p. moeHttpSetHeaderHelper E p key value act)) handleCApiStatus)"

definition impl_HttpRemoveHeader ::
    "('h, 'b) envoy \<Rightarrow> nat \<Rightarrow> string \<Rightarrow> (('h, 'b, 'cfg, 'u) world, unit) go" where
  "impl_HttpRemoveHeader E r key =
     go_bind (c_call r (\<lambda>p. moeHttpRemoveHeader E p key)) handleCApiStatus"

text \<open>
  The string \<^verbatim>\<open>*value\<close> is made to point at the fresh buffer before the call, so it is a string of
  zero bytes if the call fails, and the bytes the call copied otherwise.
\<close>

definition impl_HttpGetBuffer ::
    "('h, 'b) envoy \<Rightarrow> nat \<Rightarrow> u64 \<Rightarrow>
     (string \<Rightarrow> ('h, 'b, 'cfg, 'u) world \<Rightarrow> ('h, 'b, 'cfg, 'u) world) \<Rightarrow> u64 \<Rightarrow>
     (('h, 'b, 'cfg, 'u) world, unit) go" where
  "impl_HttpGetBuffer E r bufferPtr set_value len =
     go_bind (go_make 1 (CHR 0x00) len) (\<lambda>buf.
     go_then (go_modify (set_value buf))
       (go_bind (c_call r (\<lambda>p. moeHttpGetBuffer E p bufferPtr buf)) (\<lambda>(res, buf').
        go_then (go_modify (set_value buf')) (handleCApiStatus res))))"

fun c_action :: "BufferAction \<Rightarrow> bufferAction" where
  "c_action SetBuffer = ActSet"
| "c_action AppendBuffer = ActAppend"
| "c_action PrependBuffer = ActPrepend"

definition impl_HttpSetBufferHelper ::
    "('h, 'b) envoy \<Rightarrow> nat \<Rightarrow> u64 \<Rightarrow> string \<Rightarrow> BufferAction \<Rightarrow>
     (('h, 'b, 'cfg, 'u) world, unit) go" where
  "impl_HttpSetBufferHelper E r bufferPtr value action =
     go_bind (c_call r (\<lambda>p. moeHttpSetBufferHelper E p bufferPtr value
         (c_int_of_int (int (length value))) (c_action action)))
       handleCApiStatus"

definition impl_HttpCopyTrailers ::
    "('h, 'b) envoy \<Rightarrow> nat \<Rightarrow> u64 \<Rightarrow> u64 \<Rightarrow> (('h, 'b, 'cfg, 'u) world, gomap) go" where
  "impl_HttpCopyTrailers E r num bytes = copy_to_map (moeHttpCopyTrailers E) r num bytes"

definition impl_HttpSetTrailer ::
    "('h, 'b) envoy \<Rightarrow> nat \<Rightarrow> string \<Rightarrow> string \<Rightarrow> (('h, 'b, 'cfg, 'u) world, unit) go" where
  "impl_HttpSetTrailer E r key value =
     go_bind (c_call r (\<lambda>p. moeHttpSetTrailer E p key value)) handleCApiStatus"

definition impl_HttpGetRouteName ::
    "('h, 'b) envoy \<Rightarrow> nat \<Rightarrow> (('h, 'b, 'cfg, 'u) world, string) go" where
  "impl_HttpGetRouteName E r =
     go_bind (c_call r (\<lambda>p. moeHttpGetStringValue E p ValueRouteName)) (\<lambda>(res, out).
       go_then (handleCApiStatus res)
         (go_return (case out of None \<Rightarrow> [] | Some v \<Rightarrow> v)))"

definition impl_HttpFinalize :: "nat \<Rightarrow> int \<Rightarrow> (('h, 'b, 'cfg, 'u) world, unit) go" where
  "impl_HttpFinalize r reason = c_call r (\<lambda>p. moeHttpFinalize p (c_int_of_int reason))"

definition httpCApiImpl :: "('h, 'b) envoy \<Rightarrow> ('h, 'b, 'cfg, 'u) world HttpCAPI" where
  "httpCApiImpl E = \<lparr>
     HttpContinue = impl_HttpContinue,
     HttpSendLocalReply = impl_HttpSendLocalReply,
     HttpGetHeader = impl_HttpGetHeader E,
     HttpCopyHeaders = impl_HttpCopyHeaders E,
     HttpSetHeader = impl_HttpSetHeader E,
     HttpRemoveHeader = impl_HttpRemoveHeader E,
     HttpGetBuffer = impl_HttpGetBuffer E,
     HttpSetBufferHelper = impl_HttpSetBufferHelper E,
     HttpCopyTrailers = impl_HttpCopyTrailers E,
     HttpSetTrailer = impl_HttpSetTrailer E,
     HttpGetRouteName = impl_HttpGetRouteName E,
     HttpFinalize = impl_HttpFinalize\<rparr>"

lemma httpCApiImpl_simps [simp]:
  "HttpContinue (httpCApiImpl E) = impl_HttpContinue"
  "HttpSendLocalReply (httpCApiImpl E) = impl_HttpSendLocalReply"
  "HttpGetHeader (httpCApiImpl E) = impl_HttpGetHeader E"
  "HttpCopyHeaders (httpCApiImpl E) = impl_HttpCopyHeaders E"
  "HttpSetHeader (httpCApiImpl E) = impl_HttpSetHeader E"
  "HttpRemoveHeader (httpCApiImpl E) = impl_HttpRemoveHeader E"
  "HttpGetBuffer (httpCApiImpl E) = impl_HttpGetBuffer E"
  "HttpSetBufferHelper (httpCApiImpl E) = impl_HttpSetBufferHelper E"
  "HttpCopyTrailers (httpCApiImpl E) = impl_HttpCopyTrailers E"
  "HttpSetTrailer (httpCApiImpl E) = impl_HttpSetTrailer E"
  "HttpGetRouteName (httpCApiImpl E) = impl_HttpGetRouteName E"
  "HttpFinalize (httpCApiImpl E) = impl_HttpFinalize"
  by (simp_all add: httpCApiImpl_def)

end
