(* ===== verification/Header_Copy.thy ===== *)
theory Header_Copy
  imports Http_Capi
begin

text \<open>
  What \<open>HttpCopyHeaders\<close> and \<open>HttpCopyTrailers\<close> give back to Go: the C side writes the entries
  of a header map into two allocations sized by Go from the numbers it was given when the phase
  began, and Go groups what it finds there by key. The lemmas characterise the copy completely:
  when it leaves its allocations, and, when it does not, which Go map results.
\<close>

subsection \<open>Views\<close>

definition flat_entries :: "(string \<times> string) list \<Rightarrow> string list" where
  "flat_entries es = concat (map (\<lambda>(k, v). [k, v]) es)"

definition go_map :: "(string \<times> string) list \<Rightarrow> gomap" where
  "go_map es = fold (\<lambda>(k, v) m. map_append m k v) es Map.empty"

fun copy_strings :: "string list \<Rightarrow> nat \<times> nat \<times> gomem \<Rightarrow> (nat \<times> nat \<times> gomem) option" where
  "copy_strings [] x = Some x"
| "copy_strings (s # ss) x = Option.bind (put_string s x) (copy_strings ss)"

text \<open>The outcome of a copy of \<open>es\<close> into \<open>n\<close> string slots and \<open>bytes\<close> bytes.\<close>

definition copy_result :: "(string \<times> string) list \<Rightarrow> nat \<Rightarrow> nat \<Rightarrow> gomap outcome" where
  "copy_result es n bytes =
     (if 2 * length es \<le> n \<and> entries_bytes es \<le> bytes
      then Ok (go_map (es @ replicate (n div 2 - length es) ([], [])))
      else Fault OutOfBounds)"

subsection \<open>The Go map of a list of entries\<close>

lemma flat_entries_simps [simp]:
  "flat_entries [] = []"
  "flat_entries ((k, v) # es) = k # v # flat_entries es"
  by (simp_all add: flat_entries_def)

lemma flat_entries_append: "flat_entries (es @ fs) = flat_entries es @ flat_entries fs"
  by (simp add: flat_entries_def)

lemma length_flat_entries [simp]: "length (flat_entries es) = 2 * length es"
  by (induction es) auto

lemma flat_entries_nth:
  "i < length es \<Longrightarrow> flat_entries es ! (2 * i) = fst (es ! i)"
  "i < length es \<Longrightarrow> flat_entries es ! Suc (2 * i) = snd (es ! i)"
proof (induction es arbitrary: i)
  case (Cons e es)
  { case 1 with Cons.IH show ?case by (cases i; cases e) auto }
  { case 2 with Cons.IH show ?case by (cases i; cases e) auto }
qed auto

lemma flat_entries_replicate: "flat_entries (replicate k ([], [])) = replicate (2 * k) []"
  by (induction k) auto

lemma sum_length_flat: "sum_list (map length (flat_entries es)) = entries_bytes es"
  by (induction es rule: entries_bytes.induct) auto

lemma map_append_apply:
  "map_append m a b k =
     (if k = a then Some ((case m a of None \<Rightarrow> [] | Some ws \<Rightarrow> ws) @ [b]) else m k)"
  by (simp add: map_append_def split: option.split)

lemma fold_map_append:
  "fold (\<lambda>(k, v) m. map_append m k v) es m k =
     (case vals k es of [] \<Rightarrow> m k
      | vs \<Rightarrow> Some ((case m k of None \<Rightarrow> [] | Some ws \<Rightarrow> ws) @ vs))"
  by (induction es arbitrary: m) (auto simp: map_append_apply split: list.split)

lemma go_map_vals: "go_map es k = (case vals k es of [] \<Rightarrow> None | vs \<Rightarrow> Some vs)"
  by (simp add: go_map_def fold_map_append split: list.split)

lemma go_map_None_iff: "go_map es k = None \<longleftrightarrow> vals k es = []"
  by (simp add: go_map_vals split: list.split)

lemma go_map_Some_iff: "go_map es k = Some vs \<longleftrightarrow> vals k es = vs \<and> vs \<noteq> []"
  by (auto simp: go_map_vals split: list.splits)

lemma strs_to_map_flat:
  "i \<le> length es \<Longrightarrow>
   strs_to_map (flat_entries es) (2 * length es) (2 * i) m =
     Ok (fold (\<lambda>(k, v) m. map_append m k v) (drop i es) m)"
proof (induction "length es - i" arbitrary: i m)
  case 0
  then show ?case by (subst strs_to_map.simps) simp
next
  case (Suc d)
  then have i: "i < length es" by simp
  have step: "strs_to_map (flat_entries es) (2 * length es) (2 * i) m =
      strs_to_map (flat_entries es) (2 * length es) (2 * Suc i)
        (map_append m (fst (es ! i)) (snd (es ! i)))"
    using i by (simp add: strs_to_map.simps [of _ "2 * length es" "2 * i"] flat_entries_nth)
  have IH: "strs_to_map (flat_entries es) (2 * length es) (2 * Suc i) m' =
      Ok (fold (\<lambda>(k, v) m. map_append m k v) (drop (Suc i) es) m')" for m'
    by (rule Suc.hyps(1)) (use Suc.hyps(2) i in auto)
  show ?case
    unfolding step IH Cons_nth_drop_Suc [OF i, symmetric] by (simp add: case_prod_unfold)
qed

lemma strs_to_map_go_map:
  "strs_to_map (flat_entries es) (2 * length es) 0 Map.empty = Ok (go_map es)"
  using strs_to_map_flat [of 0 es Map.empty] by (simp add: go_map_def)

subsection \<open>The copy into Go memory\<close>

lemma put_string_eq:
  "put_string s (i, off, strs, buf) =
     (if i < length strs \<and> off + length s \<le> length buf
      then Some (Suc i, off + length s, strs[i := (off, length s)],
                 take off buf @ s @ drop (off + length s) buf)
      else None)"
  by (simp add: put_string_def memcpy_def)

lemma copy_entries_strings: "copy_entries es x = copy_strings (flat_entries es) x"
proof (induction es arbitrary: x)
  case (Cons e es)
  then show ?case
    by (cases e) (auto simp: bind_eq_Some_conv intro!: Option.bind_cong)
qed simp

lemma copy_strings_None_iff:
  "i \<le> length strs \<Longrightarrow> off \<le> length buf \<Longrightarrow>
   copy_strings ss (i, off, strs, buf) = None \<longleftrightarrow>
     \<not> (i + length ss \<le> length strs \<and> off + sum_list (map length ss) \<le> length buf)"
proof (induction ss arbitrary: i off strs buf)
  case (Cons s ss)
  show ?case
  proof (cases "i < length strs \<and> off + length s \<le> length buf")
    case True
    then have "length (take off buf @ s @ drop (off + length s) buf) = length buf" by simp
    with True show ?thesis
      by (subst copy_strings.simps, subst put_string_eq) (simp add: Cons.IH add.assoc)
  next
    case False
    then show ?thesis by (auto simp: put_string_eq)
  qed
qed simp

lemma copy_strings_result:
  assumes "copy_strings ss (i, off, strs, buf) = Some (i', off', strs', buf')"
    and "off \<le> length buf"
  shows "length strs' = length strs \<and> length buf' = length buf \<and> take off buf' = take off buf \<and>
    take i strs' = take i strs \<and> drop (i + length ss) strs' = drop (i + length ss) strs \<and>
    map (go_string buf') (take (length ss) (drop i strs')) = ss"
  using assms
proof (induction ss arbitrary: i off strs buf)
  case Nil
  then show ?case by simp
next
  case (Cons s ss)
  let ?strs = "strs[i := (off, length s)]"
  let ?buf = "take off buf @ s @ drop (off + length s) buf"
  from Cons.prems have i: "i < length strs" and off: "off + length s \<le> length buf"
    and rest: "copy_strings ss (Suc i, off + length s, ?strs, ?buf) = Some (i', off', strs', buf')"
    by (auto simp: put_string_eq split: if_splits)
  have "off + length s \<le> length ?buf" using off by simp
  note IH = Cons.IH [OF rest this]
  have buf: "take (off + length s) buf' = take off buf @ s"
    using IH off by simp
  then have s: "go_string buf' (off, length s) = s"
    using off by (simp add: go_string_def take_drop add.commute)
  have pre: "take off buf' = take off buf"
  proof -
    have "take off buf' = take off (take (off + length s) buf')" by simp
    also have "\<dots> = take off buf" using off by (simp only: buf) simp
    finally show ?thesis .
  qed
  have strs: "take (Suc i) strs' = take i strs @ [(off, length s)]"
    using IH i by (simp add: take_Suc_conv_app_nth)
  have len: "i < length strs'" using i IH by simp
  have "strs' ! i = take (Suc i) strs' ! i" by simp
  then have nth: "strs' ! i = (off, length s)"
    unfolding strs using i by (simp add: nth_append)
  have tk: "take i strs' = take i strs"
    using strs len by (simp add: take_Suc_conv_app_nth)
  have "drop i strs' = (off, length s) # drop (Suc i) strs'"
    using nth len by (metis Cons_nth_drop_Suc)
  with IH i off s pre tk show ?case by simp
qed

lemma copyHeaderMapToGo_overflow:
  "length strs < 2 * length (hm_iterate E m) \<or> length buf < entries_bytes (hm_iterate E m) \<Longrightarrow>
   copyHeaderMapToGo E m (strs, buf) = Fault OutOfBounds"
proof -
  assume a: "length strs < 2 * length (hm_iterate E m) \<or> length buf < entries_bytes (hm_iterate E m)"
  have "copy_strings (flat_entries (hm_iterate E m)) (0, 0, strs, buf) = None"
    using a by (subst copy_strings_None_iff) (auto simp: sum_length_flat)
  then show ?thesis by (simp add: copyHeaderMapToGo_def copy_entries_strings)
qed

lemma copyHeaderMapToGo_reads:
  assumes fits: "2 * length (hm_iterate E m) \<le> n" "entries_bytes (hm_iterate E m) \<le> length buf"
  obtains strs' buf' where
    "copyHeaderMapToGo E m (replicate n (0, 0), buf) = Ok (strs', buf')"
    "map (go_string buf') strs' =
       flat_entries (hm_iterate E m) @ replicate (n - 2 * length (hm_iterate E m)) []"
proof -
  let ?es = "hm_iterate E m" and ?strs = "replicate n (0, 0) :: (nat \<times> nat) list"
  have "copy_strings (flat_entries ?es) (0, 0, ?strs, buf) \<noteq> None"
    using fits by (subst copy_strings_None_iff) (auto simp: sum_length_flat)
  then obtain i' off' strs' buf' where
    c: "copy_strings (flat_entries ?es) (0, 0, ?strs, buf) = Some (i', off', strs', buf')"
    by (metis not_None_eq prod_cases4)
  note r = copy_strings_result [OF c, simplified]
  have "map (go_string buf') strs' =
      map (go_string buf') (take (2 * length ?es) strs' @ drop (2 * length ?es) strs')"
    by simp
  also have "\<dots> = flat_entries ?es @ replicate (n - 2 * length ?es) []"
    using r by (simp only: map_append) (simp add: go_string_def)
  finally have "map (go_string buf') strs' = \<dots>" .
  moreover have "copyHeaderMapToGo E m (?strs, buf) = Ok (strs', buf')"
    using c by (simp add: copyHeaderMapToGo_def copy_entries_strings)
  ultimately show ?thesis by (rule that [rotated])
qed

text \<open>The two halves together: C writes, Go groups.\<close>

lemma copy_then_group:
  assumes even: "even n"
  shows "go_bind (go_lift (copyHeaderMapToGo E m (replicate n (0, 0), replicate bytes (CHR 0x00))))
      (\<lambda>(strs, buf). go_lift (strs_to_map (map (go_string buf) strs) n 0 Map.empty)) s
    = (copy_result (hm_iterate E m) n bytes, s)"
proof (cases "2 * length (hm_iterate E m) \<le> n \<and> entries_bytes (hm_iterate E m) \<le> bytes")
  case False
  then have "copyHeaderMapToGo E m (replicate n (0, 0), replicate bytes (CHR 0x00)) = Fault OutOfBounds"
    by (intro copyHeaderMapToGo_overflow) auto
  with False show ?thesis by (auto simp: copy_result_def)
next
  case True
  let ?es = "hm_iterate E m"
  let ?es' = "?es @ replicate (n div 2 - length ?es) ([], [])"
  obtain strs' buf' where c:
    "copyHeaderMapToGo E m (replicate n (0, 0), replicate bytes (CHR 0x00)) = Ok (strs', buf')"
    and flat: "map (go_string buf') strs' = flat_entries ?es @ replicate (n - 2 * length ?es) []"
    using True copyHeaderMapToGo_reads [of E m n "replicate bytes (CHR 0x00)"] by auto
  have "2 * (n div 2 - length ?es) = n - 2 * length ?es" using even by auto
  then have "map (go_string buf') strs' = flat_entries ?es'"
    using flat by (simp add: flat_entries_append flat_entries_replicate)
  moreover have "n = 2 * length ?es'" using even True by auto
  ultimately have "strs_to_map (map (go_string buf') strs') n 0 Map.empty = Ok (go_map ?es')"
    by (metis strs_to_map_go_map)
  with c True show ?thesis by (simp add: copy_result_def)
qed

end
