(* ===== verification/Capi_Contract.thy ===== *)
theory Capi_Contract
  imports Header_Copy
begin

text \<open>
  The contract of the interface \<open>HttpCAPI\<close> as the header, buffer and request code of the package
  relies on it. \<open>api_gate\<close> says whether the filter behind a request may be touched now (it is
  alive, not destroyed and owned by Go); the locale \<open>http_capi\<close> states what the header calls do
  in terms of the header map they reach, and \<open>httpCApiImpl\<close> is shown to provide it.
\<close>

subsection \<open>The gate\<close>

definition api_gate :: "('h, 'b, 'cfg, 'u) world \<Rightarrow> nat \<Rightarrow> (nat \<times> 'b Filter) outcome" where
  "api_gate w r = (case httpRequests w r of
      None \<Rightarrow> Panic nil_deref
    | Some q \<Rightarrow> (case creqs (cside w) (req q) of
        None \<Rightarrow> Fault UseAfterFree
      | Some cq \<Rightarrow> (case filters (cside w) (weakFilter cq) of
          None \<Rightarrow> Panic (PanicString ErrRequestFinished)
        | Some F \<Rightarrow>
            if has_destroyed F then Panic (PanicString ErrFilterDestroyed)
            else if \<not> isProcessingInGo (getProcessorState F) then Panic (PanicString ErrNotInGo)
            else Ok (weakFilter cq, F))))"

definition header_view :: "('h, 'b, 'cfg, 'u) world \<Rightarrow> nat \<Rightarrow> 'h outcome" where
  "header_view w r = (case api_gate w r of
      Ok (i, F) \<Rightarrow> (case headers_ptr F of
          None \<Rightarrow> Panic (PanicString ErrInvalidPhase)
        | Some a \<Rightarrow> Ok (hm_heap (cside w) a))
    | Panic p \<Rightarrow> Panic p
    | Fault f \<Rightarrow> Fault f)"

definition put_header :: "nat \<Rightarrow> 'h \<Rightarrow> ('h, 'b, 'cfg, 'u) world \<Rightarrow> ('h, 'b, 'cfg, 'u) world" where
  "put_header r m w = (case api_gate w r of
      Ok (i, F) \<Rightarrow> (case headers_ptr F of
          None \<Rightarrow> w
        | Some a \<Rightarrow> w\<lparr>cside := upd_hm a (\<lambda>_. m) (cside w)\<rparr>)
    | _ \<Rightarrow> w)"

text \<open>
  The Go allocations of a copy stay below the runtime's limit: the product \<^verbatim>\<open>num*2\<close> wraps, so this is
  also the case for some numbers that are far too large. With \<open>copy_room\<close> nothing wraps.
\<close>

definition copy_allocs :: "u64 \<Rightarrow> u64 \<Rightarrow> bool" where
  "copy_allocs num bytes \<longleftrightarrow> 16 * unat (num * 2) \<le> 2 ^ 48 \<and> unat bytes \<le> 2 ^ 48"

definition copy_room :: "u64 \<Rightarrow> u64 \<Rightarrow> bool" where
  "copy_room num bytes \<longleftrightarrow> unat num < 2 ^ 43 \<and> unat bytes \<le> 2 ^ 48"

subsection \<open>Guarded calls\<close>

lemma ErrStrings_distinct [simp]:
  "ErrRequestFinished \<noteq> ErrFilterDestroyed" "ErrFilterDestroyed \<noteq> ErrRequestFinished"
  "ErrRequestFinished \<noteq> ErrNotInGo" "ErrNotInGo \<noteq> ErrRequestFinished"
  "ErrRequestFinished \<noteq> ErrInvalidPhase" "ErrInvalidPhase \<noteq> ErrRequestFinished"
  "ErrFilterDestroyed \<noteq> ErrNotInGo" "ErrNotInGo \<noteq> ErrFilterDestroyed"
  "ErrFilterDestroyed \<noteq> ErrInvalidPhase" "ErrInvalidPhase \<noteq> ErrFilterDestroyed"
  "ErrNotInGo \<noteq> ErrInvalidPhase" "ErrInvalidPhase \<noteq> ErrNotInGo"
  by (simp_all add: ErrRequestFinished_def ErrFilterDestroyed_def ErrNotInGo_def ErrInvalidPhase_def)

lemma handleCApiStatus_apply [go_simps, simp]:
  "handleCApiStatus 0 w = (Ok (), w)"
  "handleCApiStatus (- 1) w = (Panic (PanicString ErrRequestFinished), w)"
  "handleCApiStatus (- 2) w = (Panic (PanicString ErrFilterDestroyed), w)"
  "handleCApiStatus (- 3) w = (Panic (PanicString ErrNotInGo), w)"
  "handleCApiStatus (- 4) w = (Panic (PanicString ErrInvalidPhase), w)"
  "handleCApiStatus (- 5) w = (Ok (), w)"
  by (simp_all add: handleCApiStatus_def)

lemma cside_cside_upd [simp]: "w\<lparr>cside := cside w\<rparr> = (w :: ('h, 'b, 'cfg, 'u) world)"
  by simp

definition status_error :: "int \<Rightarrow> string" where
  "status_error st =
     (if st = CAPIFilterIsGone then ErrRequestFinished
      else if st = CAPIFilterIsDestroy then ErrFilterDestroyed else ErrNotInGo)"

lemma gate_call_closed:
  assumes "api_gate w r = Panic p" and "httpRequests w r \<noteq> None"
  obtains st where "st \<in> {- 1, - 2, - 3}" "p = PanicString (status_error st)"
    "c_call r (\<lambda>p. moeHandlerWrapper ret p (inGoGuard ret body)) w = (Ok (ret st), w)"
proof -
  obtain q cq where q: "httpRequests w r = Some q" and cq: "creqs (cside w) (req q) = Some cq"
    using assms by (auto simp: api_gate_def split: option.splits)
  note W = api_gate_def c_call_def moeHandlerWrapper_def inGoGuard_def status_error_def q cq
  show ?thesis
  proof (cases "filters (cside w) (weakFilter cq)")
    case None
    with assms(1) show ?thesis by (intro that [of "- 1"]) (auto simp: W)
  next
    case F: (Some F)
    show ?thesis
    proof (cases "has_destroyed F")
      case True
      with F assms(1) show ?thesis by (intro that [of "- 2"]) (auto simp: W)
    next
      case False
      with F assms(1) show ?thesis
        by (intro that [of "- 3"]) (auto simp: W split: if_splits)
    qed
  qed
qed

lemma gate_openE:
  assumes "api_gate w r = Ok (i, F)"
  obtains q cq where "httpRequests w r = Some q" "creqs (cside w) (req q) = Some cq"
    "weakFilter cq = i" "filters (cside w) i = Some F" "\<not> has_destroyed F"
    "isProcessingInGo (getProcessorState F)"
  using assms by (auto simp: api_gate_def split: option.splits if_splits)

lemma gate_open:
  assumes "api_gate w r = Ok (i, F)"
  shows "c_call r (\<lambda>p. moeHandlerWrapper ret p (inGoGuard ret body)) w = on_c (body i F) w"
  using assms by (elim gate_openE)
    (simp add: c_call_def moeHandlerWrapper_def inGoGuard_def on_c_def)

lemma gate_fault:
  assumes "api_gate w r = Fault f"
  shows "c_call r (\<lambda>p. moeHandlerWrapper ret p (inGoGuard ret body)) w = (Fault f, w)"
  using assms by (auto simp: api_gate_def c_call_def moeHandlerWrapper_def on_c_def
      split: option.splits if_splits)

lemma gate_closed:
  assumes "api_gate w r = Panic p"
    and k: "\<And>st. st \<in> {- 1, - 2, - 3} \<Longrightarrow> k (ret st) w = go_then (handleCApiStatus st) (k' st) w"
  shows "go_bind (c_call r (\<lambda>p. moeHandlerWrapper ret p (inGoGuard ret body))) k w = (Panic p, w)"
proof (cases "httpRequests w r")
  case None
  with assms(1) show ?thesis by (simp add: c_call_def api_gate_def)
next
  case (Some q)
  then obtain st where "st \<in> {- 1, - 2, - 3}" "p = PanicString (status_error st)"
      "c_call r (\<lambda>p. moeHandlerWrapper ret p (inGoGuard ret body)) w = (Ok (ret st), w)"
    using gate_call_closed [OF assms(1)] by blast
  with k [of st] show ?thesis by (auto simp: status_error_def)
qed

text \<open>The gate looks only at the request, its C struct and its filter.\<close>

lemma api_gate_cong:
  assumes "httpRequests w' r = httpRequests w r"
    and "creqs (cside w') = creqs (cside w)" "filters (cside w') = filters (cside w)"
  shows "api_gate w' r = api_gate w r"
  unfolding api_gate_def assms ..

lemma api_gate_upd_hm [simp]: "api_gate (w\<lparr>cside := upd_hm a f (cside w)\<rparr>) r = api_gate w r"
  by (rule api_gate_cong) (simp_all add: upd_hm_def)

lemma api_gate_upd_headerMap [simp]: "api_gate (upd_headerMap h f w) r = api_gate w r"
  by (rule api_gate_cong) simp_all

lemma header_view_upd_headerMap [simp]: "header_view (upd_headerMap h f w) r = header_view w r"
  unfolding header_view_def api_gate_upd_headerMap upd_headerMap_frame ..

subsection \<open>The contract of the header calls\<close>

locale http_capi =
  fixes C :: "('h, 'b, 'cfg, 'u) world HttpCAPI"
    and E :: "('h, 'b) envoy"
    and view :: "('h, 'b, 'cfg, 'u) world \<Rightarrow> nat \<Rightarrow> 'h outcome"
    and put :: "nat \<Rightarrow> 'h \<Rightarrow> ('h, 'b, 'cfg, 'u) world \<Rightarrow> ('h, 'b, 'cfg, 'u) world"
  assumes copy_open: "view w r = Ok m \<Longrightarrow> copy_room num bytes \<Longrightarrow>
        HttpCopyHeaders C r num bytes w =
          (copy_result (hm_iterate E m) (2 * unat num) (unat bytes), w)"
    and copy_closed: "view w r = Panic p \<Longrightarrow> copy_room num bytes \<Longrightarrow>
        HttpCopyHeaders C r num bytes w = (Panic p, w)"
    and set_open: "view w r = Ok m \<Longrightarrow>
        HttpSetHeader C r k v add w =
          (Ok (), put r (if add then hm_addCopy E m (env_lower E k) v
                         else hm_setCopy E m (env_lower E k) v) w)"
    and set_closed: "view w r = Panic p \<Longrightarrow> HttpSetHeader C r k v add w = (Panic p, w)"
    and remove_open: "view w r = Ok m \<Longrightarrow>
        HttpRemoveHeader C r k w = (Ok (), put r (hm_remove E m (env_lower E k)) w)"
    and remove_closed: "view w r = Panic p \<Longrightarrow> HttpRemoveHeader C r k w = (Panic p, w)"
    and view_put: "view w r = Ok m \<Longrightarrow> view (put r m' w) r = Ok m'"
    and put_frame: "headerMaps (put r m' w) = headerMaps w"
    and view_frame: "view (upd_headerMap h f w) r = view w r"

lemma copy_room_make:
  assumes "copy_room num bytes"
  shows "copy_allocs num bytes" "unat (num * 2) = 2 * unat num"
  using assms by (simp_all add: copy_room_def copy_allocs_def unat_double)

lemma even_unat_double: "even (unat (num * 2 :: u64))"
  by (simp add: unat_word_ariths dvd_mod_iff)

text \<open>Without the allocations there is no call; with them the call gets zeroed memory.\<close>

lemma copy_to_map_allocs:
  "copy_to_map call r num bytes w =
    (if copy_allocs num bytes
     then go_bind (c_call r (\<lambda>p. call p (replicate (unat (num * 2)) (0, 0),
         replicate (unat bytes) (CHR 0x00))))
       (\<lambda>(res, (strs, buf)). go_then (handleCApiStatus res)
         (go_lift (strs_to_map (map (go_string buf) strs) (unat (num * 2)) 0 Map.empty))) w
     else (Panic makeslice_out_of_range, w))"
  by (auto simp: copy_to_map_def copy_allocs_def go_make_def)

lemma copy_to_map_open:
  assumes gate: "api_gate w r = Ok (i, F)"
    and call: "\<And>p mem. call p mem = moeHandlerWrapper (\<lambda>st. (st, mem)) p
        (inGoGuard (\<lambda>st. (st, mem)) (body mem))"
    and body: "\<And>mem. body mem i F (cside w) =
        (case copyHeaderMapToGo E m mem of
           Ok mem' \<Rightarrow> (Ok (CAPIOK, mem'), cside w)
         | Panic p \<Rightarrow> (Panic p, cside w)
         | Fault f \<Rightarrow> (Fault f, cside w))"
  shows "copy_to_map call r num bytes w =
    (if copy_allocs num bytes then copy_result (hm_iterate E m) (unat (num * 2)) (unat bytes)
     else Panic makeslice_out_of_range, w)"
proof -
  let ?mem = "(replicate (unat (num * 2)) (0, 0), replicate (unat bytes) (CHR 0x00))"
  have "c_call r (\<lambda>p. call p ?mem) w = on_c (body ?mem i F) w"
    unfolding call by (rule gate_open [OF gate])
  then have "go_bind (c_call r (\<lambda>p. call p ?mem)) (\<lambda>(res, (strs, buf)). go_then (handleCApiStatus res)
      (go_lift (strs_to_map (map (go_string buf) strs) (unat (num * 2)) 0 Map.empty))) w =
      go_bind (go_lift (copyHeaderMapToGo E m ?mem))
        (\<lambda>(strs, buf). go_lift (strs_to_map (map (go_string buf) strs) (unat (num * 2)) 0 Map.empty)) w"
    using body [of ?mem]
    by (cases "copyHeaderMapToGo E m ?mem") (auto simp: on_c_def go_bind_def)
  then show ?thesis
    unfolding copy_to_map_allocs
    using copy_then_group [OF even_unat_double, of E m num "unat bytes" w] by simp
qed

lemma copy_to_map_closed:
  assumes gate: "api_gate w r = Panic p"
    and call: "\<And>p mem. call p mem = moeHandlerWrapper (\<lambda>st. (st, mem)) p
        (inGoGuard (\<lambda>st. (st, mem)) (body mem))"
  shows "copy_to_map call r num bytes w =
    (Panic (if copy_allocs num bytes then p else makeslice_out_of_range), w)"
proof -
  let ?mem = "(replicate (unat (num * 2)) (0, 0), replicate (unat bytes) (CHR 0x00))"
  have "go_bind (c_call r (\<lambda>p. call p ?mem)) (\<lambda>(res, (strs, buf)). go_then (handleCApiStatus res)
      (go_lift (strs_to_map (map (go_string buf) strs) (unat (num * 2)) 0 Map.empty))) w = (Panic p, w)"
    unfolding call by (rule gate_closed [OF gate]) auto
  then show ?thesis unfolding copy_to_map_allocs by simp
qed

lemma copy_to_map_fault:
  assumes gate: "api_gate w r = Fault f"
    and call: "\<And>p mem. call p mem = moeHandlerWrapper (\<lambda>st. (st, mem)) p
        (inGoGuard (\<lambda>st. (st, mem)) (body mem))"
  shows "copy_to_map call r num bytes w =
    (if copy_allocs num bytes then Fault f else Panic makeslice_out_of_range, w)"
  unfolding copy_to_map_allocs go_bind_apply call gate_fault [OF gate] by simp

subsection \<open>The implementation provides the contract\<close>

lemma header_viewE:
  assumes "header_view w r = Ok m"
  obtains i F a where "api_gate w r = Ok (i, F)" "headers_ptr F = Some a"
    "hm_heap (cside w) a = m"
  using assms by (auto simp: header_view_def split: outcome.splits option.splits)

lemma header_view_closedE:
  assumes "header_view w r = Panic p"
  obtains (gate) "api_gate w r = Panic p"
  | (phase) i F where "api_gate w r = Ok (i, F)" "headers_ptr F = None"
      "p = PanicString ErrInvalidPhase"
  using assms by (auto simp: header_view_def split: outcome.splits option.splits)

lemma put_header_open:
  "api_gate w r = Ok (i, F) \<Longrightarrow> headers_ptr F = Some a \<Longrightarrow>
   put_header r m w = w\<lparr>cside := upd_hm a (\<lambda>_. m) (cside w)\<rparr>"
  by (simp add: put_header_def)

lemma impl_copy_any:
  assumes "header_view w r = Ok m"
  shows "impl_HttpCopyHeaders E r num bytes w =
    (if copy_allocs num bytes then copy_result (hm_iterate E m) (unat (num * 2)) (unat bytes)
     else Panic makeslice_out_of_range, w)"
proof -
  obtain i F a where g: "api_gate w r = Ok (i, F)" "headers_ptr F = Some a"
    and m: "hm_heap (cside w) a = m"
    using assms by (rule header_viewE)
  show ?thesis
    unfolding impl_HttpCopyHeaders_def
  proof (rule copy_to_map_open [OF g(1)])
    show "moeHttpCopyHeaders E p mem = moeHandlerWrapper (\<lambda>st. (st, mem)) p
      (inGoGuard (\<lambda>st. (st, mem)) ((\<lambda>mem i F. case headers_ptr F of
         None \<Rightarrow> go_return (CAPIInvalidPhase, mem)
       | Some m \<Rightarrow> go_bind (go_gets (\<lambda>c. hm_heap c m)) (\<lambda>h.
           go_bind (go_lift (copyHeaderMapToGo E h mem)) (\<lambda>mem'. go_return (CAPIOK, mem')))) mem))"
      for p mem by (simp add: moeHttpCopyHeaders_def copyHeaders_def)
  qed (use g m in \<open>simp split: outcome.split\<close>)
qed

lemma impl_copy_open:
  assumes "header_view w r = Ok m" and "copy_room num bytes"
  shows "impl_HttpCopyHeaders E r num bytes w =
    (copy_result (hm_iterate E m) (2 * unat num) (unat bytes), w)"
  using impl_copy_any [OF assms(1)] copy_room_make [OF assms(2)] by simp

lemma impl_copy_closed:
  assumes "header_view w r = Panic p" and room: "copy_room num bytes"
  shows "impl_HttpCopyHeaders E r num bytes w = (Panic p, w)"
  using assms(1)
proof (cases rule: header_view_closedE)
  case gate
  have "impl_HttpCopyHeaders E r num bytes w =
      (Panic (if copy_allocs num bytes then p else makeslice_out_of_range), w)"
    unfolding impl_HttpCopyHeaders_def
    by (rule copy_to_map_closed [OF gate])
      (unfold moeHttpCopyHeaders_def copyHeaders_def, rule refl)
  then show ?thesis using copy_room_make [OF room] by simp
next
  case (phase i F)
  let ?mem = "(replicate (unat (num * 2)) (0, 0), replicate (unat bytes) (CHR 0x00))"
  have "c_call r (\<lambda>p. moeHttpCopyHeaders E p ?mem) w = (Ok (CAPIInvalidPhase, ?mem), w)"
    unfolding moeHttpCopyHeaders_def copyHeaders_def gate_open [OF phase(1)]
    using phase(2) by simp
  then show ?thesis
    using copy_room_make [OF room] phase(3)
    by (simp add: impl_HttpCopyHeaders_def copy_to_map_allocs)
qed

lemma impl_set_open:
  assumes "header_view w r = Ok m"
  shows "impl_HttpSetHeader E r k v add w =
    (Ok (), put_header r (if add then hm_addCopy E m (env_lower E k) v
                          else hm_setCopy E m (env_lower E k) v) w)"
proof -
  obtain i F a where g: "api_gate w r = Ok (i, F)" "headers_ptr F = Some a"
    and m: "hm_heap (cside w) a = m"
    using assms by (rule header_viewE)
  show ?thesis
    unfolding impl_HttpSetHeader_def moeHttpSetHeaderHelper_def setHeader_def Let_def
      go_bind_apply gate_open [OF g(1)]
    using g m by (simp add: put_header_open [OF g] upd_hm_def)
qed

lemma impl_set_closed:
  assumes "header_view w r = Panic p"
  shows "impl_HttpSetHeader E r k v add w = (Panic p, w)"
  using assms
proof (cases rule: header_view_closedE)
  case gate
  then show ?thesis
    unfolding impl_HttpSetHeader_def moeHttpSetHeaderHelper_def setHeader_def Let_def
    by (rule gate_closed [where k' = "\<lambda>_. go_return ()"]) auto
next
  case (phase i F)
  then show ?thesis
    unfolding impl_HttpSetHeader_def moeHttpSetHeaderHelper_def setHeader_def Let_def
      go_bind_apply gate_open [OF phase(1)]
    by simp
qed

lemma impl_remove_open:
  assumes "header_view w r = Ok m"
  shows "impl_HttpRemoveHeader E r k w = (Ok (), put_header r (hm_remove E m (env_lower E k)) w)"
proof -
  obtain i F a where g: "api_gate w r = Ok (i, F)" "headers_ptr F = Some a"
    and m: "hm_heap (cside w) a = m"
    using assms by (rule header_viewE)
  show ?thesis
    unfolding impl_HttpRemoveHeader_def moeHttpRemoveHeader_def removeHeader_def
      go_bind_apply gate_open [OF g(1)]
    using g m by (simp add: put_header_open [OF g] upd_hm_def)
qed

lemma impl_remove_closed:
  assumes "header_view w r = Panic p"
  shows "impl_HttpRemoveHeader E r k w = (Panic p, w)"
  using assms
proof (cases rule: header_view_closedE)
  case gate
  then show ?thesis
    unfolding impl_HttpRemoveHeader_def moeHttpRemoveHeader_def removeHeader_def
    by (rule gate_closed [where k' = "\<lambda>_. go_return ()"]) auto
next
  case (phase i F)
  then show ?thesis
    unfolding impl_HttpRemoveHeader_def moeHttpRemoveHeader_def removeHeader_def
      go_bind_apply gate_open [OF phase(1)]
    by simp
qed

lemma header_view_put:
  assumes "header_view w r = Ok m"
  shows "header_view (put_header r m' w) r = Ok m'"
proof -
  obtain i F a where g: "api_gate w r = Ok (i, F)" "headers_ptr F = Some a"
    using assms by (rule header_viewE)
  then show ?thesis
    by (simp add: put_header_open [OF g] header_view_def) (simp add: upd_hm_def)
qed

lemma put_header_frame: "headerMaps (put_header r m w) = headerMaps w"
  by (simp add: put_header_def split: outcome.split option.split prod.split)

interpretation capi: http_capi "httpCApiImpl E" E header_view put_header for E
  by unfold_locales
    (simp_all add: impl_copy_open impl_copy_closed impl_set_open impl_set_closed
      impl_remove_open impl_remove_closed header_view_put put_header_frame)

end
