(* ===== verification/Strconv.thy ===== *)
theory Strconv
  imports Go_Prelude
begin

text \<open>
  The conversions between numbers and text that the package takes from the Go language and from
  \<^verbatim>\<open>strconv\<close>, on bytes: a Go string is a list of \<open>char\<close>, one for each byte.
\<close>

subsection \<open>Parsing\<close>

text \<open>
  \<^verbatim>\<open>strconv.Atoi\<close> of the Go library on a 64-bit platform: the value and whether there was an
  error. A syntax error gives 0, a number out of range the nearest \<^verbatim>\<open>int64\<close>. The digits are read
  as \<^verbatim>\<open>ParseUint\<close> reads them, one at a time, and the first overflow ends the parse.
\<close>

datatype parse_error = ErrSyntax | ErrRange

definition digit_value :: "char \<Rightarrow> nat option" where
  "digit_value c =
     (if 48 \<le> (of_char c :: nat) \<and> (of_char c :: nat) \<le> 57 then Some (of_char c - 48) else None)"

fun ParseUint :: "nat \<Rightarrow> string \<Rightarrow> parse_error + nat" where
  "ParseUint n [] = Inr n"
| "ParseUint n (c # cs) = (case digit_value c of
      None \<Rightarrow> Inl ErrSyntax
    | Some d \<Rightarrow> if n * 10 + d < 2 ^ 64 then ParseUint (n * 10 + d) cs else Inl ErrRange)"

definition Atoi :: "string \<Rightarrow> int \<times> parse_error option" where
  "Atoi s =
     (let neg = (s \<noteq> [] \<and> hd s = CHR ''-'');
          digits = (if s \<noteq> [] \<and> (hd s = CHR ''-'' \<or> hd s = CHR ''+'') then tl s else s)
      in if digits = [] then (0, Some ErrSyntax)
         else (case ParseUint 0 digits of
             Inl ErrSyntax \<Rightarrow> (0, Some ErrSyntax)
           | Inl ErrRange \<Rightarrow> (if neg then - (2 ^ 63) else 2 ^ 63 - 1, Some ErrRange)
           | Inr n \<Rightarrow>
               if \<not> neg \<and> 2 ^ 63 \<le> n then (2 ^ 63 - 1, Some ErrRange)
               else if neg \<and> 2 ^ 63 < n then (- (2 ^ 63), Some ErrRange)
               else (if neg then - int n else int n, None)))"

subsection \<open>Formatting\<close>

text \<open>
  \<^verbatim>\<open>string(p)\<close> of a \<^verbatim>\<open>byte\<close> is the UTF-8 encoding of the code point \<open>p\<close>: one byte below \<open>0x80\<close>, two
  from there on.
\<close>

definition string_of_byte :: "8 word \<Rightarrow> string" where
  "string_of_byte p =
     (if unat p < 128 then [char_of (unat p)]
      else [char_of (192 + unat p div 64), char_of (128 + unat p mod 64)])"

text \<open>\<^verbatim>\<open>strconv.FormatUint(n, 10)\<close>.\<close>

definition digit_char :: "nat \<Rightarrow> char" where
  "digit_char d = char_of (48 + d)"

fun FormatUint :: "nat \<Rightarrow> string" where
  "FormatUint n = (if n < 10 then [digit_char n] else FormatUint (n div 10) @ [digit_char (n mod 10)])"

declare FormatUint.simps [simp del]

subsection \<open>Lemmas\<close>

lemma of_char_digit_char: "d < 10 \<Longrightarrow> of_char (digit_char d) = 48 + d" for d :: nat
  by (simp add: digit_char_def)

lemma digit_value_char: "d < 10 \<Longrightarrow> digit_value (digit_char d) = Some d" for d :: nat
  by (simp add: digit_value_def of_char_digit_char)

lemma FormatUint_not_Nil: "FormatUint n \<noteq> []"
  by (subst FormatUint.simps) simp

lemma FormatUint_digits: "c \<in> set (FormatUint n) \<Longrightarrow> \<exists>d < 10. c = digit_char d"
proof (induction n rule: FormatUint.induct)
  case (1 n)
  show ?case
  proof (cases "n < 10")
    case True
    with "1.prems" show ?thesis by (subst (asm) FormatUint.simps) auto
  next
    case False
    have "n mod 10 < 10" by simp
    with False "1.prems" "1.IH" show ?thesis
      by (subst (asm) FormatUint.simps) (auto intro: exI [of _ "n mod 10"])
  qed
qed

lemma digit_char_not_sign: "d < 10 \<Longrightarrow> digit_char d \<noteq> CHR ''-'' \<and> digit_char d \<noteq> CHR ''+''"
  for d :: nat
proof -
  assume d: "d < 10"
  have "(of_char (CHR ''-'') :: nat) = 45" "(of_char (CHR ''+'') :: nat) = 43" by simp_all
  with of_char_digit_char [OF d] show ?thesis by auto
qed

lemma ParseUint_append:
  "ParseUint m s = Inr n \<Longrightarrow> ParseUint m (s @ t) = ParseUint n t"
  by (induction m s rule: ParseUint.induct) (auto split: option.splits if_splits)

text \<open>Reading back what was written.\<close>

lemma ParseUint_FormatUint: "n < 2 ^ 64 \<Longrightarrow> ParseUint 0 (FormatUint n) = Inr n"
proof (induction n rule: FormatUint.induct)
  case (1 n)
  show ?case
  proof (cases "n < 10")
    case True
    then show ?thesis by (subst FormatUint.simps) (simp add: digit_value_char)
  next
    case False
    have m: "n mod 10 < 10" by simp
    have "ParseUint 0 (FormatUint (n div 10)) = Inr (n div 10)"
      using "1.IH" [OF False] "1.prems" by simp
    then have "ParseUint 0 (FormatUint (n div 10) @ [digit_char (n mod 10)]) =
        ParseUint (n div 10) [digit_char (n mod 10)]"
      by (rule ParseUint_append)
    also have "\<dots> = Inr n"
      using "1.prems" by (simp add: digit_value_char [OF m])
    finally show ?thesis using False by (subst FormatUint.simps) simp
  qed
qed

lemma Atoi_FormatUint:
  assumes "n < 2 ^ 63"
  shows "Atoi (FormatUint n) = (int n, None)"
proof -
  have "hd (FormatUint n) \<in> set (FormatUint n)" using FormatUint_not_Nil by simp
  then obtain d where d: "d < 10" "hd (FormatUint n) = digit_char d"
    using FormatUint_digits by blast
  then have "hd (FormatUint n) \<noteq> CHR ''-''" "hd (FormatUint n) \<noteq> CHR ''+''"
    using digit_char_not_sign by simp_all
  then show ?thesis
    using assms ParseUint_FormatUint [of n] FormatUint_not_Nil [of n] by (simp add: Atoi_def Let_def)
qed

lemma Atoi_range: "- (2 ^ 63) \<le> fst (Atoi s) \<and> fst (Atoi s) < 2 ^ 63"
  by (auto simp: Atoi_def Let_def split: sum.split parse_error.split)

lemma string_of_byte_ascii: "unat p < 128 \<Longrightarrow> string_of_byte p = [char_of (unat p)]"
  by (simp add: string_of_byte_def)

lemma length_string_of_byte: "length (string_of_byte p) = (if unat p < 128 then 1 else 2)"
  by (simp add: string_of_byte_def)

text \<open>The text of a 64-bit number has at most 20 digits.\<close>

lemma length_FormatUint: "n < 10 ^ k \<Longrightarrow> 0 < k \<Longrightarrow> length (FormatUint n) \<le> k"
proof (induction k arbitrary: n)
  case (Suc k)
  show ?case
  proof (cases "n < 10")
    case True
    then show ?thesis by (simp add: FormatUint.simps [of n])
  next
    case False
    then have "0 < k" using Suc.prems(1) by (cases k) auto
    moreover have "n div 10 < 10 ^ k" using Suc.prems(1) by (simp add: div_less_iff_less_mult mult.commute)
    ultimately have "length (FormatUint (n div 10)) \<le> k" using Suc.IH by simp
    with False show ?thesis by (simp add: FormatUint.simps [of n])
  qed
qed simp

end
