(* ===== verification/Http_Buffer.thy ===== *)
theory Http_Buffer
  imports Capi_Contract Strconv
begin

text \<open>
  The body buffers of \<^verbatim>\<open>pkg/http/type.go\<close>. A handle holds the address of a buffer that the C++
  side keeps in its list, and the length it had when the handle was made; the methods read and
  write the buffer through the interface \<open>C\<close>. The errors the methods return are always nil.
\<close>

subsection \<open>httpBuffer\<close>

definition set_buf_value ::
    "nat \<Rightarrow> string \<Rightarrow> ('h, 'b, 'cfg, 'u) world \<Rightarrow> ('h, 'b, 'cfg, 'u) world" where
  "set_buf_value b v = upd_httpBuffer b (\<lambda>o'. o'\<lparr>buf_value := v\<rparr>)"

definition buffer_helper ::
    "('h, 'b, 'cfg, 'u) world HttpCAPI \<Rightarrow> nat \<Rightarrow> string \<Rightarrow> BufferAction \<Rightarrow>
     (('h, 'b, 'cfg, 'u) world, unit) go" where
  "buffer_helper C b s action = go_bind (deref httpBuffers b) (\<lambda>o'.
     HttpSetBufferHelper C (buf_request o') (envoyBufferInstance o') s action)"

definition httpBuffer_Write ::
    "('h, 'b, 'cfg, 'u) world HttpCAPI \<Rightarrow> nat \<Rightarrow> string \<Rightarrow> (('h, 'b, 'cfg, 'u) world, nat) go" where
  "httpBuffer_Write C b p = go_then (buffer_helper C b p AppendBuffer) (go_return (length p))"

definition httpBuffer_WriteString ::
    "('h, 'b, 'cfg, 'u) world HttpCAPI \<Rightarrow> nat \<Rightarrow> string \<Rightarrow> (('h, 'b, 'cfg, 'u) world, nat) go" where
  "httpBuffer_WriteString C b s = go_then (buffer_helper C b s AppendBuffer) (go_return (length s))"

definition httpBuffer_WriteByte ::
    "('h, 'b, 'cfg, 'u) world HttpCAPI \<Rightarrow> nat \<Rightarrow> 8 word \<Rightarrow> (('h, 'b, 'cfg, 'u) world, unit) go" where
  "httpBuffer_WriteByte C b p = buffer_helper C b (string_of_byte p) AppendBuffer"

definition httpBuffer_WriteUint16 ::
    "('h, 'b, 'cfg, 'u) world HttpCAPI \<Rightarrow> nat \<Rightarrow> 16 word \<Rightarrow> (('h, 'b, 'cfg, 'u) world, unit) go" where
  "httpBuffer_WriteUint16 C b p =
     go_then (httpBuffer_WriteString C b (FormatUint (unat p))) (go_return ())"

definition httpBuffer_WriteUint32 ::
    "('h, 'b, 'cfg, 'u) world HttpCAPI \<Rightarrow> nat \<Rightarrow> u32 \<Rightarrow> (('h, 'b, 'cfg, 'u) world, unit) go" where
  "httpBuffer_WriteUint32 C b p =
     go_then (httpBuffer_WriteString C b (FormatUint (unat p))) (go_return ())"

definition httpBuffer_WriteUint64 ::
    "('h, 'b, 'cfg, 'u) world HttpCAPI \<Rightarrow> nat \<Rightarrow> u64 \<Rightarrow> (('h, 'b, 'cfg, 'u) world, unit) go" where
  "httpBuffer_WriteUint64 C b p =
     go_then (httpBuffer_WriteString C b (FormatUint (unat p))) (go_return ())"

definition implement_me :: panic_value where
  "implement_me = PanicString ''implement me''"

definition httpBuffer_Peek :: "nat \<Rightarrow> int \<Rightarrow> (('h, 'b, 'cfg, 'u) world, string) go" where
  "httpBuffer_Peek b n = go_panic implement_me"

definition httpBuffer_Drain :: "nat \<Rightarrow> int \<Rightarrow> (('h, 'b, 'cfg, 'u) world, unit) go" where
  "httpBuffer_Drain b offset = go_panic implement_me"

definition httpBuffer_Reset :: "nat \<Rightarrow> (('h, 'b, 'cfg, 'u) world, unit) go" where
  "httpBuffer_Reset b = go_panic implement_me"

text \<open>The common part of \<open>Bytes\<close> and \<open>String\<close>: fetch \<^verbatim>\<open>b.value\<close>, unless the length is 0.\<close>

definition fetch_value ::
    "('h, 'b, 'cfg, 'u) world HttpCAPI \<Rightarrow> nat \<Rightarrow> (('h, 'b, 'cfg, 'u) world, string) go" where
  "fetch_value C b = go_bind (deref httpBuffers b) (\<lambda>o'.
     if buf_length o' = 0 then go_return []
     else go_then
       (HttpGetBuffer C (buf_request o') (envoyBufferInstance o') (set_buf_value b) (buf_length o'))
       (go_bind (deref httpBuffers b) (\<lambda>o'. go_return (buf_value o'))))"

definition httpBuffer_Bytes ::
    "('h, 'b, 'cfg, 'u) world HttpCAPI \<Rightarrow> nat \<Rightarrow> (('h, 'b, 'cfg, 'u) world, string) go" where
  "httpBuffer_Bytes C b = fetch_value C b"

definition httpBuffer_String ::
    "('h, 'b, 'cfg, 'u) world HttpCAPI \<Rightarrow> nat \<Rightarrow> (('h, 'b, 'cfg, 'u) world, string) go" where
  "httpBuffer_String C b = fetch_value C b"

definition httpBuffer_Len :: "nat \<Rightarrow> (('h, 'b, 'cfg, 'u) world, int) go" where
  "httpBuffer_Len b = go_bind (deref httpBuffers b) (\<lambda>o'. go_return (sint (buf_length o')))"

definition httpBuffer_Append ::
    "('h, 'b, 'cfg, 'u) world HttpCAPI \<Rightarrow> nat \<Rightarrow> string \<Rightarrow> (('h, 'b, 'cfg, 'u) world, unit) go" where
  "httpBuffer_Append C b data = buffer_helper C b data AppendBuffer"

definition httpBuffer_Prepend ::
    "('h, 'b, 'cfg, 'u) world HttpCAPI \<Rightarrow> nat \<Rightarrow> string \<Rightarrow> (('h, 'b, 'cfg, 'u) world, unit) go" where
  "httpBuffer_Prepend C b data = buffer_helper C b data PrependBuffer"

definition httpBuffer_AppendString ::
    "('h, 'b, 'cfg, 'u) world HttpCAPI \<Rightarrow> nat \<Rightarrow> string \<Rightarrow> (('h, 'b, 'cfg, 'u) world, unit) go" where
  "httpBuffer_AppendString C b s = buffer_helper C b s AppendBuffer"

definition httpBuffer_PrependString ::
    "('h, 'b, 'cfg, 'u) world HttpCAPI \<Rightarrow> nat \<Rightarrow> string \<Rightarrow> (('h, 'b, 'cfg, 'u) world, unit) go" where
  "httpBuffer_PrependString C b s = buffer_helper C b s PrependBuffer"

definition httpBuffer_Set ::
    "('h, 'b, 'cfg, 'u) world HttpCAPI \<Rightarrow> nat \<Rightarrow> string \<Rightarrow> (('h, 'b, 'cfg, 'u) world, unit) go" where
  "httpBuffer_Set C b data = buffer_helper C b data SetBuffer"

definition httpBuffer_SetString ::
    "('h, 'b, 'cfg, 'u) world HttpCAPI \<Rightarrow> nat \<Rightarrow> string \<Rightarrow> (('h, 'b, 'cfg, 'u) world, unit) go" where
  "httpBuffer_SetString C b s = buffer_helper C b s SetBuffer"

end
