(* ===== verification/Buffer_Contract.thy ===== *)
theory Buffer_Contract
  imports Http_Buffer
begin

text \<open>
  The contract of the buffer calls of \<open>HttpCAPI\<close>: the locale \<open>http_buffers\<close> states what
  \<open>HttpGetBuffer\<close> and \<open>HttpSetBufferHelper\<close> do to the buffer at an address, the client lemmas in it
  are about the methods of \<open>httpBuffer\<close>, and \<open>httpCApiImpl\<close> provides it. Looking a buffer up is
  not free of effects: \<open>checkExisting\<close> drops every buffer that was pushed before the one it finds.
\<close>

subsection \<open>Lookup in the list of buffers\<close>

lemma find_buffer_dropWhile: "find_buffer a (dropWhile (\<lambda>x. fst x \<noteq> a) q) = find_buffer a q"
  by (induction q) (auto simp: find_buffer_def)

lemma find_buffer_upd: "find_buffer a (upd_buffer a f q) = map_option f (find_buffer a q)"
  by (induction q) (auto simp: find_buffer_def upd_buffer_def)

lemma find_buffer_Some: "find_buffer a q = Some b \<Longrightarrow> a \<in> fst ` set q"
  unfolding find_buffer_def by (auto dest: map_of_SomeD intro: rev_image_eqI)

lemma find_buffer_None: "find_buffer a q = None \<Longrightarrow> a \<notin> fst ` set q"
  by (simp add: find_buffer_def map_of_eq_None_iff)

lemma upd_buffer_const:
  "find_buffer a q = Some b \<Longrightarrow> distinct (map fst q) \<Longrightarrow>
   upd_buffer a f q = upd_buffer a (\<lambda>_. f b) q"
  by (induction q) (force simp: find_buffer_def upd_buffer_def split: if_splits)+

definition filter_queue :: "'b Filter \<Rightarrow> (u64 \<times> 'b) list" where
  "filter_queue F = queue (doDataList (getProcessorState F))"

definition buffer_view :: "('h, 'b, 'cfg, 'u) world \<Rightarrow> nat \<Rightarrow> u64 \<Rightarrow> 'b outcome" where
  "buffer_view w r a = (case api_gate w r of
      Ok (i, F) \<Rightarrow>
        if distinct (map fst (filter_queue F)) then
          (case find_buffer a (filter_queue F) of
             None \<Rightarrow> Panic (PanicString ErrInvalidPhase)
           | Some b \<Rightarrow> Ok b)
        else Fault UseAfterFree
    | Panic p \<Rightarrow> Panic p
    | Fault f \<Rightarrow> Fault f)"

definition put_buffer ::
    "nat \<Rightarrow> u64 \<Rightarrow> 'b \<Rightarrow> ('h, 'b, 'cfg, 'u) world \<Rightarrow> ('h, 'b, 'cfg, 'u) world" where
  "put_buffer r a b w = (case api_gate w r of
      Ok (i, F) \<Rightarrow> w\<lparr>cside := put_filter i (put_queue ((doDataList (getProcessorState F))\<lparr>queue :=
          upd_buffer a (\<lambda>_. b) (dropWhile (\<lambda>x. fst x \<noteq> a) (filter_queue F))\<rparr>) F) (cside w)\<rparr>
    | _ \<Rightarrow> w)"

text \<open>A body operation on the bytes it stands for.\<close>

fun body_spec :: "BufferAction \<Rightarrow> string \<Rightarrow> string \<Rightarrow> string" where
  "body_spec SetBuffer s body = s"
| "body_spec AppendBuffer s body = body @ s"
| "body_spec PrependBuffer s body = s @ body"

fun body_specs :: "(BufferAction \<times> string) list \<Rightarrow> string \<Rightarrow> string" where
  "body_specs [] body = body"
| "body_specs ((act, s) # xs) body = body_specs xs (body_spec act s body)"

fun body_ops ::
    "('h, 'b, 'cfg, 'u) world HttpCAPI \<Rightarrow> nat \<Rightarrow> (BufferAction \<times> string) list \<Rightarrow>
     (('h, 'b, 'cfg, 'u) world, unit) go" where
  "body_ops C b [] = go_return ()"
| "body_ops C b ((SetBuffer, s) # xs) = go_then (httpBuffer_SetString C b s) (body_ops C b xs)"
| "body_ops C b ((AppendBuffer, s) # xs) = go_then (httpBuffer_AppendString C b s) (body_ops C b xs)"
| "body_ops C b ((PrependBuffer, s) # xs) = go_then (httpBuffer_PrependString C b s) (body_ops C b xs)"

text \<open>All the text involved stays below the limits of the C call (\<open>int\<close> lengths).\<close>

definition ops_fit :: "(BufferAction \<times> string) list \<Rightarrow> bool" where
  "ops_fit xs \<longleftrightarrow> (\<forall>(act, s) \<in> set xs. length s < 2 ^ 31)"

subsection \<open>The contract\<close>

locale http_buffers =
  fixes C :: "('h, 'b, 'cfg, 'u) world HttpCAPI"
    and E :: "('h, 'b) envoy"
    and view :: "('h, 'b, 'cfg, 'u) world \<Rightarrow> nat \<Rightarrow> u64 \<Rightarrow> 'b outcome"
    and put :: "nat \<Rightarrow> u64 \<Rightarrow> 'b \<Rightarrow> ('h, 'b, 'cfg, 'u) world \<Rightarrow> ('h, 'b, 'cfg, 'u) world"
  assumes helper_open: "view w r a = Ok b \<Longrightarrow> length s < 2 ^ 31 \<Longrightarrow>
        HttpSetBufferHelper C r a s act w = (Ok (), put r a (apply_action E (c_action act) s b) w)"
    and helper_closed: "view w r a = Panic p \<Longrightarrow> length s < 2 ^ 31 \<Longrightarrow>
        fst (HttpSetBufferHelper C r a s act w) = Panic p"
    and get_open: "view w r a = Ok b \<Longrightarrow> unat len \<le> 2 ^ 48 \<Longrightarrow> length (bi_bytes E b) \<le> unat len \<Longrightarrow>
        HttpGetBuffer C r a (set_buf_value h) len w =
          (Ok (), set_buf_value h (bi_bytes E b @ replicate (unat len - length (bi_bytes E b)) (CHR 0x00))
             (put r a b w))"
    and get_overflow: "view w r a = Ok b \<Longrightarrow> unat len \<le> 2 ^ 48 \<Longrightarrow> unat len < length (bi_bytes E b) \<Longrightarrow>
        fst (HttpGetBuffer C r a (set_buf_value h) len w) = Fault OutOfBounds"
    and view_put: "view w r a = Ok b \<Longrightarrow> view (put r a b' w) r a = Ok b'"
    and put_frame: "httpBuffers (put r a b' w) = httpBuffers w"
begin

lemma helper_step:
  assumes "httpBuffers w h = Some o'" "view w (buf_request o') (envoyBufferInstance o') = Ok b"
    and "length s < 2 ^ 31"
  shows "buffer_helper C h s act w = (Ok (),
    put (buf_request o') (envoyBufferInstance o') (apply_action E (c_action act) s b) w)"
  using assms helper_open [OF assms(2,3), of act] by (simp add: buffer_helper_def)

lemma apply_action_bytes:
  assumes "buffer_laws E" "length (bi_bytes E b) < 2 ^ 64"
  shows "bi_bytes E (apply_action E (c_action act) s b) = body_spec act s (bi_bytes E b)"
  using assms(2) buffer_lawsD [OF assms(1)]
  by (cases act) (simp_all add: apply_action_def unat_u64)

lemma body_ops_run:
  assumes laws: "buffer_laws E"
  shows "httpBuffers w h = Some o' \<Longrightarrow>
    view w (buf_request o') (envoyBufferInstance o') = Ok b \<Longrightarrow> ops_fit xs \<Longrightarrow>
    (\<forall>ys zs. xs = ys @ zs \<longrightarrow> length (body_specs ys (bi_bytes E b)) < 2 ^ 64) \<Longrightarrow>
    \<exists>w' b'. body_ops C h xs w = (Ok (), w') \<and> httpBuffers w' h = Some o' \<and>
      view w' (buf_request o') (envoyBufferInstance o') = Ok b' \<and>
      bi_bytes E b' = body_specs xs (bi_bytes E b)"
proof (induction xs arbitrary: w b)
  case Nil
  then show ?case by auto
next
  case (Cons x xs)
  obtain act s where x: "x = (act, s)" by (cases x)
  let ?b = "apply_action E (c_action act) s b"
  let ?w = "put (buf_request o') (envoyBufferInstance o') ?b w"
  have s: "length s < 2 ^ 31" and fit: "ops_fit xs"
    using Cons.prems(3) x by (auto simp: ops_fit_def)
  have len: "length (bi_bytes E b) < 2 ^ 64"
    using Cons.prems(4) by (metis append_Nil body_specs.simps(1))
  have bytes: "bi_bytes E ?b = body_spec act s (bi_bytes E b)"
    by (rule apply_action_bytes [OF laws len])
  have "\<forall>ys zs. xs = ys @ zs \<longrightarrow> length (body_specs ys (bi_bytes E ?b)) < 2 ^ 64"
    using Cons.prems(4) unfolding bytes x by (metis append_Cons body_specs.simps(2))
  from Cons.IH [of ?w ?b, OF _ _ fit this]
  obtain w' b' where "body_ops C h xs ?w = (Ok (), w')" "httpBuffers w' h = Some o'"
    "view w' (buf_request o') (envoyBufferInstance o') = Ok b'"
    "bi_bytes E b' = body_specs xs (bi_bytes E ?b)"
    using Cons.prems(1) view_put [OF Cons.prems(2)] by (auto simp: put_frame)
  moreover have "body_ops C h (x # xs) w = body_ops C h xs ?w"
    using helper_step [OF Cons.prems(1,2) s, of act]
    by (cases act) (simp_all add: x httpBuffer_SetString_def httpBuffer_AppendString_def
        httpBuffer_PrependString_def)
  ultimately show ?case using bytes x by auto
qed

text \<open>A read gives the body padded with zero bytes to the length of the handle.\<close>

lemma fetch_value_fits:
  assumes h: "httpBuffers w h = Some o'" "view w (buf_request o') (envoyBufferInstance o') = Ok b"
    and len: "buf_length o' \<noteq> 0" "unat (buf_length o') \<le> 2 ^ 48"
    and fits: "length (bi_bytes E b) \<le> unat (buf_length o')"
  shows "fst (fetch_value C h w) =
    Ok (bi_bytes E b @ replicate (unat (buf_length o') - length (bi_bytes E b)) (CHR 0x00))"
  using h len get_open [OF h(2) len(2) fits, of h]
  by (simp add: fetch_value_def set_buf_value_def put_frame)

lemma fetch_value_overflow:
  assumes h: "httpBuffers w h = Some o'" "view w (buf_request o') (envoyBufferInstance o') = Ok b"
    and len: "buf_length o' \<noteq> 0" "unat (buf_length o') \<le> 2 ^ 48"
    and over: "unat (buf_length o') < length (bi_bytes E b)"
  shows "fst (fetch_value C h w) = Fault OutOfBounds"
  using h len get_overflow [OF h(2) len(2) over, of h]
  by (auto simp: fetch_value_def split: prod.split outcome.split)

end

subsection \<open>The implementation provides the contract\<close>

lemma buffer_viewE:
  assumes "buffer_view w r a = Ok b"
  obtains i F where "api_gate w r = Ok (i, F)" "distinct (map fst (filter_queue F))"
    "find_buffer a (filter_queue F) = Some b"
  using assms by (auto simp: buffer_view_def split: outcome.splits option.splits if_splits)

lemma buffer_view_closedE:
  assumes "buffer_view w r a = Panic p"
  obtains (gate) "api_gate w r = Panic p"
  | (phase) i F where "api_gate w r = Ok (i, F)" "find_buffer a (filter_queue F) = None"
      "p = PanicString ErrInvalidPhase"
  using assms by (auto simp: buffer_view_def split: outcome.splits option.splits if_splits)

lemma getProcessorState_put_queue [simp]:
  "getProcessorState (put_queue q F) = (getProcessorState F)\<lparr>doDataList := q\<rparr>"
  by (simp add: getProcessorState_def put_queue_def setProcessorState_def)

lemma put_queue_fields [simp]:
  "has_destroyed (put_queue q F) = has_destroyed F"
  "headers_ptr (put_queue q F) = headers_ptr F"
  "trailers_ptr (put_queue q F) = trailers_ptr F"
  by (simp_all add: put_queue_def setProcessorState_def)

lemma isProcessingInGo_doDataList [simp]:
  "isProcessingInGo (p\<lparr>doDataList := q\<rparr>) = isProcessingInGo p"
  by (simp add: isProcessingInGo_def)

lemma api_gate_put_queue:
  assumes "api_gate w r = Ok (i, F)"
  shows "api_gate (w\<lparr>cside := put_filter i (put_queue q F) (cside w)\<rparr>) r = Ok (i, put_queue q F)"
  using assms by (elim gate_openE) (simp add: api_gate_def put_filter_def)

lemma c_len: "length s < 2 ^ 31 \<Longrightarrow> c_int_of_int (int (length s)) = int (length s)"
  by (rule c_int_of_int_id) simp_all

lemma impl_helper_eq:
  assumes "length s < 2 ^ 31"
  shows "impl_HttpSetBufferHelper E r a s act =
    go_bind (c_call r (\<lambda>p. moeHandlerWrapper id p (setBufferHelper E a (Some s) (c_action act))))
      handleCApiStatus"
  unfolding impl_HttpSetBufferHelper_def moeHttpSetBufferHelper_def c_len [OF assms] string_view_def
  by simp

lemma dropWhile_distinct:
  "distinct (map fst q) \<Longrightarrow> distinct (map fst (dropWhile P q))"
  by (induction q) (auto dest: set_dropWhileD)

lemma impl_helper_open:
  assumes "buffer_view w r a = Ok b" "length s < 2 ^ 31"
  shows "impl_HttpSetBufferHelper E r a s act w =
    (Ok (), put_buffer r a (apply_action E (c_action act) s b) w)"
proof -
  obtain i F where g: "api_gate w r = Ok (i, F)" and d: "distinct (map fst (filter_queue F))"
    and f: "find_buffer a (filter_queue F) = Some b"
    using assms(1) by (rule buffer_viewE)
  let ?q = "dropWhile (\<lambda>x. fst x \<noteq> a) (filter_queue F)"
  have "upd_buffer a (apply_action E (c_action act) s) ?q =
      upd_buffer a (\<lambda>_. apply_action E (c_action act) s b) ?q"
    using upd_buffer_const [of a ?q b] f d by (simp add: find_buffer_dropWhile dropWhile_distinct)
  then show ?thesis
    unfolding impl_helper_eq [OF assms(2)] setBufferHelper_def go_bind_apply gate_open [OF g]
    using g find_buffer_Some [OF f]
    by (simp add: checkExisting_eq put_buffer_def filter_queue_def)
qed

lemma impl_helper_closed:
  assumes "buffer_view w r a = Panic p" "length s < 2 ^ 31"
  shows "fst (impl_HttpSetBufferHelper E r a s act w) = Panic p"
  using assms(1)
proof (cases rule: buffer_view_closedE)
  case gate
  then have "impl_HttpSetBufferHelper E r a s act w = (Panic p, w)"
    unfolding impl_helper_eq [OF assms(2)] setBufferHelper_def
    by (rule gate_closed [where k' = "\<lambda>_. go_return ()"]) auto
  then show ?thesis by simp
next
  case (phase i F)
  then show ?thesis
    unfolding impl_helper_eq [OF assms(2)] setBufferHelper_def go_bind_apply gate_open [OF phase(1)]
    using find_buffer_None [OF phase(2)] by (simp add: checkExisting_eq filter_queue_def)
qed

lemma api_gate_set_buf_value [simp]: "api_gate (set_buf_value h v w) r = api_gate w r"
  by (rule api_gate_cong) (simp_all add: set_buf_value_def)

lemma memcpy_0: "memcpy 0 data buf =
    (if length data \<le> length buf then Some (data @ drop (length data) buf) else None)"
  by (simp add: memcpy_def)

lemma set_buf_value_twice:
  "set_buf_value h v ((set_buf_value h v' w)\<lparr>cside := c\<rparr>) = set_buf_value h v (w\<lparr>cside := c\<rparr>)"
  by (simp add: set_buf_value_def upd_httpBuffer_def option.map_comp comp_def)

lemma copyBuffer_found:
  assumes f: "find_buffer a (filter_queue F) = Some b" and F: "\<not> has_destroyed F"
    "isProcessingInGo (getProcessorState F)" and d: "distinct (map fst (filter_queue F))"
  shows "copyBuffer E a data i F c =
    (case memcpy 0 (bi_bytes E b) data of
       None \<Rightarrow> (Fault OutOfBounds, snd (copyBuffer E a data i F c))
     | Some data' \<Rightarrow> (Ok (CAPIOK, data'),
         put_filter i (put_queue ((doDataList (getProcessorState F))\<lparr>queue :=
           dropWhile (\<lambda>x. fst x \<noteq> a) (filter_queue F)\<rparr>) F) c))"
  using F find_buffer_Some [OF f] find_buffer_dropWhile [of a "filter_queue F"] f
  by (simp add: copyBuffer_def inGoGuard_def checkExisting_eq filter_queue_def split: option.split)

lemma upd_buffer_id:
  "find_buffer a q = Some b \<Longrightarrow> distinct (map fst q) \<Longrightarrow> upd_buffer a (\<lambda>_. b) q = q"
  using upd_buffer_const [of a q b "\<lambda>x. x"] by (simp add: upd_buffer_def)

lemma impl_get_open:
  assumes v: "buffer_view w r a = Ok b" and len: "unat len \<le> 2 ^ 48"
    and fits: "length (bi_bytes E b) \<le> unat len"
  shows "impl_HttpGetBuffer E r a (set_buf_value h) len w =
    (Ok (), set_buf_value h (bi_bytes E b @ replicate (unat len - length (bi_bytes E b)) (CHR 0x00))
       (put_buffer r a b w))"
proof -
  obtain i F where g: "api_gate w r = Ok (i, F)" and d: "distinct (map fst (filter_queue F))"
    and f: "find_buffer a (filter_queue F) = Some b"
    using v by (rule buffer_viewE)
  let ?z = "replicate (unat len) (CHR 0x00)"
  let ?w = "set_buf_value h ?z w"
  have g': "api_gate ?w r = Ok (i, F)" using g by simp
  have F: "\<not> has_destroyed F" "isProcessingInGo (getProcessorState F)"
    using g by (auto elim: gate_openE)
  have q: "upd_buffer a (\<lambda>_. b) (dropWhile (\<lambda>x. fst x \<noteq> a) (filter_queue F)) =
      dropWhile (\<lambda>x. fst x \<noteq> a) (filter_queue F)"
    using f d by (simp add: upd_buffer_id find_buffer_dropWhile dropWhile_distinct)
  have "c_call r (\<lambda>p. moeHttpGetBuffer E p a ?z) ?w = on_c (copyBuffer E a ?z i F) ?w"
    using gate_open [OF g', of "\<lambda>st. (st, ?z)"] F
    unfolding moeHttpGetBuffer_def copyBuffer_def by (simp add: inGoGuard_def)
  moreover have "cside ?w = cside w" by (simp add: set_buf_value_def)
  ultimately show ?thesis
    using len fits g
    by (simp add: impl_HttpGetBuffer_def copyBuffer_found [OF f F d] memcpy_0 put_buffer_def q
        set_buf_value_twice)
qed

lemma impl_get_overflow:
  assumes v: "buffer_view w r a = Ok b" and len: "unat len \<le> 2 ^ 48"
    and over: "unat len < length (bi_bytes E b)"
  shows "fst (impl_HttpGetBuffer E r a (set_buf_value h) len w) = Fault OutOfBounds"
proof -
  obtain i F where g: "api_gate w r = Ok (i, F)" and d: "distinct (map fst (filter_queue F))"
    and f: "find_buffer a (filter_queue F) = Some b"
    using v by (rule buffer_viewE)
  let ?z = "replicate (unat len) (CHR 0x00)"
  let ?w = "set_buf_value h ?z w"
  have g': "api_gate ?w r = Ok (i, F)" using g by simp
  have F: "\<not> has_destroyed F" "isProcessingInGo (getProcessorState F)"
    using g by (auto elim: gate_openE)
  have "c_call r (\<lambda>p. moeHttpGetBuffer E p a ?z) ?w = on_c (copyBuffer E a ?z i F) ?w"
    using gate_open [OF g', of "\<lambda>st. (st, ?z)"] F
    unfolding moeHttpGetBuffer_def copyBuffer_def by (simp add: inGoGuard_def)
  moreover obtain c where "copyBuffer E a ?z i F (cside w) = (Fault OutOfBounds, c)"
    using over copyBuffer_found [OF f F d, of E ?z i "cside w"] by (simp add: memcpy_0)
  moreover have "cside ?w = cside w" by (simp add: set_buf_value_def)
  ultimately show ?thesis
    using len by (simp add: impl_HttpGetBuffer_def)
qed

lemma buffer_view_put:
  assumes "buffer_view w r a = Ok b"
  shows "buffer_view (put_buffer r a b' w) r a = Ok b'"
proof -
  obtain i F where g: "api_gate w r = Ok (i, F)" and d: "distinct (map fst (filter_queue F))"
    and f: "find_buffer a (filter_queue F) = Some b"
    using assms by (rule buffer_viewE)
  let ?q = "upd_buffer a (\<lambda>_. b') (dropWhile (\<lambda>x. fst x \<noteq> a) (filter_queue F))"
  let ?F = "put_queue ((doDataList (getProcessorState F))\<lparr>queue := ?q\<rparr>) F"
  have "map fst ?q = map fst (dropWhile (\<lambda>x. fst x \<noteq> a) (filter_queue F))"
    by (simp add: upd_buffer_def case_prod_unfold)
  then have "distinct (map fst (filter_queue ?F))"
    using d by (simp add: filter_queue_def dropWhile_distinct)
  moreover have "find_buffer a (filter_queue ?F) = Some b'"
    using f by (simp add: filter_queue_def find_buffer_upd find_buffer_dropWhile)
  ultimately show ?thesis
    using api_gate_put_queue [OF g] g by (simp add: buffer_view_def put_buffer_def)
qed

lemma put_buffer_frame: "httpBuffers (put_buffer r a b w) = httpBuffers w"
  by (simp add: put_buffer_def split: outcome.split prod.split)

interpretation bufs: http_buffers "httpCApiImpl E" E buffer_view put_buffer for E
  by unfold_locales
    (simp_all add: impl_helper_open impl_helper_closed impl_get_open impl_get_overflow
      buffer_view_put put_buffer_frame)

text \<open>
  \<open>WriteByte\<close> appends the byte for the values below 128 and two bytes for the others, so that
  a binary body is not what was written.
\<close>

lemma write_byte_appends_utf8:
  assumes "buffer_laws E" "httpBuffers w h = Some o'"
    and "buffer_view w (buf_request o') (envoyBufferInstance o') = Ok b"
    and "length (bi_bytes E b) < 2 ^ 64"
  shows "\<exists>w' b'. httpBuffer_WriteByte (httpCApiImpl E) h p w = (Ok (), w') \<and>
    buffer_view w' (buf_request o') (envoyBufferInstance o') = Ok b' \<and>
    bi_bytes E b' = bi_bytes E b @ (if unat p < 128 then [char_of (unat p)] else string_of_byte p) \<and>
    length (bi_bytes E b') = length (bi_bytes E b) + (if unat p < 128 then 1 else 2)"
proof -
  have len: "length (string_of_byte p) < 2 ^ 31" by (simp add: length_string_of_byte)
  show ?thesis
    using bufs.helper_step [OF assms(2,3) len, of E AppendBuffer] bufs.view_put [OF assms(3)]
      bufs.apply_action_bytes [OF assms(1,4), of AppendBuffer "string_of_byte p"]
    by (simp add: httpBuffer_WriteByte_def length_string_of_byte string_of_byte_ascii)
qed

text \<open>Growing a body and reading it back through the same handle leaves the Go allocation.\<close>

lemma read_after_growth_overflows:
  assumes "buffer_laws E" "httpBuffers w h = Some o'"
    and "buffer_view w (buf_request o') (envoyBufferInstance o') = Ok b"
    and "buf_length o' \<noteq> 0" "unat (buf_length o') \<le> 2 ^ 48"
    and "length (bi_bytes E b) = unat (buf_length o')" "s \<noteq> []" "length s < 2 ^ 31"
  shows "fst (go_then (httpBuffer_AppendString (httpCApiImpl E) h s)
    (httpBuffer_String (httpCApiImpl E) h) w) = Fault OutOfBounds"
proof -
  let ?b = "apply_action E (c_action AppendBuffer) s b"
  let ?w = "put_buffer (buf_request o') (envoyBufferInstance o') ?b w"
  have "httpBuffer_AppendString (httpCApiImpl E) h s w = (Ok (), ?w)"
    using bufs.helper_step [OF assms(2,3,8), of E AppendBuffer] by (simp add: httpBuffer_AppendString_def)
  moreover have "bi_bytes E ?b = bi_bytes E b @ s"
    using bufs.apply_action_bytes [OF assms(1), of b AppendBuffer s] assms(5,6) by simp
  moreover have "fst (httpBuffer_String (httpCApiImpl E) h ?w) = Fault OutOfBounds"
    unfolding httpBuffer_String_def
    by (rule bufs.fetch_value_overflow [where o' = o' and b = ?b])
      (use assms calculation(2) in \<open>simp_all add: bufs.view_put put_buffer_frame\<close>)
  ultimately show ?thesis by simp
qed

end
