(* ===== verification/Header_Map.thy ===== *)
theory Header_Map
  imports Capi_Contract Strconv "HOL-Library.Multiset"
begin

text \<open>
  The header and trailer maps of \<^verbatim>\<open>pkg/http/type.go\<close>. A header map is a heap object with a cache,
  \<open>headers\<close>, filled from Envoy at the first read with the sizes Envoy announced when the phase
  began; writes go to the cache, if there is one, and to Envoy. The methods take the interface
  \<open>C\<close> they call and the pointer to the object. A Go map has no order of its own, so \<open>Range\<close> takes
  the order in which the runtime meets the keys.
\<close>

subsection \<open>headerMapImpl\<close>

definition headerMapImpl_ByteSize :: "nat \<Rightarrow> (('h, 'b, 'cfg, 'u) world, u64) go" where
  "headerMapImpl_ByteSize h = go_bind (deref headerMaps h) (\<lambda>o'. go_return (headerBytes o'))"

text \<open>\<^verbatim>\<open>if h.headers == nil { h.headers = cAPI.HttpCopyHeaders(...) }\<close>, then the map.\<close>

definition load_headers ::
    "('h, 'b, 'cfg, 'u) world HttpCAPI \<Rightarrow> nat \<Rightarrow> (('h, 'b, 'cfg, 'u) world, gomap) go" where
  "load_headers C h = go_bind (deref headerMaps h) (\<lambda>o'. case headers o' of
      Some m \<Rightarrow> go_return m
    | None \<Rightarrow> go_bind (HttpCopyHeaders C (request o') (headerNum o') (headerBytes o')) (\<lambda>m.
        go_then (go_modify (upd_headerMap h (\<lambda>o'. o'\<lparr>headers := Some m\<rparr>))) (go_return m)))"

definition headers_now :: "('h, 'b, 'cfg, 'u) world \<Rightarrow> nat \<Rightarrow> gomap" where
  "headers_now w h = (case headerMaps w h of
      None \<Rightarrow> Map.empty
    | Some o' \<Rightarrow> (case headers o' of None \<Rightarrow> Map.empty | Some m \<Rightarrow> m))"

text \<open>
  The loop of \<open>Range\<close> over the keys in the runtime's order; a key the callback has deleted in
  the meantime is not met.
\<close>

fun range_headers ::
    "nat \<Rightarrow> string list \<Rightarrow> (string \<Rightarrow> string \<Rightarrow> (('h, 'b, 'cfg, 'u) world, bool) go) \<Rightarrow>
     (('h, 'b, 'cfg, 'u) world, unit) go" where
  "range_headers h [] f = go_return ()"
| "range_headers h (k # ks) f = go_bind (go_gets (\<lambda>w. headers_now w h k)) (\<lambda>v. case v of
      None \<Rightarrow> range_headers h ks f
    | Some vs \<Rightarrow> go_bind (go_index vs 0) (\<lambda>x. go_bind (f k x) (\<lambda>more.
        if more then range_headers h ks f else go_return ())))"

definition headerMapImpl_Range ::
    "('h, 'b, 'cfg, 'u) world HttpCAPI \<Rightarrow> nat \<Rightarrow> (gomap \<Rightarrow> string list) \<Rightarrow>
     (string \<Rightarrow> string \<Rightarrow> (('h, 'b, 'cfg, 'u) world, bool) go) \<Rightarrow>
     (('h, 'b, 'cfg, 'u) world, unit) go" where
  "headerMapImpl_Range C h order f =
     go_bind (load_headers C h) (\<lambda>m. range_headers h (order m) f)"

definition headerMapImpl_Get ::
    "('h, 'b, 'cfg, 'u) world HttpCAPI \<Rightarrow> nat \<Rightarrow> string \<Rightarrow>
     (('h, 'b, 'cfg, 'u) world, string \<times> bool) go" where
  "headerMapImpl_Get C h key = go_bind (load_headers C h) (\<lambda>m. case m key of
      None \<Rightarrow> go_return ([], False)
    | Some value \<Rightarrow> go_bind (go_index value 0) (\<lambda>v. go_return (v, True)))"

definition headerMapImpl_Values ::
    "('h, 'b, 'cfg, 'u) world HttpCAPI \<Rightarrow> nat \<Rightarrow> string \<Rightarrow>
     (('h, 'b, 'cfg, 'u) world, string list) go" where
  "headerMapImpl_Values C h key = go_bind (load_headers C h) (\<lambda>m. case m key of
      None \<Rightarrow> go_return []
    | Some value \<Rightarrow> go_return value)"

definition upd_cache :: "nat \<Rightarrow> (gomap \<Rightarrow> gomap) \<Rightarrow> (('h, 'b, 'cfg, 'u) world, unit) go" where
  "upd_cache h f = go_modify (upd_headerMap h (\<lambda>o'. o'\<lparr>headers := map_option f (headers o')\<rparr>))"

definition headerMapImpl_Set ::
    "('h, 'b, 'cfg, 'u) world HttpCAPI \<Rightarrow> nat \<Rightarrow> string \<Rightarrow> string \<Rightarrow>
     (('h, 'b, 'cfg, 'u) world, unit) go" where
  "headerMapImpl_Set C h key value = go_bind (deref headerMaps h) (\<lambda>o'.
     go_then (go_when (headers o' \<noteq> None) (upd_cache h (\<lambda>m. m(key \<mapsto> [value]))))
       (HttpSetHeader C (request o') key value False))"

definition headerMapImpl_Add ::
    "('h, 'b, 'cfg, 'u) world HttpCAPI \<Rightarrow> nat \<Rightarrow> string \<Rightarrow> string \<Rightarrow>
     (('h, 'b, 'cfg, 'u) world, unit) go" where
  "headerMapImpl_Add C h key value = go_bind (deref headerMaps h) (\<lambda>o'.
     go_then (go_when (headers o' \<noteq> None) (upd_cache h (\<lambda>m. case m key of
          Some hdrs \<Rightarrow> m(key \<mapsto> hdrs @ [value])
        | None \<Rightarrow> m(key \<mapsto> [value]))))
       (HttpSetHeader C (request o') key value True))"

definition headerMapImpl_Del ::
    "('h, 'b, 'cfg, 'u) world HttpCAPI \<Rightarrow> nat \<Rightarrow> string \<Rightarrow> (('h, 'b, 'cfg, 'u) world, unit) go" where
  "headerMapImpl_Del C h key = go_bind (deref headerMaps h) (\<lambda>o'.
     go_then (go_when (headers o' \<noteq> None) (upd_cache h (\<lambda>m. m(key := None))))
       (HttpRemoveHeader C (request o') key))"

subsection \<open>requestHeaderMapImpl\<close>

definition requestHeaderMapImpl_GetRaw ::
    "('h, 'b, 'cfg, 'u) world HttpCAPI \<Rightarrow> nat \<Rightarrow> string \<Rightarrow> (('h, 'b, 'cfg, 'u) world, string) go" where
  "requestHeaderMapImpl_GetRaw C h key =
     go_bind (deref headerMaps h) (\<lambda>o'. HttpGetHeader C (request o') key [])"

definition requestHeaderMapImpl_Protocol ::
    "('h, 'b, 'cfg, 'u) world HttpCAPI \<Rightarrow> nat \<Rightarrow> (('h, 'b, 'cfg, 'u) world, string) go" where
  "requestHeaderMapImpl_Protocol C h =
     go_bind (headerMapImpl_Get C h '':protocol'') (\<lambda>(v, _). go_return v)"

definition requestHeaderMapImpl_Scheme ::
    "('h, 'b, 'cfg, 'u) world HttpCAPI \<Rightarrow> nat \<Rightarrow> (('h, 'b, 'cfg, 'u) world, string) go" where
  "requestHeaderMapImpl_Scheme C h =
     go_bind (headerMapImpl_Get C h '':scheme'') (\<lambda>(v, _). go_return v)"

definition requestHeaderMapImpl_Method ::
    "('h, 'b, 'cfg, 'u) world HttpCAPI \<Rightarrow> nat \<Rightarrow> (('h, 'b, 'cfg, 'u) world, string) go" where
  "requestHeaderMapImpl_Method C h =
     go_bind (headerMapImpl_Get C h '':method'') (\<lambda>(v, _). go_return v)"

definition requestHeaderMapImpl_Path ::
    "('h, 'b, 'cfg, 'u) world HttpCAPI \<Rightarrow> nat \<Rightarrow> (('h, 'b, 'cfg, 'u) world, string) go" where
  "requestHeaderMapImpl_Path C h =
     go_bind (headerMapImpl_Get C h '':path'') (\<lambda>(v, _). go_return v)"

definition requestHeaderMapImpl_Host ::
    "('h, 'b, 'cfg, 'u) world HttpCAPI \<Rightarrow> nat \<Rightarrow> (('h, 'b, 'cfg, 'u) world, string) go" where
  "requestHeaderMapImpl_Host C h =
     go_bind (headerMapImpl_Get C h '':authority'') (\<lambda>(v, _). go_return v)"

subsection \<open>responseHeaderMapImpl\<close>

definition responseHeaderMapImpl_GetRaw ::
    "('h, 'b, 'cfg, 'u) world HttpCAPI \<Rightarrow> nat \<Rightarrow> string \<Rightarrow> (('h, 'b, 'cfg, 'u) world, string) go" where
  "responseHeaderMapImpl_GetRaw C h key =
     go_bind (deref headerMaps h) (\<lambda>o'. HttpGetHeader C (request o') key [])"

definition responseHeaderMapImpl_Del ::
    "('h, 'b, 'cfg, 'u) world HttpCAPI \<Rightarrow> nat \<Rightarrow> string \<Rightarrow> (('h, 'b, 'cfg, 'u) world, unit) go" where
  "responseHeaderMapImpl_Del C h key = go_bind (deref headerMaps h) (\<lambda>o'.
     go_then (go_when (headers o' \<noteq> None) (upd_cache h (\<lambda>m. m(key := None))))
       (HttpRemoveHeader C (request o') key))"

text \<open>The error of \<^verbatim>\<open>strconv.Atoi\<close> is dropped.\<close>

definition responseHeaderMapImpl_Status ::
    "('h, 'b, 'cfg, 'u) world HttpCAPI \<Rightarrow> nat \<Rightarrow> (('h, 'b, 'cfg, 'u) world, int) go" where
  "responseHeaderMapImpl_Status C h =
     go_bind (headerMapImpl_Get C h '':status'') (\<lambda>(str, ok).
       if ok then go_return (fst (Atoi str)) else go_return 0)"

subsection \<open>headerTrailerMapImpl\<close>

definition headerTrailerMapImpl_ByteSize :: "nat \<Rightarrow> (('h, 'b, 'cfg, 'u) world, u64) go" where
  "headerTrailerMapImpl_ByteSize h =
     go_bind (deref trailerMaps h) (\<lambda>o'. go_return (headerBytes o'))"

definition headerTrailerMapImpl_Range ::
    "nat \<Rightarrow> (string \<Rightarrow> string \<Rightarrow> (('h, 'b, 'cfg, 'u) world, bool) go) \<Rightarrow>
     (('h, 'b, 'cfg, 'u) world, unit) go" where
  "headerTrailerMapImpl_Range h f = go_panic (PanicString ''unsupported yet'')"

definition load_trailers ::
    "('h, 'b, 'cfg, 'u) world HttpCAPI \<Rightarrow> nat \<Rightarrow> (('h, 'b, 'cfg, 'u) world, gomap) go" where
  "load_trailers C h = go_bind (deref trailerMaps h) (\<lambda>o'. case headers o' of
      Some m \<Rightarrow> go_return m
    | None \<Rightarrow> go_bind (HttpCopyTrailers C (request o') (headerNum o') (headerBytes o')) (\<lambda>m.
        go_then (go_modify (upd_trailerMap h (\<lambda>o'. o'\<lparr>headers := Some m\<rparr>))) (go_return m)))"

definition headerTrailerMapImpl_Get ::
    "('h, 'b, 'cfg, 'u) world HttpCAPI \<Rightarrow> nat \<Rightarrow> string \<Rightarrow>
     (('h, 'b, 'cfg, 'u) world, string \<times> bool) go" where
  "headerTrailerMapImpl_Get C h key = go_bind (load_trailers C h) (\<lambda>m. case m key of
      None \<Rightarrow> go_return ([], False)
    | Some value \<Rightarrow> go_bind (go_index value 0) (\<lambda>v. go_return (v, True)))"

definition headerTrailerMapImpl_Values ::
    "('h, 'b, 'cfg, 'u) world HttpCAPI \<Rightarrow> nat \<Rightarrow> string \<Rightarrow>
     (('h, 'b, 'cfg, 'u) world, string list) go" where
  "headerTrailerMapImpl_Values C h key = go_bind (load_trailers C h) (\<lambda>m. case m key of
      None \<Rightarrow> go_return []
    | Some value \<Rightarrow> go_return value)"

definition headerTrailerMapImpl_Set ::
    "('h, 'b, 'cfg, 'u) world HttpCAPI \<Rightarrow> nat \<Rightarrow> string \<Rightarrow> string \<Rightarrow>
     (('h, 'b, 'cfg, 'u) world, unit) go" where
  "headerTrailerMapImpl_Set C h key value = go_bind (deref trailerMaps h) (\<lambda>o'.
     go_then (go_when (headers o' \<noteq> None)
         (go_modify (upd_trailerMap h
            (\<lambda>o'. o'\<lparr>headers := map_option (\<lambda>m. m(key \<mapsto> [value])) (headers o')\<rparr>))))
       (HttpSetTrailer C (request o') key value))"

text \<open>\<^verbatim>\<open>TODO: add\<close>: the method body is empty.\<close>

definition headerTrailerMapImpl_Add ::
    "nat \<Rightarrow> string \<Rightarrow> string \<Rightarrow> (('h, 'b, 'cfg, 'u) world, unit) go" where
  "headerTrailerMapImpl_Add h key value = go_return ()"

definition headerTrailerMapImpl_Del ::
    "nat \<Rightarrow> string \<Rightarrow> (('h, 'b, 'cfg, 'u) world, unit) go" where
  "headerTrailerMapImpl_Del h key = go_panic (PanicString ''todo'')"

subsection \<open>The multimap a header object promises\<close>

text \<open>
  The specification: a map from names to lists of values, an empty list for an absent name. The
  operations of a header object are \<open>header_op\<close>s; \<open>spec_op\<close> runs one on the specification,
  \<open>impl_op\<close> calls the method.
\<close>

datatype header_op =
    OpGet string | OpValues string | OpSet string string | OpAdd string string | OpDel string

datatype header_result = ResGet string bool | ResValues "string list" | ResUnit

type_synonym multimap = "string \<Rightarrow> string list"

fun spec_op :: "multimap \<Rightarrow> header_op \<Rightarrow> header_result \<times> multimap" where
  "spec_op A (OpGet k) = (case A k of [] \<Rightarrow> ResGet [] False | v # _ \<Rightarrow> ResGet v True, A)"
| "spec_op A (OpValues k) = (ResValues (A k), A)"
| "spec_op A (OpSet k v) = (ResUnit, A(k := [v]))"
| "spec_op A (OpAdd k v) = (ResUnit, A(k := A k @ [v]))"
| "spec_op A (OpDel k) = (ResUnit, A(k := []))"

fun spec_ops :: "multimap \<Rightarrow> header_op list \<Rightarrow> header_result list \<times> multimap" where
  "spec_ops A [] = ([], A)"
| "spec_ops A (x # xs) = (case spec_op A x of (r, A') \<Rightarrow>
      (case spec_ops A' xs of (rs, A'') \<Rightarrow> (r # rs, A'')))"

fun impl_op ::
    "('h, 'b, 'cfg, 'u) world HttpCAPI \<Rightarrow> nat \<Rightarrow> header_op \<Rightarrow>
     (('h, 'b, 'cfg, 'u) world, header_result) go" where
  "impl_op C h (OpGet k) = go_bind (headerMapImpl_Get C h k) (\<lambda>(v, ok). go_return (ResGet v ok))"
| "impl_op C h (OpValues k) = go_bind (headerMapImpl_Values C h k) (\<lambda>vs. go_return (ResValues vs))"
| "impl_op C h (OpSet k v) = go_then (headerMapImpl_Set C h k v) (go_return ResUnit)"
| "impl_op C h (OpAdd k v) = go_then (headerMapImpl_Add C h k v) (go_return ResUnit)"
| "impl_op C h (OpDel k) = go_then (headerMapImpl_Del C h k) (go_return ResUnit)"

fun impl_ops ::
    "('h, 'b, 'cfg, 'u) world HttpCAPI \<Rightarrow> nat \<Rightarrow> header_op list \<Rightarrow>
     (('h, 'b, 'cfg, 'u) world, header_result list) go" where
  "impl_ops C h [] = go_return []"
| "impl_ops C h (x # xs) =
     go_bind (impl_op C h x) (\<lambda>r. go_bind (impl_ops C h xs) (\<lambda>rs. go_return (r # rs)))"

text \<open>
  The operations for which cache and Envoy agree: names in lower case, since Envoy lowers them
  and the cache does not, and values added only to headers that Envoy does not join.
\<close>

fun op_key :: "header_op \<Rightarrow> string" where
  "op_key (OpGet k) = k"
| "op_key (OpValues k) = k"
| "op_key (OpSet k v) = k"
| "op_key (OpAdd k v) = k"
| "op_key (OpDel k) = k"

fun is_read :: "header_op \<Rightarrow> bool" where
  "is_read (OpGet k) = True"
| "is_read (OpValues k) = True"
| "is_read _ = False"

definition proper_op :: "('h, 'b) envoy \<Rightarrow> header_op \<Rightarrow> bool" where
  "proper_op E x \<longleftrightarrow>
     env_lower E (op_key x) = op_key x \<and> (case x of OpAdd k v \<Rightarrow> hm_appends E k | _ \<Rightarrow> True)"

text \<open>A handle as \<open>moeOnHttpHeader\<close> makes it: no cache, and the sizes of the map it stands for.\<close>

definition fresh_handle :: "('h, 'b) envoy \<Rightarrow> 'h \<Rightarrow> headerMapImpl \<Rightarrow> bool" where
  "fresh_handle E m o' \<longleftrightarrow>
     headers o' = None \<and> copy_room (headerNum o') (headerBytes o') \<and>
     unat (headerNum o') = length (hm_iterate E m) \<and>
     entries_bytes (hm_iterate E m) \<le> unat (headerBytes o')"

end
