(* ===== verification/Header_Refine.thy ===== *)
theory Header_Refine
  imports Header_Map
begin

text \<open>
  Correctness of the header objects over any provider of the interface contract \<open>http_capi\<close>.
  After its first read a header object is a faithful multimap over the operations \<open>proper_op\<close>
  allows (\<open>tracks\<close>, kept by every operation). What happens outside of that is stated as well: a
  write before the first read makes the copy leave its allocation or invents an empty header.
\<close>

subsection \<open>Coherence of the cache with Envoy\<close>

definition coherent :: "('h, 'b) envoy \<Rightarrow> 'h \<Rightarrow> gomap \<Rightarrow> bool" where
  "coherent E m c \<longleftrightarrow> (\<forall>k. env_lower E k = k \<longrightarrow> c k = go_map (hm_iterate E m) k)"

definition represents :: "('h, 'b) envoy \<Rightarrow> 'h \<Rightarrow> multimap \<Rightarrow> bool" where
  "represents E m A \<longleftrightarrow> (\<forall>k. env_lower E k = k \<longrightarrow> vals k (hm_iterate E m) = A k)"

definition tracks ::
    "('h, 'b) envoy \<Rightarrow> (('h, 'b, 'cfg, 'u) world \<Rightarrow> nat \<Rightarrow> 'h outcome) \<Rightarrow> nat \<Rightarrow> nat \<Rightarrow> multimap \<Rightarrow>
     ('h, 'b, 'cfg, 'u) world \<Rightarrow> bool" where
  "tracks E view h r A w \<longleftrightarrow>
     (\<exists>o' m c. headerMaps w h = Some o' \<and> headers o' = Some c \<and> request o' = r \<and>
        view w r = Ok m \<and> coherent E m c \<and> represents E m A)"

lemma tracksE:
  assumes "tracks E view h r A w"
  obtains o' m c where "headerMaps w h = Some o'" "headers o' = Some c" "request o' = r"
    "view w r = Ok m" "coherent E m c" "represents E m A"
  using assms by (auto simp: tracks_def)

lemma coherentD: "coherent E m c \<Longrightarrow> env_lower E k = k \<Longrightarrow> c k = go_map (hm_iterate E m) k"
  by (simp add: coherent_def)

lemma representsD: "represents E m A \<Longrightarrow> env_lower E k = k \<Longrightarrow> vals k (hm_iterate E m) = A k"
  by (simp add: represents_def)

lemma coherent_lookup:
  assumes "coherent E m c" "represents E m A" "env_lower E k = k"
  shows "c k = (case A k of [] \<Rightarrow> None | vs \<Rightarrow> Some vs)"
  using assms by (simp add: coherentD representsD go_map_vals)

text \<open>One step of the cache and of Envoy, for a name in lower case.\<close>

lemma coherent_set:
  assumes "header_laws E" "coherent E m c"
  shows "coherent E (hm_setCopy E m k v) (c(k \<mapsto> [v]))"
  using assms by (auto simp: coherent_def go_map_vals header_lawsD)

lemma coherent_remove:
  assumes "header_laws E" "coherent E m c"
  shows "coherent E (hm_remove E m k) (c(k := None))"
  using assms by (auto simp: coherent_def go_map_vals header_lawsD)

lemma coherent_add:
  assumes "header_laws E" "coherent E m c" "hm_appends E k" "env_lower E k = k"
  shows "coherent E (hm_addCopy E m k v)
    (case c k of Some hdrs \<Rightarrow> c(k \<mapsto> hdrs @ [v]) | None \<Rightarrow> c(k \<mapsto> [v]))"
  using assms(2-4) header_lawsD(3) [OF assms(1)]
  by (auto simp: coherent_def hm_appends_def go_map_vals split: list.splits option.splits)

lemma represents_set:
  "header_laws E \<Longrightarrow> represents E m A \<Longrightarrow> represents E (hm_setCopy E m k v) (A(k := [v]))"
  by (auto simp: represents_def header_lawsD)

lemma represents_remove:
  "header_laws E \<Longrightarrow> represents E m A \<Longrightarrow> represents E (hm_remove E m k) (A(k := []))"
  by (auto simp: represents_def header_lawsD)

lemma represents_add:
  "header_laws E \<Longrightarrow> represents E m A \<Longrightarrow> hm_appends E k \<Longrightarrow> env_lower E k = k \<Longrightarrow>
   represents E (hm_addCopy E m k v) (A(k := A k @ [v]))"
  by (auto simp: represents_def hm_appends_def header_lawsD)

lemmas coherent_steps = coherent_set coherent_remove coherent_add
lemmas represents_steps = represents_set represents_remove represents_add

subsection \<open>Reads go through the loaded cache\<close>

fun read_result :: "gomap \<Rightarrow> header_op \<Rightarrow> ('w, header_result) go" where
  "read_result m (OpGet k) = (case m k of
      None \<Rightarrow> go_return (ResGet [] False)
    | Some vs \<Rightarrow> go_bind (go_index vs 0) (\<lambda>v. go_return (ResGet v True)))"
| "read_result m (OpValues k) = go_return (ResValues (case m k of None \<Rightarrow> [] | Some vs \<Rightarrow> vs))"
| "read_result m _ = go_return ResUnit"

lemma impl_read:
  "is_read x \<Longrightarrow> impl_op C h x = go_bind (load_headers C h) (\<lambda>m. read_result m x)"
  by (cases x) (auto simp: fun_eq_iff headerMapImpl_Get_def headerMapImpl_Values_def
      split: outcome.split option.split prod.split)

lemma load_headers_cached:
  "headerMaps w h = Some o' \<Longrightarrow> headers o' = Some c \<Longrightarrow> load_headers C h w = (Ok c, w)"
  by (simp add: load_headers_def)

lemma read_result_spec:
  assumes "is_read x" and "c (op_key x) = (case A (op_key x) of [] \<Rightarrow> None | vs \<Rightarrow> Some vs)"
  shows "read_result c x w = (Ok (fst (spec_op A x)), w) \<and> snd (spec_op A x) = A"
  using assms by (cases x) (auto split: list.splits)

subsection \<open>Over any provider\<close>

context http_capi
begin

lemma set_step:
  assumes laws: "header_laws E" and t: "tracks E view h r A w" and k: "env_lower E k = k"
  shows "\<exists>w'. headerMapImpl_Set C h k v w = (Ok (), w') \<and> tracks E view h r (A(k := [v])) w'"
proof -
  obtain o' m c where o': "headerMaps w h = Some o'" "headers o' = Some c" "request o' = r"
    and v: "view w r = Ok m" and c: "coherent E m c" "represents E m A"
    using t by (rule tracksE)
  let ?w = "upd_headerMap h (\<lambda>o'. o'\<lparr>headers := map_option (\<lambda>m. m(k \<mapsto> [v])) (headers o')\<rparr>) w"
  let ?m = "hm_setCopy E m k v"
  have view: "view ?w r = Ok m" using v by (simp add: view_frame)
  have "headerMapImpl_Set C h k v w = (Ok (), put r ?m ?w)"
    using o' set_open [OF view, of k v False] k
    by (simp add: headerMapImpl_Set_def upd_cache_def)
  moreover have "tracks E view h r (A(k := [v])) (put r ?m ?w)"
    using o' c laws by (auto simp: tracks_def put_frame view_put [OF view]
        intro: coherent_set represents_set)
  ultimately show ?thesis by blast
qed

lemma add_step:
  assumes laws: "header_laws E" and t: "tracks E view h r A w"
    and k: "env_lower E k = k" "hm_appends E k"
  shows "\<exists>w'. headerMapImpl_Add C h k v w = (Ok (), w') \<and> tracks E view h r (A(k := A k @ [v])) w'"
proof -
  obtain o' m c where o': "headerMaps w h = Some o'" "headers o' = Some c" "request o' = r"
    and v: "view w r = Ok m" and c: "coherent E m c" "represents E m A"
    using t by (rule tracksE)
  let ?w = "upd_headerMap h (\<lambda>o'. o'\<lparr>headers := map_option (\<lambda>m. case m k of
      Some hdrs \<Rightarrow> m(k \<mapsto> hdrs @ [v]) | None \<Rightarrow> m(k \<mapsto> [v])) (headers o')\<rparr>) w"
  let ?m = "hm_addCopy E m k v"
  have view: "view ?w r = Ok m" using v by (simp add: view_frame)
  have "headerMapImpl_Add C h k v w = (Ok (), put r ?m ?w)"
    using o' set_open [OF view, of k v True] k
    by (simp add: headerMapImpl_Add_def upd_cache_def)
  moreover have "tracks E view h r (A(k := A k @ [v])) (put r ?m ?w)"
    using o' c laws k by (auto simp: tracks_def put_frame view_put [OF view]
        intro: coherent_add represents_add)
  ultimately show ?thesis by blast
qed

lemma del_step:
  assumes laws: "header_laws E" and t: "tracks E view h r A w" and k: "env_lower E k = k"
  shows "\<exists>w'. headerMapImpl_Del C h k w = (Ok (), w') \<and> tracks E view h r (A(k := [])) w'"
proof -
  obtain o' m c where o': "headerMaps w h = Some o'" "headers o' = Some c" "request o' = r"
    and v: "view w r = Ok m" and c: "coherent E m c" "represents E m A"
    using t by (rule tracksE)
  let ?w = "upd_headerMap h (\<lambda>o'. o'\<lparr>headers := map_option (\<lambda>m. m(k := None)) (headers o')\<rparr>) w"
  let ?m = "hm_remove E m k"
  have view: "view ?w r = Ok m" using v by (simp add: view_frame)
  have "headerMapImpl_Del C h k w = (Ok (), put r ?m ?w)"
    using o' remove_open [OF view, of k] k
    by (simp add: headerMapImpl_Del_def upd_cache_def)
  moreover have "tracks E view h r (A(k := [])) (put r ?m ?w)"
    using o' c laws by (auto simp: tracks_def put_frame view_put [OF view]
        intro: coherent_remove represents_remove)
  ultimately show ?thesis by blast
qed

lemma read_step:
  assumes t: "tracks E view h r A w" and x: "is_read x" "env_lower E (op_key x) = op_key x"
  shows "impl_op C h x w = (Ok (fst (spec_op A x)), w) \<and> snd (spec_op A x) = A"
proof -
  obtain o' m c where o': "headerMaps w h = Some o'" "headers o' = Some c"
    and c: "coherent E m c" "represents E m A"
    using t by (rule tracksE)
  have "read_result c x w = (Ok (fst (spec_op A x)), w) \<and> snd (spec_op A x) = A"
    using read_result_spec [of x c A w] coherent_lookup [OF c x(2)] x(1) by simp
  then show ?thesis by (simp add: impl_read [OF x(1)] load_headers_cached [OF o'])
qed

lemma op_step:
  assumes laws: "header_laws E" and t: "tracks E view h r A w" and x: "proper_op E x"
  shows "\<exists>w'. impl_op C h x w = (Ok (fst (spec_op A x)), w') \<and> tracks E view h r (snd (spec_op A x)) w'"
proof (cases "is_read x")
  case True
  with read_step [OF t True] t x show ?thesis by (auto simp: proper_op_def)
next
  case False
  then consider (set) k v where "x = OpSet k v" | (add) k v where "x = OpAdd k v"
    | (del) k where "x = OpDel k" by (cases x) auto
  then show ?thesis
  proof cases
    case set
    with x set_step [OF laws t, of k v] show ?thesis by (auto simp: proper_op_def)
  next
    case add
    with x add_step [OF laws t, of k v] show ?thesis by (auto simp: proper_op_def)
  next
    case del
    with x del_step [OF laws t, of k] show ?thesis by (auto simp: proper_op_def)
  qed
qed

lemma ops_run:
  assumes laws: "header_laws E"
  shows "tracks E view h r A w \<Longrightarrow> \<forall>x \<in> set xs. proper_op E x \<Longrightarrow>
    \<exists>w'. impl_ops C h xs w = (Ok (fst (spec_ops A xs)), w') \<and>
      tracks E view h r (snd (spec_ops A xs)) w'"
proof (induction xs arbitrary: A w)
  case Nil
  then show ?case by auto
next
  case (Cons x xs)
  then obtain w1 where 1: "impl_op C h x w = (Ok (fst (spec_op A x)), w1)"
    "tracks E view h r (snd (spec_op A x)) w1"
    using op_step [OF laws, of h r A w x] by auto
  then obtain w2 where "impl_ops C h xs w1 = (Ok (fst (spec_ops (snd (spec_op A x)) xs)), w2)"
    "tracks E view h r (snd (spec_ops (snd (spec_op A x)) xs)) w2"
    using Cons.IH [OF 1(2)] Cons.prems(2) by auto
  with 1 show ?case by (auto simp: case_prod_unfold)
qed

text \<open>The first read of a fresh handle fills the cache with exactly what Envoy holds.\<close>

lemma load_fresh:
  assumes o': "headerMaps w h = Some o'" "request o' = r" and v: "view w r = Ok m"
    and f: "fresh_handle E m o'"
  shows "\<exists>w'. load_headers C h w = (Ok (go_map (hm_iterate E m)), w') \<and>
    headerMaps w' h = Some (o'\<lparr>headers := Some (go_map (hm_iterate E m))\<rparr>) \<and>
    (\<forall>A. represents E m A \<longrightarrow> tracks E view h r A w')"
proof -
  let ?c = "go_map (hm_iterate E m)"
  let ?w = "upd_headerMap h (\<lambda>o'. o'\<lparr>headers := Some ?c\<rparr>) w"
  have "load_headers C h w = (Ok ?c, ?w)"
    using o' f copy_open [OF v, of "headerNum o'" "headerBytes o'"]
    by (simp add: load_headers_def fresh_handle_def copy_result_def)
  moreover have "tracks E view h r A ?w" if "represents E m A" for A
    using o' that v by (auto simp: tracks_def view_frame coherent_def)
  ultimately show ?thesis using o'(1) by auto
qed

lemma fresh_ops_run:
  assumes laws: "header_laws E"
    and o': "headerMaps w h = Some o'" "request o' = r" and v: "view w r = Ok m"
    and f: "fresh_handle E m o'" and A: "represents E m A"
    and x: "is_read x" and xs: "\<forall>y \<in> set (x # xs). proper_op E y"
  shows "\<exists>w'. impl_ops C h (x # xs) w = (Ok (fst (spec_ops A (x # xs))), w') \<and>
    tracks E view h r (snd (spec_ops A (x # xs))) w'"
proof -
  obtain w1 where l: "load_headers C h w = (Ok (go_map (hm_iterate E m)), w1)"
    and h1: "headerMaps w1 h = Some (o'\<lparr>headers := Some (go_map (hm_iterate E m))\<rparr>)"
    and t: "tracks E view h r A w1"
    using load_fresh [OF o' v f] A by blast
  have "load_headers C h w1 = (Ok (go_map (hm_iterate E m)), w1)"
    using h1 by (simp add: load_headers_cached)
  then have "impl_op C h x w = impl_op C h x w1"
    using l by (simp add: impl_read [OF x])
  then have "impl_ops C h (x # xs) w = impl_ops C h (x # xs) w1" by simp
  then show ?thesis using ops_run [OF laws t xs] by simp
qed

subsection \<open>Writes before the first read\<close>

lemma fresh_set:
  assumes o': "headerMaps w h = Some o'" "headers o' = None" and v: "view w (request o') = Ok m"
  shows "headerMapImpl_Set C h k v w = (Ok (), put (request o') (hm_setCopy E m (env_lower E k) v) w)"
  using o' set_open [OF v, of k v False] by (simp add: headerMapImpl_Set_def)

lemma fresh_del:
  assumes o': "headerMaps w h = Some o'" "headers o' = None" and v: "view w (request o') = Ok m"
  shows "headerMapImpl_Del C h k w = (Ok (), put (request o') (hm_remove E m (env_lower E k)) w)"
  using o' remove_open [OF v, of k] by (simp add: headerMapImpl_Del_def)

lemma load_after:
  assumes o': "headerMaps w h = Some o'" "headers o' = None" and v: "view w (request o') = Ok m"
    and room: "copy_room (headerNum o') (headerBytes o')"
  shows "fst (load_headers C h (put (request o') m' w)) =
    copy_result (hm_iterate E m') (2 * unat (headerNum o')) (unat (headerBytes o'))"
  using o' copy_open [OF view_put [OF v] room, of m']
  by (auto simp: load_headers_def put_frame split: outcome.split)

end

text \<open>A new name makes the list of entries one longer, a removed one shorter.\<close>

lemma count_names: "count (mset (map fst es)) k = length (vals k es)"
  by (induction es) auto

lemma names_eq:
  assumes "\<And>k'. k' \<noteq> k \<Longrightarrow> vals k' es' = vals k' es"
  shows "length es' + length (vals k es) = length es + length (vals k es')"
proof -
  have "mset (map fst es') + replicate_mset (length (vals k es)) k =
      mset (map fst es) + replicate_mset (length (vals k es')) k"
  proof (rule multiset_eqI)
    fix x show "count (mset (map fst es') + replicate_mset (length (vals k es)) k) x =
        count (mset (map fst es) + replicate_mset (length (vals k es')) k) x"
      by (cases "x = k") (simp_all add: count_names assms del: mset_map)
  qed
  then have "size (mset (map fst es') + replicate_mset (length (vals k es)) k) =
      size (mset (map fst es) + replicate_mset (length (vals k es')) k)" by simp
  then show ?thesis by simp
qed

lemma length_set_new:
  assumes "header_laws E" "vals k (hm_iterate E m) = []"
  shows "length (hm_iterate E (hm_setCopy E m k v)) = Suc (length (hm_iterate E m))"
  using names_eq [of k "hm_iterate E (hm_setCopy E m k v)" "hm_iterate E m"] assms
  by (simp add: header_lawsD)

lemma length_remove:
  assumes "header_laws E"
  shows "length (hm_iterate E (hm_remove E m k)) + length (vals k (hm_iterate E m)) =
    length (hm_iterate E m)"
  using names_eq [of k "hm_iterate E (hm_remove E m k)" "hm_iterate E m"] assms
  by (simp add: header_lawsD)

text \<open>
  The status of a response is the number its header spells, and 0 when the header is missing or
  spells none.
\<close>

lemma response_status_reads:
  assumes "headerMaps w h = Some o'" "headers o' = Some c"
  shows "(\<forall>n vs. c '':status'' = Some (FormatUint n # vs) \<longrightarrow> n < 2 ^ 63 \<longrightarrow>
      responseHeaderMapImpl_Status C h w = (Ok (int n), w)) \<and>
    (c '':status'' = None \<longrightarrow> responseHeaderMapImpl_Status C h w = (Ok 0, w)) \<and>
    (\<forall>s vs. c '':status'' = Some (s # vs) \<longrightarrow> snd (Atoi s) = Some ErrSyntax \<longrightarrow>
      responseHeaderMapImpl_Status C h w = (Ok 0, w))"
proof -
  have "fst (Atoi s) = 0" if "snd (Atoi s) = Some ErrSyntax" for s
    using that by (auto simp: Atoi_def Let_def split: if_splits sum.splits parse_error.splits)
  then show ?thesis
    using assms by (auto simp: responseHeaderMapImpl_Status_def headerMapImpl_Get_def
        load_headers_cached Atoi_FormatUint)
qed

text \<open>
  Deleting a header before the first read leaves a header with an empty name and an empty value in the
  map the filter sees, one value for each entry that is gone.
\<close>

lemma delete_before_read_phantom:
  assumes "header_laws E" "headerMaps w h = Some o'" "header_view w (request o') = Ok m"
    and "fresh_handle E m o'" "entries_bytes (hm_iterate E (hm_remove E m (env_lower E k))) \<le>
      entries_bytes (hm_iterate E m)"
    and "vals (env_lower E k) (hm_iterate E m) \<noteq> []"
    and "vals [] (hm_iterate E (hm_remove E m (env_lower E k))) = []"
  shows "fst (go_then (headerMapImpl_Del (httpCApiImpl E) h k)
      (headerMapImpl_Values (httpCApiImpl E) h []) w) =
    Ok (replicate (length (vals (env_lower E k) (hm_iterate E m))) [])"
proof -
  let ?m = "hm_remove E m (env_lower E k)"
  let ?n = "length (vals (env_lower E k) (hm_iterate E m))"
  have o': "headers o' = None" "copy_room (headerNum o') (headerBytes o')"
    "unat (headerNum o') = length (hm_iterate E m)"
    "entries_bytes (hm_iterate E m) \<le> unat (headerBytes o')"
    using assms(4) by (simp_all add: fresh_handle_def)
  have len: "length (hm_iterate E ?m) + ?n = length (hm_iterate E m)"
    by (rule length_remove [OF assms(1)])
  then have n: "length (hm_iterate E m) - length (hm_iterate E ?m) = ?n" by simp
  have "fst (load_headers (httpCApiImpl E) h (put_header (request o') ?m w)) =
      Ok (go_map (hm_iterate E ?m @ replicate ?n ([], [])))"
    unfolding capi.load_after [OF assms(2) o'(1) assms(3) o'(2)]
    using len assms(5) o'(3,4) n by (simp add: copy_result_def)
  moreover have "go_map (hm_iterate E ?m @ replicate ?n ([], [])) [] = Some (replicate ?n [])"
  proof -
    have "vals [] (replicate n ([], [])) = replicate n []" for n by (induction n) auto
    then show ?thesis using assms(6,7) by (simp add: go_map_Some_iff)
  qed
  ultimately show ?thesis
    using capi.fresh_del [OF assms(2) o'(1) assms(3), of E k]
    by (auto simp: headerMapImpl_Values_def split: prod.split outcome.split)
qed

end
