(* ===== verification/Request.thy ===== *)
theory Request
  imports Buffer_Contract Header_Refine
begin

text \<open>
  \<^verbatim>\<open>pkg/http/filter.go\<close>: the methods of \<open>httpRequest\<close>, the object a filter holds as its callback
  handler, and of \<open>streamInfo\<close>. \<open>RecoverPanic\<close> and \<open>safeReplyPanic\<close> call each other, so they
  carry fuel: one unit per entry into \<open>RecoverPanic\<close>. The lemmas show that two units are enough
  on the implementation of the API, and what each panic value leads to.
\<close>

subsection \<open>Methods\<close>

text \<open>A field of the C struct that a Go \<^verbatim>\<open>*C.httpRequest\<close> points to.\<close>

definition c_field :: "(httpRequestInternal \<Rightarrow> 'a) \<Rightarrow> nat \<Rightarrow> (('h, 'b, 'cfg, 'u) world, 'a) go" where
  "c_field sel p = (\<lambda>w. case creqs (cside w) p of
      None \<Rightarrow> (Fault UseAfterFree, w)
    | Some q \<Rightarrow> (Ok (sel q), w))"

definition httpRequest_Phase :: "nat \<Rightarrow> (('h, 'b, 'cfg, 'u) world, string) go" where
  "httpRequest_Phase r =
     go_bind (deref httpRequests r) (\<lambda>q.
     go_bind (c_field phase (req q)) (\<lambda>ph.
     go_return (EnvoyRequestPhase_String ph)))"

definition httpRequest_Continue ::
    "('h, 'b, 'cfg, 'u) world HttpCAPI \<Rightarrow> nat \<Rightarrow> StatusType \<Rightarrow> (('h, 'b, 'cfg, 'u) world, unit) go" where
  "httpRequest_Continue C r status =
     (if status = LocalReply then go_return () else HttpContinue C r (status_to_u64 status))"

definition httpRequest_SendLocalReply ::
    "('h, 'b, 'cfg, 'u) world HttpCAPI \<Rightarrow> nat \<Rightarrow> int \<Rightarrow> string \<Rightarrow> (string \<times> string) list \<Rightarrow> int \<Rightarrow>
     string \<Rightarrow> (('h, 'b, 'cfg, 'u) world, unit) go" where
  "httpRequest_SendLocalReply C r responseCode bodyText hdrs grpcStatus details =
     HttpSendLocalReply C r responseCode bodyText hdrs grpcStatus details"

definition set_request ::
    "(httpRequest \<Rightarrow> httpRequest) \<Rightarrow> nat \<Rightarrow> (('h, 'b, 'cfg, 'u) world, unit) go" where
  "set_request f r = go_bind (deref httpRequests r) (\<lambda>_. go_modify (upd_request r f))"

definition panic_reply_body :: string where
  "panic_reply_body = ''error happened in Go filter'' @ [CHR 0x0D, CHR 0x0A]"

definition impossible :: panic_value where
  "impossible = PanicString ''impossible''"

fun safeReplyPanic ::
    "('h, 'b, 'cfg, 'u) world HttpCAPI \<Rightarrow> nat \<Rightarrow> nat \<Rightarrow> (('h, 'b, 'cfg, 'u) world, unit) go"
  and RecoverPanic ::
    "('h, 'b, 'cfg, 'u) world HttpCAPI \<Rightarrow> nat \<Rightarrow> nat \<Rightarrow> panic_value \<Rightarrow>
     (('h, 'b, 'cfg, 'u) world, unit) go" where
  "safeReplyPanic C n r =
     go_then (set_request (safePanic_update (\<lambda>_. True)) r)
       (go_recover ()
         (go_then (httpRequest_SendLocalReply C r 500 panic_reply_body [] 0 [])
           (set_request (safePanic_update (\<lambda>_. False)) r))
         (RecoverPanic C n r))"
| "RecoverPanic C 0 r e = go_fault OutOfFuel"
| "RecoverPanic C (Suc n) r e =
     go_then (httpRequest_Phase r)
       (if e = PanicString ErrRequestFinished \<or> e = PanicString ErrFilterDestroyed then go_return ()
        else if e = PanicString ErrNotInGo then set_request (paniced_update (\<lambda>_. True)) r
        else go_bind (deref httpRequests r) (\<lambda>q.
          if safePanic q then go_panic impossible else safeReplyPanic C n r))"

text \<open>The fuel at which the callbacks of the library run.\<close>

definition recover_fuel :: nat where
  "recover_fuel = 2"

definition httpRequest_Finalize ::
    "('h, 'b, 'cfg, 'u) world HttpCAPI \<Rightarrow> nat \<Rightarrow> int \<Rightarrow> (('h, 'b, 'cfg, 'u) world, unit) go" where
  "httpRequest_Finalize C r reason = HttpFinalize C r reason"

text \<open>\<^verbatim>\<open>streamInfo\<close> and \<^verbatim>\<open>dynamicMetadata\<close> only hold the request; both are named by it.\<close>

definition httpRequest_StreamInfo :: "nat \<Rightarrow> nat" where
  "httpRequest_StreamInfo r = r"

definition streamInfo_GetRouteName ::
    "('h, 'b, 'cfg, 'u) world HttpCAPI \<Rightarrow> nat \<Rightarrow> (('h, 'b, 'cfg, 'u) world, string) go" where
  "streamInfo_GetRouteName C s = HttpGetRouteName C s"

subsection \<open>Calls of the API that are one event\<close>

lemma c_field_apply [simp]:
  "c_field sel p w = (case creqs (cside w) p of
     None \<Rightarrow> (Fault UseAfterFree, w) | Some q \<Rightarrow> (Ok (sel q), w))"
  by (simp add: c_field_def)

lemma set_request_apply [simp]:
  "set_request f r w = (case httpRequests w r of
     None \<Rightarrow> (Panic nil_deref, w) | Some _ \<Rightarrow> (Ok (), upd_request r f w))"
  by (simp add: set_request_def split: option.split)

definition post_event ::
    "nat \<Rightarrow> posted_event \<Rightarrow> ('h, 'b, 'cfg, 'u) world \<Rightarrow> ('h, 'b, 'cfg, 'u) world" where
  "post_event r e w = (case api_gate w r of
      Ok (i, F) \<Rightarrow> w\<lparr>cside := post i e (cside w)\<rparr>
    | _ \<Rightarrow> w)"

lemma api_gate_post [simp]: "api_gate (w\<lparr>cside := post i e (cside w)\<rparr>) r = api_gate w r"
  by (rule api_gate_cong) (simp_all add: post_def)

lemma api_gate_upd_request [simp]:
  assumes "\<And>q. req (f q) = req q"
  shows "api_gate (upd_request r' f w) r = api_gate w r"
  using assms by (cases "r' = r") (auto simp: api_gate_def split: option.split)

text \<open>A call whose body posts one event: done when the gate is open, its error otherwise.\<close>

lemma post_call:
  "go_bind (c_call r (\<lambda>p. moeHandlerWrapper id p (inGoGuard id (\<lambda>i F.
      go_then (go_modify (post i e)) (go_return CAPIOK))))) handleCApiStatus w =
    (case api_gate w r of
       Ok _ \<Rightarrow> (Ok (), post_event r e w) | Panic p \<Rightarrow> (Panic p, w) | Fault f \<Rightarrow> (Fault f, w))"
proof (cases "api_gate w r")
  case (Ok x)
  obtain i F where x: "x = (i, F)" by (cases x)
  show ?thesis
    unfolding go_bind_apply gate_open [OF Ok [unfolded x]] by (simp add: Ok x post_event_def)
next
  case (Panic p)
  have "go_bind (c_call r (\<lambda>q. moeHandlerWrapper id q (inGoGuard id (\<lambda>i F.
      go_then (go_modify (post i e)) (go_return CAPIOK))))) handleCApiStatus w = (Panic p, w)"
    by (rule gate_closed [where k' = "\<lambda>_. go_return ()", OF Panic]) auto
  with Panic show ?thesis by simp
next
  case (Fault f)
  show ?thesis unfolding go_bind_apply gate_fault [OF Fault] by (simp add: Fault)
qed

lemma impl_HttpContinue_eq:
  "impl_HttpContinue r status w = (case api_gate w r of
     Ok _ \<Rightarrow> (Ok (), post_event r (PostContinue (golangStatus (c_int status))) w)
   | Panic p \<Rightarrow> (Panic p, w) | Fault f \<Rightarrow> (Fault f, w))"
  unfolding impl_HttpContinue_def moeHttpContinue_def continueStatus_def by (rule post_call)

definition reply_event :: "int \<Rightarrow> string \<Rightarrow> int \<Rightarrow> string \<Rightarrow> posted_event" where
  "reply_event code body grpc details = PostLocalReply (c_int_of_int code) body grpc details"

definition continue_event :: posted_event where
  "continue_event = PostContinue (golangStatus (c_int (status_to_u64 Continue)))"

lemma impl_HttpSendLocalReply_eq:
  "impl_HttpSendLocalReply r code body hdrs grpc details w = (case api_gate w r of
     Ok _ \<Rightarrow> (Ok (), post_event r (reply_event code body grpc details) w)
   | Panic p \<Rightarrow> (Panic p, w) | Fault f \<Rightarrow> (Fault f, w))"
  unfolding impl_HttpSendLocalReply_def moeHttpSendLocalReply_def sendLocalReply_def Let_def
    reply_event_def by (rule post_call)

lemma httpRequest_Continue_eq:
  "httpRequest_Continue (httpCApiImpl E) r Continue w = (case api_gate w r of
     Ok _ \<Rightarrow> (Ok (), post_event r continue_event w)
   | Panic p \<Rightarrow> (Panic p, w) | Fault f \<Rightarrow> (Fault f, w))"
  by (simp add: httpRequest_Continue_def impl_HttpContinue_eq continue_event_def
      split: outcome.split)

text \<open>The other calls that the gate turns away.\<close>

lemma impl_HttpGetHeader_closed:
  "api_gate w r = Panic p \<Longrightarrow> impl_HttpGetHeader E r k v w = (Panic p, w)"
  unfolding impl_HttpGetHeader_def moeHttpGetHeader_def getHeader_def
  by (rule gate_closed [where k' = "\<lambda>_. go_return v"]) auto

lemma impl_HttpSetTrailer_closed:
  "api_gate w r = Panic p \<Longrightarrow> impl_HttpSetTrailer E r k v w = (Panic p, w)"
  unfolding impl_HttpSetTrailer_def moeHttpSetTrailer_def setTrailer_def
  by (rule gate_closed [where k' = "\<lambda>_. go_return ()"]) auto

lemma impl_HttpGetRouteName_closed:
  "api_gate w r = Panic p \<Longrightarrow> impl_HttpGetRouteName E r w = (Panic p, w)"
  unfolding impl_HttpGetRouteName_def moeHttpGetStringValue_def getStringValue_def
  by (rule gate_closed [where k' = "\<lambda>_. go_return []"]) auto

lemma header_view_gate: "api_gate w r = Panic p \<Longrightarrow> header_view w r = Panic p"
  by (simp add: header_view_def)

subsection \<open>What recovering does\<close>

text \<open>
  The panic value \<open>e\<close> of a filter decides: a request that is gone is left alone, one that is not
  in Go is marked, everything else is answered with status 500.
\<close>

definition panic_reply :: posted_event where
  "panic_reply = reply_event 500 panic_reply_body 0 []"

definition reply_failed :: "panic_value \<Rightarrow> httpRequest \<Rightarrow> httpRequest" where
  "reply_failed p q =
     (if p = PanicString ErrNotInGo then q\<lparr>safePanic := True, paniced := True\<rparr>
      else q\<lparr>safePanic := True\<rparr>)"

definition reply_spec ::
    "nat \<Rightarrow> ('h, 'b, 'cfg, 'u) world \<Rightarrow> unit outcome \<times> ('h, 'b, 'cfg, 'u) world" where
  "reply_spec r w = (case api_gate w r of
     Ok _ \<Rightarrow> (Ok (), upd_request r (safePanic_update (\<lambda>_. False)) (post_event r panic_reply w))
   | Panic p \<Rightarrow> (Ok (), upd_request r (reply_failed p) w)
   | Fault f \<Rightarrow> (Fault f, upd_request r (safePanic_update (\<lambda>_. True)) w))"

definition recover_spec ::
    "nat \<Rightarrow> panic_value \<Rightarrow> ('h, 'b, 'cfg, 'u) world \<Rightarrow>
     unit outcome \<times> ('h, 'b, 'cfg, 'u) world" where
  "recover_spec r e w = (case httpRequests w r of
     None \<Rightarrow> (Panic nil_deref, w)
   | Some q \<Rightarrow>
       if creqs (cside w) (req q) = None then (Fault UseAfterFree, w)
       else if e \<in> {PanicString ErrRequestFinished, PanicString ErrFilterDestroyed} then (Ok (), w)
       else if e = PanicString ErrNotInGo then (Ok (), upd_request r (paniced_update (\<lambda>_. True)) w)
       else if safePanic q then (Panic impossible, w)
       else reply_spec r w)"

lemma upd_request_upd:
  "upd_request r f (upd_request r g w) = upd_request r (f \<circ> g) w"
  by (simp add: upd_request_def option.map_comp comp_def)

lemma upd_request_cong:
  "(\<And>q. httpRequests w r = Some q \<Longrightarrow> f q = g q) \<Longrightarrow> upd_request r f w = upd_request r g w"
  by (cases "httpRequests w r") (simp_all add: upd_request_def)

lemma post_event_upd_request:
  assumes "\<And>q. req (f q) = req q"
  shows "post_event r e (upd_request r' f w) = upd_request r' f (post_event r e w)"
  using api_gate_upd_request [of f r' w r, OF assms]
  by (simp add: post_event_def upd_request_def split: outcome.split prod.split)

lemma post_event_requests [simp]: "httpRequests (post_event r e w) = httpRequests w"
  by (simp add: post_event_def split: outcome.split prod.split)

text \<open>A gate that is closed while the request and its C struct exist gives one of three errors.\<close>

lemma api_gate_errors:
  assumes "api_gate w r = Panic p" "httpRequests w r \<noteq> None"
  shows "p \<in> {PanicString ErrRequestFinished, PanicString ErrFilterDestroyed, PanicString ErrNotInGo}"
  using assms by (auto simp: api_gate_def split: option.splits if_splits)

lemma httpRequest_Phase_live:
  assumes "httpRequests w r = Some q" "creqs (cside w) (req q) = Some cq"
  shows "httpRequest_Phase r w = (Ok (EnvoyRequestPhase_String (phase cq)), w)"
  using assms by (simp add: httpRequest_Phase_def)

lemma safeReplyPanic_spec:
  assumes "httpRequests w r = Some q" "creqs (cside w) (req q) = Some cq"
  shows "safeReplyPanic (httpCApiImpl E) (Suc n) r w = reply_spec r w"
proof -
  let ?w = "upd_request r (safePanic_update (\<lambda>_. True)) w"
  have gate: "api_gate ?w r = api_gate w r" by simp
  note ph = httpRequest_Phase_live [of ?w r "q\<lparr>safePanic := True\<rparr>" cq]
  show ?thesis
  proof (cases "api_gate w r")
    case (Ok x)
    then show ?thesis
      using assms by (simp add: httpRequest_SendLocalReply_def impl_HttpSendLocalReply_eq
          reply_spec_def panic_reply_def post_event_upd_request upd_request_upd comp_def)
  next
    case (Panic p)
    have "RecoverPanic (httpCApiImpl E) (Suc n) r p ?w = (Ok (), upd_request r (reply_failed p) w)"
    proof (cases "p = PanicString ErrNotInGo")
      case True
      with assms ph show ?thesis
        by (auto simp: upd_request_upd reply_failed_def simp del: safeReplyPanic.simps
            intro!: upd_request_cong)
    next
      case False
      then have "p \<in> {PanicString ErrRequestFinished, PanicString ErrFilterDestroyed}"
        using api_gate_errors [OF Panic] assms by simp
      with False assms ph show ?thesis
        by (auto simp: reply_failed_def simp del: safeReplyPanic.simps intro!: upd_request_cong)
    qed
    then show ?thesis
      using assms Panic by (simp add: httpRequest_SendLocalReply_def impl_HttpSendLocalReply_eq
          reply_spec_def del: RecoverPanic.simps)
  next
    case (Fault f)
    then show ?thesis
      using assms by (simp add: httpRequest_SendLocalReply_def impl_HttpSendLocalReply_eq
          reply_spec_def)
  qed
qed

lemma RecoverPanic_spec:
  assumes "1 < n"
  shows "RecoverPanic (httpCApiImpl E) n r e w = recover_spec r e w"
proof -
  obtain m where n: "n = Suc (Suc m)"
    using assms by (cases n rule: nat.exhaust; cases "n - 1") auto
  show ?thesis
  proof (cases "httpRequests w r")
    case None
    then show ?thesis by (simp add: n httpRequest_Phase_def recover_spec_def)
  next
    case q: (Some q)
    show ?thesis
    proof (cases "creqs (cside w) (req q)")
      case None
      with q show ?thesis by (simp add: n httpRequest_Phase_def recover_spec_def)
    next
      case cq: (Some cq)
      have "RecoverPanic (httpCApiImpl E) n r e w =
          (if e = PanicString ErrRequestFinished \<or> e = PanicString ErrFilterDestroyed
           then go_return ()
           else if e = PanicString ErrNotInGo then set_request (paniced_update (\<lambda>_. True)) r
           else go_bind (deref httpRequests r) (\<lambda>q.
             if safePanic q then go_panic impossible
             else safeReplyPanic (httpCApiImpl E) (Suc m) r)) w"
        by (simp only: n RecoverPanic.simps go_then_apply go_bind_apply
            httpRequest_Phase_live [OF q cq] prod.case outcome.case)
      then show ?thesis
        using q cq safeReplyPanic_spec [OF q cq, of E m]
        by (simp add: recover_spec_def del: safeReplyPanic.simps RecoverPanic.simps)
    qed
  qed
qed

text \<open>
  The headers a filter gives with a local reply never reach Envoy, and \<open>Continue\<close> with the status
  \<open>LocalReply\<close> does nothing.
\<close>

lemma reply_headers_are_dropped:
  "httpRequest_SendLocalReply (httpCApiImpl E) r code body hdrs grpc details w =
     httpRequest_SendLocalReply (httpCApiImpl E) r code body [] grpc details w \<and>
   httpRequest_Continue (httpCApiImpl E) r LocalReply w = (Ok (), w)"
  by (simp add: httpRequest_SendLocalReply_def impl_HttpSendLocalReply_eq httpRequest_Continue_def)

end
