(* ===== verification/Config.thy ===== *)
theory Config
  imports Request Keyed_Store
begin

text \<open>
  Plugin registration and configuration: \<^verbatim>\<open>pkg/http/filtermanager.go\<close>, \<^verbatim>\<open>config.go\<close> and
  \<^verbatim>\<open>passthrough.go\<close>, with the interfaces of \<^verbatim>\<open>pkg/api/filter.go\<close> that a plugin implements. A
  plugin is a record: the two package variables a plugin registers, and the methods of the filter
  objects it creates, by handle. The configuration cache provides the
  interface \<open>keyed_store\<close>.
\<close>

subsection \<open>The interfaces of a plugin\<close>

text \<open>
  A header map, trailer map or buffer is passed by its handle in the heap of its struct; a filter
  and its callbacks (the request) likewise. A nil interface is \<open>None\<close>.
\<close>

record 'w HttpFilter =
  DecodeHeaders :: "nat \<Rightarrow> bool \<Rightarrow> ('w, StatusType) go"
  DecodeData :: "nat \<Rightarrow> bool \<Rightarrow> ('w, StatusType) go"
  DecodeTrailers :: "nat \<Rightarrow> ('w, StatusType) go"
  EncodeHeaders :: "nat \<Rightarrow> bool \<Rightarrow> ('w, StatusType) go"
  EncodeData :: "nat \<Rightarrow> bool \<Rightarrow> ('w, StatusType) go"
  EncodeTrailers :: "nat \<Rightarrow> ('w, StatusType) go"
  OnDestroy :: "int \<Rightarrow> ('w, unit) go"

type_synonym 'w HttpFilterFactory = "nat \<Rightarrow> ('w, nat option) go"

record ('w, 'cfg) HttpFilterConfigParser =
  Parse :: "'cfg \<Rightarrow> ('w, 'cfg option) go"
  Merge :: "'cfg option \<Rightarrow> 'cfg option \<Rightarrow> ('w, 'cfg option) go"

record ('w, 'cfg) plugin =
  httpFilterConfigFactory :: "'cfg option \<Rightarrow> ('w, 'w HttpFilterFactory option) go"
  httpFilterConfigParser :: "('w, 'cfg) HttpFilterConfigParser option"
  http_filter :: "nat \<Rightarrow> 'w HttpFilter"

subsection \<open>The pass-through filter\<close>

text \<open>\<^verbatim>\<open>&passThroughFilter{callbacks: callbacks}\<close> is named by its callbacks.\<close>

definition passThroughFilter :: "nat \<Rightarrow> 'w HttpFilter" where
  "passThroughFilter callbacks = \<lparr>
     DecodeHeaders = (\<lambda>header endStream. go_return Continue),
     DecodeData = (\<lambda>buffer endStream. go_return Continue),
     DecodeTrailers = (\<lambda>trailers. go_return Continue),
     EncodeHeaders = (\<lambda>header endStream. go_return Continue),
     EncodeData = (\<lambda>buffer endStream. go_return Continue),
     EncodeTrailers = (\<lambda>trailers. go_return Continue),
     OnDestroy = (\<lambda>reason. go_return ())\<rparr>"

definition PassThroughFactory :: "'cfg option \<Rightarrow> ('w, 'w HttpFilterFactory option) go" where
  "PassThroughFactory config = go_return (Some (\<lambda>callbacks. go_return (Some callbacks)))"

subsection \<open>Registration\<close>

text \<open>The package as it is loaded: pass through by default, no parser.\<close>

definition default_plugin :: "('w, 'cfg) plugin" where
  "default_plugin = \<lparr>httpFilterConfigFactory = PassThroughFactory, httpFilterConfigParser = None,
     http_filter = passThroughFilter\<rparr>"

definition RegisterHttpFilterConfigFactory ::
    "('cfg option \<Rightarrow> ('w, 'w HttpFilterFactory option) go) \<Rightarrow> ('w, 'cfg) plugin \<Rightarrow>
     ('w, 'cfg) plugin" where
  "RegisterHttpFilterConfigFactory f P = P\<lparr>httpFilterConfigFactory := f\<rparr>"

definition RegisterHttpFilterConfigParser ::
    "('w, 'cfg) HttpFilterConfigParser option \<Rightarrow> ('w, 'cfg) plugin \<Rightarrow> ('w, 'cfg) plugin" where
  "RegisterHttpFilterConfigParser parser P = P\<lparr>httpFilterConfigParser := parser\<rparr>"

definition RegisterStreamingHttpFilterConfigFactory ::
    "('cfg option \<Rightarrow> ('w, 'w HttpFilterFactory option) go) \<Rightarrow> ('w, 'cfg) plugin \<Rightarrow>
     ('w, 'cfg) plugin" where
  "RegisterStreamingHttpFilterConfigFactory f P = P\<lparr>httpFilterConfigFactory := f\<rparr>"

subsection \<open>The configuration cache\<close>

definition configCache_Load :: "u64 \<Rightarrow> (('h, 'b, 'cfg, 'u) world, 'cfg option) go" where
  "configCache_Load n = go_gets (\<lambda>w. configCache w n)"

definition configCache_Store :: "u64 \<Rightarrow> 'cfg option \<Rightarrow> (('h, 'b, 'cfg, 'u) world, unit) go" where
  "configCache_Store n c = go_modify (\<lambda>w. w\<lparr>configCache := (configCache w)(n := c)\<rparr>)"

text \<open>\<^verbatim>\<open>atomic.AddUint64(&configNumGenerator, 1)\<close>, which wraps around.\<close>

definition next_config_num :: "(('h, 'b, 'cfg, 'u) world, u64) go" where
  "next_config_num = (\<lambda>w. (Ok (configNumGenerator w + 1),
     w\<lparr>configNumGenerator := configNumGenerator w + 1\<rparr>))"

text \<open>
  \<open>any\<close> is the configuration message as \<^verbatim>\<open>proto.Unmarshal\<close> (a parameter, its error ignored)
  leaves it.
\<close>

definition moeNewHttpPluginConfig ::
    "(('h, 'b, 'cfg, 'u) world, 'cfg) plugin \<Rightarrow> (string \<Rightarrow> 'cfg) \<Rightarrow> string \<Rightarrow>
     (('h, 'b, 'cfg, 'u) world, u64) go" where
  "moeNewHttpPluginConfig P unmarshal buf =
     (let any = unmarshal buf in
      go_bind next_config_num (\<lambda>configNum.
      go_then
        (case httpFilterConfigParser P of
           Some parser \<Rightarrow> go_bind (Parse parser any) (configCache_Store configNum)
         | None \<Rightarrow> configCache_Store configNum (Some any))
        (go_return configNum)))"

definition moeDestroyHttpPluginConfig :: "u64 \<Rightarrow> (('h, 'b, 'cfg, 'u) world, unit) go" where
  "moeDestroyHttpPluginConfig id' = go_modify (\<lambda>w. w\<lparr>configCache := (configCache w)(id' := None)\<rparr>)"

definition moeMergeHttpPluginConfig ::
    "(('h, 'b, 'cfg, 'u) world, 'cfg) plugin \<Rightarrow> u64 \<Rightarrow> u64 \<Rightarrow>
     (('h, 'b, 'cfg, 'u) world, u64) go" where
  "moeMergeHttpPluginConfig P parentId childId =
     (case httpFilterConfigParser P of
        Some parser \<Rightarrow>
          go_bind (configCache_Load parentId) (\<lambda>parent.
          go_bind (configCache_Load childId) (\<lambda>child.
          go_bind (Merge parser parent child) (\<lambda>new.
          go_bind next_config_num (\<lambda>configNum.
          go_then (configCache_Store configNum new) (go_return configNum)))))
      | None \<Rightarrow> go_return childId)"

definition getOrCreateHttpFilterFactory ::
    "(('h, 'b, 'cfg, 'u) world, 'cfg) plugin \<Rightarrow> u64 \<Rightarrow>
     (('h, 'b, 'cfg, 'u) world, ('h, 'b, 'cfg, 'u) world HttpFilterFactory option) go" where
  "getOrCreateHttpFilterFactory P configId' =
     go_bind (configCache_Load configId') (httpFilterConfigFactory P)"

definition put_config :: "u64 \<Rightarrow> 'cfg \<Rightarrow> ('h, 'b, 'cfg, 'u) world \<Rightarrow> ('h, 'b, 'cfg, 'u) world" where
  "put_config n c w = w\<lparr>configCache := (configCache w)(n \<mapsto> c)\<rparr>"

definition del_config :: "u64 \<Rightarrow> ('h, 'b, 'cfg, 'u) world \<Rightarrow> ('h, 'b, 'cfg, 'u) world" where
  "del_config n w = w\<lparr>configCache := (configCache w)(n := None)\<rparr>"

interpretation configs: keyed_store "\<lambda>n w. configCache w n" put_config del_config
  by unfold_locales (simp_all add: put_config_def del_config_def)

subsection \<open>Identifiers of configurations\<close>

text \<open>
  A plugin whose parser neither panics nor touches the state: \<open>parse\<close> is what is stored for a
  message.
\<close>

definition parses_purely :: "('w, 'cfg) plugin \<Rightarrow> ('cfg \<Rightarrow> 'cfg) \<Rightarrow> bool" where
  "parses_purely P parse \<longleftrightarrow> (case httpFilterConfigParser P of
      None \<Rightarrow> parse = (\<lambda>c. c)
    | Some parser \<Rightarrow> (\<forall>any w. Parse parser any w = (Ok (Some (parse any)), w)))"

fun new_configs ::
    "(('h, 'b, 'cfg, 'u) world, 'cfg) plugin \<Rightarrow> (string \<Rightarrow> 'cfg) \<Rightarrow> string list \<Rightarrow>
     (('h, 'b, 'cfg, 'u) world, u64 list) go" where
  "new_configs P unmarshal [] = go_return []"
| "new_configs P unmarshal (buf # bufs) =
     go_bind (moeNewHttpPluginConfig P unmarshal buf) (\<lambda>n.
     go_bind (new_configs P unmarshal bufs) (\<lambda>ns. go_return (n # ns)))"

fun config_ids :: "u64 \<Rightarrow> nat \<Rightarrow> u64 list" where
  "config_ids g 0 = []"
| "config_ids g (Suc k) = (g + 1) # config_ids (g + 1) k"

lemma length_config_ids [simp]: "length (config_ids g k) = k"
  by (induction k arbitrary: g) auto

lemma set_config_ids: "set (config_ids g k) = {g + of_nat i | i. 1 \<le> i \<and> i \<le> k}"
proof (induction k arbitrary: g)
  case (Suc k)
  have "{g + of_nat i | i. 1 \<le> i \<and> i \<le> Suc k} =
      insert (g + 1) {g + 1 + of_nat i | i. 1 \<le> i \<and> i \<le> k}" (is "?L = ?R")
  proof (intro equalityI subsetI)
    fix x assume "x \<in> ?L"
    then obtain i where i: "x = g + of_nat i" "1 \<le> i" "i \<le> Suc k" by auto
    show "x \<in> ?R"
    proof (cases "i = 1")
      case False
      then have "x = g + 1 + of_nat (i - 1)" "1 \<le> i - 1" "i - 1 \<le> k"
        using i by (simp_all add: of_nat_diff)
      then show ?thesis by blast
    qed (use i in simp)
  next
    fix x assume "x \<in> ?R"
    then consider "x = g + 1" | i where "x = g + 1 + of_nat i" "1 \<le> i" "i \<le> k" by auto
    then show "x \<in> ?L"
    proof cases
      case 1
      then have "x = g + of_nat 1" by simp
      then show ?thesis by (metis (mono_tags, lifting) le_add1 le_refl mem_Collect_eq plus_1_eq_Suc)
    next
      case (2 i)
      then have "x = g + of_nat (Suc i)" "1 \<le> Suc i" "Suc i \<le> Suc k" by simp_all
      then show ?thesis by blast
    qed
  qed
  with Suc [of "g + 1"] show ?case by simp
qed simp

lemma of_nat_inj_u64: "i < 2 ^ 64 \<Longrightarrow> j < 2 ^ 64 \<Longrightarrow> (of_nat i :: u64) = of_nat j \<Longrightarrow> i = j"
  by (metis unat_u64)

lemma distinct_config_ids: "k < 2 ^ 64 \<Longrightarrow> distinct (config_ids g k)"
proof (induction k arbitrary: g)
  case (Suc k)
  have "g + 1 \<notin> set (config_ids (g + 1) k)"
  proof
    assume "g + 1 \<in> set (config_ids (g + 1) k)"
    then obtain i where "(of_nat i :: u64) = of_nat 0" "1 \<le> i" "i \<le> k"
      by (auto simp: set_config_ids)
    then show False using of_nat_inj_u64 [of i 0] Suc.prems by simp
  qed
  with Suc show ?case by simp
qed simp

lemma moeNewHttpPluginConfig_pure:
  assumes "parses_purely P parse"
  shows "moeNewHttpPluginConfig P unmarshal buf w = (Ok (configNumGenerator w + 1),
    put_config (configNumGenerator w + 1) (parse (unmarshal buf))
      (w\<lparr>configNumGenerator := configNumGenerator w + 1\<rparr>))"
  using assms by (auto simp: moeNewHttpPluginConfig_def parses_purely_def next_config_num_def
      configCache_Store_def put_config_def split: option.splits)

lemma put_config_generator [simp]:
  "configNumGenerator (put_config n c w) = configNumGenerator w"
  "(put_config n c w)\<lparr>configNumGenerator := g\<rparr> = put_config n c (w\<lparr>configNumGenerator := g\<rparr>)"
  by (simp_all add: put_config_def)

definition stored :: "('cfg \<Rightarrow> 'cfg) \<Rightarrow> (string \<Rightarrow> 'cfg) \<Rightarrow> u64 \<Rightarrow> string list \<Rightarrow> (u64 \<times> 'cfg) list" where
  "stored parse unmarshal g bufs =
     zip (config_ids g (length bufs)) (map (\<lambda>b. parse (unmarshal b)) bufs)"

lemma new_configs_run:
  assumes "parses_purely P parse"
  shows "new_configs P unmarshal bufs w = (Ok (config_ids (configNumGenerator w) (length bufs)),
    configs.run (map (\<lambda>(k, v). StoreOp k v) (stored parse unmarshal (configNumGenerator w) bufs))
      (w\<lparr>configNumGenerator := configNumGenerator w + of_nat (length bufs)\<rparr>))"
proof (induction bufs arbitrary: w)
  case (Cons b bufs)
  show ?case
    using Cons by (simp add: moeNewHttpPluginConfig_pure [OF assms] stored_def add.assoc
        add.commute [of 1])
qed (simp add: stored_def)

text \<open>The configurations are all found again under the identifiers they were given.\<close>

lemma new_configs_found:
  assumes "parses_purely P parse" "length bufs < 2 ^ 64" "i < length bufs"
    and "new_configs P unmarshal bufs w = (Ok ns, w')"
  shows "configCache w' (ns ! i) = Some (parse (unmarshal (bufs ! i)))"
proof -
  let ?kvs = "stored parse unmarshal (configNumGenerator w) bufs"
  have ns: "ns = config_ids (configNumGenerator w) (length bufs)"
    and w': "w' = configs.run (map (\<lambda>(k, v). StoreOp k v) ?kvs)
      (w\<lparr>configNumGenerator := configNumGenerator w + of_nat (length bufs)\<rparr>)"
    using assms(4) unfolding new_configs_run [OF assms(1)] by auto
  have "distinct (map fst ?kvs)"
    using distinct_config_ids [OF assms(2)] by (simp add: stored_def)
  moreover have "(ns ! i, parse (unmarshal (bufs ! i))) \<in> set ?kvs"
    using assms(3) by (auto simp: stored_def ns set_zip intro!: exI [of _ i])
  ultimately show ?thesis unfolding w' by (rule configs.load_all)
qed

lemma moeMergeHttpPluginConfig_override:
  assumes "httpFilterConfigParser P = None"
  shows "moeMergeHttpPluginConfig P parentId childId w = (Ok childId, w)"
  using assms by (simp add: moeMergeHttpPluginConfig_def)

lemma moeMergeHttpPluginConfig_parser:
  assumes "httpFilterConfigParser P = Some parser"
    and "Merge parser (configCache w parentId) (configCache w childId) w = (Ok (Some new), w)"
  shows "moeMergeHttpPluginConfig P parentId childId w = (Ok (configNumGenerator w + 1),
    put_config (configNumGenerator w + 1) new
      (w\<lparr>configNumGenerator := configNumGenerator w + 1\<rparr>))"
  using assms by (simp add: moeMergeHttpPluginConfig_def configCache_Load_def next_config_num_def
      configCache_Store_def put_config_def)

text \<open>
  Without a parser the child configuration overrides the parent; with one, the merged
  configuration gets an identifier of its own and both originals stay.
\<close>

lemma merge_keeps_originals:
  assumes "moeMergeHttpPluginConfig P parentId childId w = (Ok n, w')"
    and "\<And>parser. httpFilterConfigParser P = Some parser \<Longrightarrow>
      \<exists>new. Merge parser (configCache w parentId) (configCache w childId) w = (Ok (Some new), w)"
    and "configCache w (configNumGenerator w + 1) = None"
    and "configCache w parentId = Some c" "configCache w childId = Some d"
  shows "configCache w' parentId = Some c \<and> configCache w' childId = Some d \<and>
    (case httpFilterConfigParser P of
       None \<Rightarrow> n = childId \<and> w' = w
     | Some parser \<Rightarrow> n = configNumGenerator w + 1 \<and> n \<noteq> parentId \<and> n \<noteq> childId \<and>
        fst (Merge parser (Some c) (Some d) w) = Ok (configCache w' n))"
proof (cases "httpFilterConfigParser P")
  case None
  then show ?thesis using assms moeMergeHttpPluginConfig_override [OF None, of parentId childId w] by simp
next
  case (Some parser)
  obtain new where new: "Merge parser (configCache w parentId) (configCache w childId) w = (Ok (Some new), w)"
    using assms(2) [OF Some] by blast
  have "n = configNumGenerator w + 1"
    and w': "w' = put_config (configNumGenerator w + 1) new
      (w\<lparr>configNumGenerator := configNumGenerator w + 1\<rparr>)"
    using assms(1) unfolding moeMergeHttpPluginConfig_parser [OF Some new] by auto
  then show ?thesis using assms(3-5) new Some by (auto simp: put_config_def)
qed

end
