(* ===== verification/Moe.thy ===== *)
theory Moe
  imports Config
begin

text \<open>
  \<^verbatim>\<open>pkg/http/moe.go\<close>: the functions exported to C, by which Envoy's filter enters Go. \<open>Requests\<close>
  maps the C struct of a request to its Go object; the callbacks find the object there, run the
  filter under \<open>RecoverPanic\<close> and return the filter's status.
\<close>

subsection \<open>The request map\<close>

definition ErrDupRequestKey :: string where
  "ErrDupRequestKey = ''dup request key''"

text \<open>\<^verbatim>\<open>LoadOrStore\<close>; the result is the error, nil is \<open>None\<close>.\<close>

definition StoreReq :: "nat \<Rightarrow> nat \<Rightarrow> (('h, 'b, 'cfg, 'u) world, string option) go" where
  "StoreReq key r = (\<lambda>w. case Requests w key of
      Some _ \<Rightarrow> (Ok (Some ErrDupRequestKey), w)
    | None \<Rightarrow> (Ok None, w\<lparr>Requests := (Requests w)(key \<mapsto> r)\<rparr>))"

definition GetReq :: "nat \<Rightarrow> (('h, 'b, 'cfg, 'u) world, nat option) go" where
  "GetReq key = go_gets (\<lambda>w. Requests w key)"

definition DeleteReq :: "nat \<Rightarrow> (('h, 'b, 'cfg, 'u) world, unit) go" where
  "DeleteReq key = go_modify (\<lambda>w. w\<lparr>Requests := (Requests w)(key := None)\<rparr>)"

definition Clear :: "(('h, 'b, 'cfg, 'u) world, unit) go" where
  "Clear = go_modify (\<lambda>w. w\<lparr>Requests := Map.empty\<rparr>)"

definition getRequest :: "nat \<Rightarrow> (('h, 'b, 'cfg, 'u) world, nat option) go" where
  "getRequest r = GetReq r"

text \<open>A method call or field access on a pointer or interface that may be nil.\<close>

definition not_nil :: "'a option \<Rightarrow> ('s, 'a) go" where
  "not_nil x = (case x of None \<Rightarrow> go_panic nil_deref | Some a \<Rightarrow> go_return a)"

subsection \<open>Creation and finalization\<close>

definition requestFinalize ::
    "('h, 'b, 'cfg, 'u) world HttpCAPI \<Rightarrow> nat \<Rightarrow> (('h, 'b, 'cfg, 'u) world, unit) go" where
  "requestFinalize C r = httpRequest_Finalize C r NormalFinalize"

text \<open>\<^verbatim>\<open>runtime.SetFinalizer(req, requestFinalize)\<close> and \<^verbatim>\<open>runtime.SetFinalizer(req, nil)\<close>.\<close>

definition SetFinalizer :: "bool \<Rightarrow> nat \<Rightarrow> (('h, 'b, 'cfg, 'u) world, unit) go" where
  "SetFinalizer armed r = go_modify (upd_request r (finalizer_update (\<lambda>_. armed)))"

definition createRequest ::
    "(('h, 'b, 'cfg, 'u) world, 'cfg) plugin \<Rightarrow> nat \<Rightarrow> (('h, 'b, 'cfg, 'u) world, nat) go" where
  "createRequest P r =
     go_bind (new_request (httpRequest_new r)) (\<lambda>rq.
     go_then (SetFinalizer True rq)
    (go_bind (StoreReq r rq) (\<lambda>_.
     go_bind (c_field configId r) (\<lambda>cid.
     go_bind (getOrCreateHttpFilterFactory P cid) (\<lambda>filterFactory.
     go_bind (not_nil filterFactory) (\<lambda>ff.
     go_bind (ff rq) (\<lambda>f.
     go_then (set_request (httpFilter_update (\<lambda>_. f)) rq)
       (go_return rq))))))))"

subsection \<open>Callbacks\<close>

text \<open>\<^verbatim>\<open>f.Method(...)\<close> on the interface value \<open>f\<close> of a request.\<close>

definition filter_of ::
    "(('h, 'b, 'cfg, 'u) world, 'cfg) plugin \<Rightarrow> nat \<Rightarrow>
     (('h, 'b, 'cfg, 'u) world, ('h, 'b, 'cfg, 'u) world HttpFilter) go" where
  "filter_of P rq =
     go_bind (deref httpRequests rq) (\<lambda>q.
     go_bind (not_nil (httpFilter q)) (\<lambda>f. go_return (http_filter P f)))"

text \<open>
  The two header structs of a callback: \<^verbatim>\<open>requestHeaderMapImpl\<close> and \<^verbatim>\<open>responseHeaderMapImpl\<close> embed
  \<^verbatim>\<open>headerMapImpl\<close>, the trailer structs embed \<^verbatim>\<open>headerTrailerMapImpl\<close>. The map of a fresh
  struct is nil.
\<close>

definition header_struct :: "nat \<Rightarrow> u64 \<Rightarrow> u64 \<Rightarrow> headerMapImpl" where
  "header_struct rq num bytes =
     \<lparr>request = rq, headers = None, headerNum = num, headerBytes = bytes\<rparr>"

text \<open>The switch on the phase of \<^verbatim>\<open>moeOnHttpHeader\<close>; an unknown phase leaves the zero status.\<close>

definition header_switch ::
    "(('h, 'b, 'cfg, 'u) world, 'cfg) plugin \<Rightarrow> int \<Rightarrow> nat \<Rightarrow> u64 \<Rightarrow> u64 \<Rightarrow> u64 \<Rightarrow>
     (('h, 'b, 'cfg, 'u) world, StatusType) go" where
  "header_switch P ph rq endStream num bytes =
     (if ph = DecodeHeaderPhase then
        go_bind (new_headerMap (header_struct rq num bytes)) (\<lambda>h.
        go_bind (filter_of P rq) (\<lambda>f. DecodeHeaders f h (endStream = 1)))
      else if ph = DecodeTrailerPhase then
        go_bind (new_trailerMap (header_struct rq num bytes)) (\<lambda>h.
        go_bind (filter_of P rq) (\<lambda>f. DecodeTrailers f h))
      else if ph = EncodeHeaderPhase then
        go_bind (new_headerMap (header_struct rq num bytes)) (\<lambda>h.
        go_bind (filter_of P rq) (\<lambda>f. EncodeHeaders f h (endStream = 1)))
      else if ph = EncodeTrailerPhase then
        go_bind (new_trailerMap (header_struct rq num bytes)) (\<lambda>h.
        go_bind (filter_of P rq) (\<lambda>f. EncodeTrailers f h))
      else go_return Running)"

definition moeOnHttpHeader ::
    "('h, 'b, 'cfg, 'u) world HttpCAPI \<Rightarrow> (('h, 'b, 'cfg, 'u) world, 'cfg) plugin \<Rightarrow>
     nat \<Rightarrow> u64 \<Rightarrow> u64 \<Rightarrow> u64 \<Rightarrow> (('h, 'b, 'cfg, 'u) world, u64) go" where
  "moeOnHttpHeader C P r endStream num bytes =
     go_bind (c_field phase r) (\<lambda>ph.
     go_bind
       (if ph = DecodeHeaderPhase then createRequest P r
        else go_bind (getRequest r) (\<lambda>x. case x of
            None \<Rightarrow> createRequest P r
          | Some rq \<Rightarrow> go_return rq)) (\<lambda>rq.
     go_bind (deref httpRequests rq) (\<lambda>q.
       if paniced q then
         go_then (safeReplyPanic C recover_fuel rq) (go_return (status_to_u64 Continue))
       else
         go_recover 0
           (go_bind (header_switch P ph rq endStream num bytes) (\<lambda>status.
             go_return (status_to_u64 status)))
           (RecoverPanic C recover_fuel rq))))"

definition moeOnHttpData ::
    "('h, 'b, 'cfg, 'u) world HttpCAPI \<Rightarrow> (('h, 'b, 'cfg, 'u) world, 'cfg) plugin \<Rightarrow>
     nat \<Rightarrow> u64 \<Rightarrow> u64 \<Rightarrow> u64 \<Rightarrow> (('h, 'b, 'cfg, 'u) world, u64) go" where
  "moeOnHttpData C P r endStream buffer len =
     go_bind (getRequest r) (\<lambda>x.
     go_bind (not_nil x) (\<lambda>rq.
     go_bind (deref httpRequests rq) (\<lambda>q.
       if paniced q then
         go_then (safeReplyPanic C recover_fuel rq) (go_return (status_to_u64 Continue))
       else
         go_recover 0
           (go_bind (c_field phase r) (\<lambda>ph.
            go_bind (new_httpBuffer \<lparr>buf_request = rq, envoyBufferInstance = buffer,
                buf_length = len, buf_value = []\<rparr>) (\<lambda>b.
            go_bind (filter_of P rq) (\<lambda>f.
            go_bind (if ph = DecodeDataPhase then DecodeData f b (endStream = 1)
                     else EncodeData f b (endStream = 1)) (\<lambda>status.
            go_return (status_to_u64 status))))))
           (RecoverPanic C recover_fuel rq))))"

text \<open>\<^verbatim>\<open>sync.WaitGroup.Done\<close> panics when the counter becomes negative.\<close>

definition sema_Done :: "nat \<Rightarrow> (('h, 'b, 'cfg, 'u) world, unit) go" where
  "sema_Done rq =
     go_bind (deref httpRequests rq) (\<lambda>q.
     go_then (set_request (sema_update (\<lambda>n. n - 1)) rq)
       (go_when (sema q - 1 < 0) (go_panic (PanicString ''sync: negative WaitGroup counter''))))"

definition moeOnHttpDestroy ::
    "('h, 'b, 'cfg, 'u) world HttpCAPI \<Rightarrow> (('h, 'b, 'cfg, 'u) world, 'cfg) plugin \<Rightarrow>
     nat \<Rightarrow> u64 \<Rightarrow> (('h, 'b, 'cfg, 'u) world, unit) go" where
  "moeOnHttpDestroy C P r reason =
     go_bind (getRequest r) (\<lambda>x.
     go_bind (not_nil x) (\<lambda>rq.
     go_bind (deref httpRequests rq) (\<lambda>_.
       go_recover ()
         (go_bind (c_field waitSema r) (\<lambda>s.
          go_then (go_when (s = 1) (sema_Done rq))
         (go_bind (filter_of P rq) (\<lambda>f.
          go_then (OnDestroy f (sint reason))
         (go_then (DeleteReq r)
            (go_when (sint reason = Normal)
              (go_then (SetFinalizer False rq)
                (httpRequest_Finalize C rq GCFinalize))))))))
         (RecoverPanic C recover_fuel rq))))"

text \<open>The receiver of a deferred method call may be nil; the deferred call then panics itself.\<close>

definition moeOnHttpSemaCallback ::
    "('h, 'b, 'cfg, 'u) world HttpCAPI \<Rightarrow> nat \<Rightarrow> (('h, 'b, 'cfg, 'u) world, unit) go" where
  "moeOnHttpSemaCallback C r =
     go_bind (getRequest r) (\<lambda>x. case x of
        None \<Rightarrow> go_panic nil_deref
      | Some rq \<Rightarrow> go_recover () (sema_Done rq) (RecoverPanic C recover_fuel rq))"

subsection \<open>The request map as a store\<close>

definition put_req :: "nat \<Rightarrow> nat \<Rightarrow> ('h, 'b, 'cfg, 'u) world \<Rightarrow> ('h, 'b, 'cfg, 'u) world" where
  "put_req k r w = w\<lparr>Requests := (Requests w)(k \<mapsto> r)\<rparr>"

definition del_req :: "nat \<Rightarrow> ('h, 'b, 'cfg, 'u) world \<Rightarrow> ('h, 'b, 'cfg, 'u) world" where
  "del_req k w = w\<lparr>Requests := (Requests w)(k := None)\<rparr>"

interpretation reqs: keyed_store "\<lambda>k w. Requests w k" put_req del_req
  by unfold_locales (simp_all add: put_req_def del_req_def)

lemma StoreReq_eq:
  "StoreReq k r w = (case Requests w k of
     None \<Rightarrow> (Ok None, put_req k r w) | Some _ \<Rightarrow> (Ok (Some ErrDupRequestKey), w))"
  by (simp add: StoreReq_def put_req_def split: option.split)

lemma DeleteReq_eq: "DeleteReq k w = (Ok (), del_req k w)"
  by (simp add: DeleteReq_def del_req_def)

lemma not_nil_apply [simp]:
  "not_nil x s = (case x of None \<Rightarrow> (Panic nil_deref, s) | Some a \<Rightarrow> (Ok a, s))"
  by (simp add: not_nil_def split: option.split)

lemma SetFinalizer_apply [simp]:
  "SetFinalizer armed r w = (Ok (), upd_request r (finalizer_update (\<lambda>_. armed)) w)"
  by (simp add: SetFinalizer_def)

lemma sema_Done_apply:
  "sema_Done rq w = (case httpRequests w rq of
     None \<Rightarrow> (Panic nil_deref, w)
   | Some q \<Rightarrow>
       (if sema q < 1 then Panic (PanicString ''sync: negative WaitGroup counter'') else Ok (),
        upd_request rq (sema_update (\<lambda>n. n - 1)) w))"
  by (simp add: sema_Done_def go_when_def split: option.split)

subsection \<open>A callback that panics\<close>

definition api_error :: "panic_value \<Rightarrow> bool" where
  "api_error p \<longleftrightarrow> p \<in> {PanicString ErrRequestFinished, PanicString ErrFilterDestroyed,
     PanicString ErrNotInGo}"

definition answered ::
    "nat \<Rightarrow> ('h, 'b, 'cfg, 'u) world \<Rightarrow> ('h, 'b, 'cfg, 'u) world" where
  "answered rq w = upd_request rq (safePanic_update (\<lambda>_. False)) (post_event rq panic_reply w)"

text \<open>A panic other than the API's own is answered while Go owns the stream.\<close>

lemma run_filter_panic:
  assumes "body w = (Panic p, w2)" "\<not> api_error p"
    and "httpRequests w2 rq = Some q" "\<not> safePanic q" "api_gate w2 rq = Ok (i, F)"
  shows "go_recover z body (RecoverPanic (httpCApiImpl E) recover_fuel rq) w =
    (Ok z, answered rq w2)"
proof -
  have "creqs (cside w2) (req q) \<noteq> None"
    using assms(3,5) by (auto elim: gate_openE)
  then have "RecoverPanic (httpCApiImpl E) recover_fuel rq p w2 = (Ok (), answered rq w2)"
    using assms(2-5) RecoverPanic_spec [of recover_fuel E rq p w2]
    by (simp add: recover_spec_def reply_spec_def answered_def api_error_def recover_fuel_def)
  then show ?thesis using assms(1) by simp
qed

text \<open>One of the API's own errors is not answered; only \<open>ErrNotInGo\<close> leaves a mark.\<close>

lemma run_filter_api_error:
  assumes "body w = (Panic p, w2)" "api_error p"
    and "httpRequests w2 rq = Some q" "creqs (cside w2) (req q) \<noteq> None"
  shows "go_recover z body (RecoverPanic (httpCApiImpl E) recover_fuel rq) w =
    (Ok z, if p = PanicString ErrNotInGo then upd_request rq (paniced_update (\<lambda>_. True)) w2 else w2)"
proof -
  have "RecoverPanic (httpCApiImpl E) recover_fuel rq p w2 =
      (Ok (), if p = PanicString ErrNotInGo then upd_request rq (paniced_update (\<lambda>_. True)) w2 else w2)"
    using assms(2-4) RecoverPanic_spec [of recover_fuel E rq p w2]
    by (auto simp: recover_spec_def api_error_def recover_fuel_def)
  then show ?thesis using assms(1) by simp
qed

text \<open>
  The callbacks with a part of a message as data. With \<open>comes_with\<close> the callback goes on with the Go
  object \<open>rq\<close> in the state \<open>w1\<close>: the first headers create the object, and so do headers that find
  none; \<open>filter_turn\<close> is what runs under \<open>RecoverPanic\<close> then.
\<close>

datatype go_callback = OnHttpHeader u64 u64 u64 | OnHttpData u64 u64 u64

fun go_callback_run ::
    "('h, 'b, 'cfg, 'u) world HttpCAPI \<Rightarrow> (('h, 'b, 'cfg, 'u) world, 'cfg) plugin \<Rightarrow> nat \<Rightarrow> go_callback \<Rightarrow>
     (('h, 'b, 'cfg, 'u) world, u64) go" where
  "go_callback_run C P r (OnHttpHeader e n b) = moeOnHttpHeader C P r e n b"
| "go_callback_run C P r (OnHttpData e a len) = moeOnHttpData C P r e a len"

fun comes_with ::
    "(('h, 'b, 'cfg, 'u) world, 'cfg) plugin \<Rightarrow> nat \<Rightarrow> int \<Rightarrow> go_callback \<Rightarrow>
     ('h, 'b, 'cfg, 'u) world \<Rightarrow> nat \<Rightarrow> ('h, 'b, 'cfg, 'u) world \<Rightarrow> bool" where
  "comes_with P r ph (OnHttpHeader e n b) w rq w1 =
     (if ph = DecodeHeaderPhase \<or> Requests w r = None then createRequest P r w = (Ok rq, w1)
      else Requests w r = Some rq \<and> w1 = w)"
| "comes_with P r ph (OnHttpData e a len) w rq w1 = (Requests w r = Some rq \<and> w1 = w)"

fun filter_turn ::
    "(('h, 'b, 'cfg, 'u) world, 'cfg) plugin \<Rightarrow> int \<Rightarrow> nat \<Rightarrow> go_callback \<Rightarrow>
     (('h, 'b, 'cfg, 'u) world, StatusType) go" where
  "filter_turn P ph rq (OnHttpHeader e n b) = header_switch P ph rq e n b"
| "filter_turn P ph rq (OnHttpData e a len) =
     go_bind (new_httpBuffer \<lparr>buf_request = rq, envoyBufferInstance = a, buf_length = len,
         buf_value = []\<rparr>) (\<lambda>b.
     go_bind (filter_of P rq) (\<lambda>f.
       if ph = DecodeDataPhase then DecodeData f b (e = 1) else EncodeData f b (e = 1)))"

lemma go_callback_runs:
  assumes "creqs (cside w) r = Some cq" "comes_with P r (phase cq) cb w rq w1"
    and "httpRequests w1 rq = Some q"
  shows "go_callback_run C P r cb w =
    (if paniced q
     then go_then (safeReplyPanic C recover_fuel rq) (go_return (status_to_u64 Continue)) w1
     else go_recover 0
       (go_bind (filter_turn P (phase cq) rq cb) (\<lambda>status. go_return (status_to_u64 status)))
       (RecoverPanic C recover_fuel rq) w1)"
proof (cases cb)
  case (OnHttpHeader e n b)
  then show ?thesis
    using assms by (auto simp: moeOnHttpHeader_def getRequest_def GetReq_def go_bind_apply
        simp del: go_recover_apply RecoverPanic.simps safeReplyPanic.simps
        split: if_splits option.splits)
next
  case (OnHttpData e a len)
  then show ?thesis
    using assms by (simp add: moeOnHttpData_def getRequest_def GetReq_def go_bind_assoc go_recover_def
        new_httpBuffer_def del: RecoverPanic.simps safeReplyPanic.simps)
qed

text \<open>A callback whose filter panics, and one that finds the mark of an earlier panic.\<close>

lemma go_callback_panics:
  assumes "creqs (cside w) r = Some cq" "comes_with P r (phase cq) cb w rq w1"
    and "httpRequests w1 rq = Some q" "\<not> paniced q"
    and "filter_turn P (phase cq) rq cb w1 = (Panic p, w2)" "\<not> api_error p"
    and "httpRequests w2 rq = Some q2" "\<not> safePanic q2" "api_gate w2 rq = Ok (i, F)"
  shows "go_callback_run (httpCApiImpl E) P r cb w = (Ok (status_to_u64 Running), answered rq w2)"
proof -
  have "go_bind (filter_turn P (phase cq) rq cb) (\<lambda>status. go_return (status_to_u64 status)) w1 =
      (Panic p, w2)"
    using assms(5) by simp
  note run_filter_panic [where body = "go_bind (filter_turn P (phase cq) rq cb)
    (\<lambda>status. go_return (status_to_u64 status))" and z = 0 and w = w1, OF this assms(6-9), of E]
  then show ?thesis
    unfolding go_callback_runs [OF assms(1-3)] using assms(4) by (simp add: status_to_u64_def)
qed

lemma go_callback_marked:
  assumes "creqs (cside w) r = Some cq" "comes_with P r (phase cq) cb w rq w"
    and "httpRequests w rq = Some q" "paniced q" "api_gate w rq = Ok (i, F)"
  shows "go_callback_run (httpCApiImpl E) P r cb w = (Ok (status_to_u64 Continue), answered rq w)"
proof -
  obtain cq' where "creqs (cside w) (req q) = Some cq'"
    using assms(3,5) by (auto elim!: gate_openE)
  from safeReplyPanic_spec [OF assms(3) this, of E 1] show ?thesis
    unfolding go_callback_runs [OF assms(1-3)]
    using assms(4,5) by (simp add: reply_spec_def answered_def recover_fuel_def numeral_2_eq_2
        del: safeReplyPanic.simps)
qed

lemma answered_posted:
  assumes "api_gate w rq = Ok (i, F)"
  shows "posted (cside (answered rq w)) =
    posted (cside w) @ [(i, PostLocalReply 500 panic_reply_body 0 [])]"
  using assms by (simp add: answered_def post_event_def post_def panic_reply_def reply_event_def
      c_int_of_int_id)

lemma moeOnHttpHeader_known:
  assumes "creqs (cside w) r = Some cq" "phase cq \<noteq> DecodeHeaderPhase" "Requests w r = Some rq"
    and "httpRequests w rq = Some q" "\<not> paniced q"
  shows "moeOnHttpHeader C P r e n b w = go_recover 0
    (go_bind (header_switch P (phase cq) rq e n b) (\<lambda>status. go_return (status_to_u64 status)))
    (RecoverPanic C recover_fuel rq) w"
  using assms by (simp add: moeOnHttpHeader_def getRequest_def GetReq_def
      del: go_recover_apply RecoverPanic.simps)

end
