(* ===== verification/Lifecycle.thy ===== *)
theory Lifecycle
  imports Moe
begin

text \<open>
  The life of a request across the two languages: the C struct is allocated by the filter, its Go
  object is created on the first callback and armed with a finalizer, the map \<open>Requests\<close> keeps it
  while the filter lives, and the struct is deleted once, by \<open>moeOnHttpDestroy\<close> or by the garbage
  collector. \<open>life_step\<close> interleaves the callbacks of any number of filters with the collector
  and the worker thread; \<open>life_inv\<close> is the invariant that rules a second deletion out.
\<close>

subsection \<open>The part of the state the life cycle is about\<close>

text \<open>Struct \<open>r\<close> belongs to the filter \<open>i\<close>, which has not been destroyed.\<close>

definition owns :: "('h, 'b, 'cfg, 'u) world \<Rightarrow> nat \<Rightarrow> nat \<Rightarrow> bool" where
  "owns w i r \<longleftrightarrow> (case filters (cside w) i of
      None \<Rightarrow> False | Some F \<Rightarrow> filter_req F = Some r \<and> \<not> has_destroyed F)"

definition alive :: "('h, 'b, 'cfg, 'u) world \<Rightarrow> nat \<Rightarrow> bool" where
  "alive w r \<longleftrightarrow> creqs (cside w) r \<noteq> None"

text \<open>Go object \<open>rq\<close> stands for \<open>r\<close> and will free it when it is collected.\<close>

definition armed :: "('h, 'b, 'cfg, 'u) world \<Rightarrow> nat \<Rightarrow> nat \<Rightarrow> bool" where
  "armed w rq r \<longleftrightarrow> (case httpRequests w rq of
      None \<Rightarrow> False | Some q \<Rightarrow> req q = r \<and> finalizer q)"

definition go_object :: "('h, 'b, 'cfg, 'u) world \<Rightarrow> nat \<Rightarrow> nat option" where
  "go_object w rq = map_option req (httpRequests w rq)"

text \<open>What a computation that is not a callback leaves as it was.\<close>

definition same_life :: "('h, 'b, 'cfg, 'u) world \<Rightarrow> ('h, 'b, 'cfg, 'u) world \<Rightarrow> bool" where
  "same_life w w' \<longleftrightarrow> Requests w' = Requests w \<and> owns w' = owns w \<and> alive w' = alive w \<and>
     armed w' = armed w \<and> go_object w' = go_object w \<and> next_ptr w \<le> next_ptr w'"

definition abides :: "(('h, 'b, 'cfg, 'u) world, 'a) go \<Rightarrow> bool" where
  "abides m \<longleftrightarrow> (\<forall>w. keeps (same_life w) m)"

definition life_inv :: "('h, 'b, 'cfg, 'u) world \<Rightarrow> bool" where
  "life_inv w \<longleftrightarrow>
     (\<forall>rq r. armed w rq r \<longrightarrow> alive w r) \<and>
     (\<forall>rq rq' r. armed w rq r \<longrightarrow> armed w rq' r \<longrightarrow> rq = rq') \<and>
     (\<forall>r rq. Requests w r = Some rq \<longrightarrow> armed w rq r) \<and>
     (\<forall>rq r i. armed w rq r \<longrightarrow> owns w i r \<longrightarrow> Requests w r = Some rq) \<and>
     (\<forall>i r. owns w i r \<longrightarrow> alive w r) \<and>
     (\<forall>i j r. owns w i r \<longrightarrow> owns w j r \<longrightarrow> i = j) \<and>
     (\<forall>rq. next_ptr w \<le> rq \<longrightarrow> go_object w rq = None)"

lemma life_invD:
  assumes "life_inv w"
  shows "armed w rq r \<Longrightarrow> alive w r"
    and "armed w rq r \<Longrightarrow> armed w rq' r \<Longrightarrow> rq = rq'"
    and "Requests w r = Some rq \<Longrightarrow> armed w rq r"
    and "armed w rq r \<Longrightarrow> owns w i r \<Longrightarrow> Requests w r = Some rq"
    and "owns w i r \<Longrightarrow> alive w r"
    and "owns w i r \<Longrightarrow> owns w j r \<Longrightarrow> i = j"
    and "next_ptr w \<le> rq \<Longrightarrow> go_object w rq = None"
  using assms unfolding life_inv_def by blast+

lemma same_life_refl [simp]: "same_life w w"
  by (simp add: same_life_def)

lemma same_life_trans: "same_life w w' \<Longrightarrow> same_life w' w'' \<Longrightarrow> same_life w w''"
  by (auto simp: same_life_def)

lemma same_life_inv:
  assumes same: "same_life w w'" and inv: "life_inv w"
  shows "life_inv w'"
proof -
  have eqs: "Requests w' = Requests w" "owns w' = owns w" "alive w' = alive w" "armed w' = armed w"
    "go_object w' = go_object w" and le: "next_ptr w \<le> next_ptr w'"
    using same by (auto simp: same_life_def)
  have "\<forall>rq. next_ptr w' \<le> rq \<longrightarrow> go_object w rq = None"
    using inv le unfolding life_inv_def by (meson le_trans)
  then show ?thesis using inv unfolding life_inv_def eqs by blast
qed

lemma abidesI: "(\<And>w. same_life w (snd (m w))) \<Longrightarrow> abides m"
  by (auto simp: abides_def keeps_def intro: same_life_trans)

lemma abidesD: "abides m \<Longrightarrow> same_life w (snd (m w))"
  by (simp add: abides_def keeps_def)

lemma abides_inv: "abides m \<Longrightarrow> keeps life_inv m"
  by (auto simp: keeps_def intro: same_life_inv abidesD)

lemma abides_keeps: "abides m \<Longrightarrow> keeps (same_life w) m"
  by (simp add: abides_def)

text \<open>Changes that do not touch the life cycle.\<close>

lemma same_life_upd_request:
  assumes "\<And>q. req (f q) = req q" "\<And>q. finalizer (f q) = finalizer q"
  shows "same_life w (upd_request r f w)"
  using assms by (auto simp: same_life_def owns_def alive_def armed_def go_object_def fun_eq_iff
      upd_request_def option.map_comp comp_def split: option.split)

lemma same_life_cside:
  assumes "\<And>r. (creqs c r = None) = (creqs (cside w) r = None)"
    and "\<And>i. map_option (\<lambda>F. (filter_req F, has_destroyed F)) (filters c i) =
      map_option (\<lambda>F. (filter_req F, has_destroyed F)) (filters (cside w) i)"
  shows "same_life w (w\<lparr>cside := c\<rparr>)"
proof -
  have "owns (w\<lparr>cside := c\<rparr>) i r = owns w i r" for i r
    using assms(2) [of i] by (auto simp: owns_def split: option.splits)
  then show ?thesis
    using assms(1) by (auto simp: same_life_def alive_def armed_def go_object_def fun_eq_iff)
qed

subsection \<open>The API leaves the life cycle alone\<close>

definition same_c :: "('h, 'b) cstate \<Rightarrow> ('h, 'b) cstate \<Rightarrow> bool" where
  "same_c c c' \<longleftrightarrow> (\<forall>r. (creqs c' r = None) = (creqs c r = None)) \<and>
     (\<forall>i. map_option (\<lambda>F. (filter_req F, has_destroyed F)) (filters c' i) =
          map_option (\<lambda>F. (filter_req F, has_destroyed F)) (filters c i))"

lemma same_c_refl [simp]: "same_c c c"
  by (simp add: same_c_def)

lemma same_c_trans: "same_c c c' \<Longrightarrow> same_c c' c'' \<Longrightarrow> same_c c c''"
  by (simp add: same_c_def)

definition c_abides :: "(('h, 'b) cstate, 'a) go \<Rightarrow> bool" where
  "c_abides m \<longleftrightarrow> (\<forall>c. same_c c (snd (m c)))"

lemma c_abidesI: "(\<And>c. keeps (same_c c) m) \<Longrightarrow> c_abides m"
  by (simp add: c_abides_def keeps_def)

lemma c_abides_keeps: "c_abides m \<Longrightarrow> keeps (same_c c) m"
  unfolding c_abides_def keeps_def by (meson same_c_trans)

lemma keeps_same_c_post [go_inv]: "keeps (same_c c) (go_modify (post i e))"
  by (simp add: keeps_def same_c_def post_def)

lemma keeps_same_c_upd_hm [go_inv]: "keeps (same_c c) (go_modify (upd_hm m f))"
  by (simp add: keeps_def same_c_def upd_hm_def)

lemma keeps_same_c_put_filter:
  assumes "filters c i = Some F" "filter_req F' = filter_req F" "has_destroyed F' = has_destroyed F"
  shows "keeps (same_c c) (go_modify (put_filter i F'))"
  using assms by (auto simp: keeps_def same_c_def put_filter_def)

lemma put_queue_req [simp]: "filter_req (put_queue q F) = filter_req F"
  by (simp add: put_queue_def setProcessorState_def)

lemma keeps_same_c_put_queue:
  "filters c i = Some F \<Longrightarrow> keeps (same_c c) (go_modify (put_filter i (put_queue q F)))"
  by (rule keeps_same_c_put_filter) simp_all

lemma keeps_inGoGuard [go_inv]:
  "keeps I (body i F) \<Longrightarrow> keeps I (inGoGuard ret body i F)"
  unfolding inGoGuard_def by (intro go_inv)

lemma c_abides_wrapper:
  assumes "\<And>c i F. filters c i = Some F \<Longrightarrow> keeps (same_c c) (f i F)"
  shows "c_abides (moeHandlerWrapper ret r f)"
  unfolding c_abides_def moeHandlerWrapper_def
  using keepsD [OF assms same_c_refl] by (auto split: option.split)

lemma c_abides_Continue: "c_abides (moeHttpContinue r status)"
  unfolding moeHttpContinue_def continueStatus_def by (intro c_abides_wrapper go_inv)

lemma c_abides_SendLocalReply: "c_abides (moeHttpSendLocalReply r code body hdrs grpc details)"
  unfolding moeHttpSendLocalReply_def sendLocalReply_def by (intro c_abides_wrapper go_inv)

lemma c_abides_GetHeader: "c_abides (moeHttpGetHeader E r key)"
  unfolding moeHttpGetHeader_def getHeader_def by (intro c_abides_wrapper go_inv)

lemma c_abides_CopyHeaders: "c_abides (moeHttpCopyHeaders E r mem)"
  unfolding moeHttpCopyHeaders_def copyHeaders_def by (intro c_abides_wrapper go_inv)

lemma c_abides_SetHeader: "c_abides (moeHttpSetHeaderHelper E r key value act)"
  unfolding moeHttpSetHeaderHelper_def setHeader_def by (intro c_abides_wrapper go_inv)

lemma c_abides_RemoveHeader: "c_abides (moeHttpRemoveHeader E r key)"
  unfolding moeHttpRemoveHeader_def removeHeader_def by (intro c_abides_wrapper go_inv)

lemma c_abides_GetBuffer: "c_abides (moeHttpGetBuffer E r a data)"
  unfolding moeHttpGetBuffer_def copyBuffer_def Let_def
  by (intro c_abides_wrapper go_inv keeps_same_c_put_queue)

lemma c_abides_SetBufferHelper: "c_abides (moeHttpSetBufferHelper E r a data len action)"
  unfolding moeHttpSetBufferHelper_def setBufferHelper_def Let_def
  by (intro c_abides_wrapper go_inv keeps_same_c_put_queue)

lemma c_abides_CopyTrailers: "c_abides (moeHttpCopyTrailers E r mem)"
  unfolding moeHttpCopyTrailers_def copyTrailers_def by (intro c_abides_wrapper go_inv)

lemma c_abides_SetTrailer: "c_abides (moeHttpSetTrailer E r key value)"
  unfolding moeHttpSetTrailer_def setTrailer_def by (intro c_abides_wrapper go_inv)

lemma c_abides_GetStringValue: "c_abides (moeHttpGetStringValue E r n)"
proof -
  have "keeps (same_c c) (getStringValue E n i F)" for c i and F :: "'b Filter"
    unfolding getStringValue_def
    by (intro go_inv)
      (auto simp: keeps_def same_c_def put_creq_def bind_eq_Some_conv split: option.split,
        metis not_None_eq)
  then show ?thesis unfolding moeHttpGetStringValue_def by (intro c_abides_wrapper)
qed

lemmas c_abides_calls = c_abides_Continue c_abides_SendLocalReply c_abides_GetHeader
  c_abides_CopyHeaders c_abides_SetHeader c_abides_RemoveHeader c_abides_GetBuffer
  c_abides_SetBufferHelper c_abides_CopyTrailers c_abides_SetTrailer c_abides_GetStringValue

lemma same_life_same_c: "same_c (cside w) c \<Longrightarrow> same_life w (w\<lparr>cside := c\<rparr>)"
  by (rule same_life_cside) (simp_all add: same_c_def)

lemma abides_on_c:
  assumes "c_abides m"
  shows "abides (on_c m)"
proof (rule abidesI)
  fix w
  have "snd (on_c m w) = w\<lparr>cside := snd (m (cside w))\<rparr>"
    by (simp split: prod.split)
  moreover have "same_c (cside w) (snd (m (cside w)))"
    using assms by (simp add: c_abides_def)
  ultimately show "same_life w (snd (on_c m w))"
    by (simp only: same_life_same_c)
qed

lemma abides_return [go_inv]: "abides (go_return a)"
  and abides_panic [go_inv]: "abides (go_panic p)"
  and abides_fault [go_inv]: "abides (go_fault f)"
  and abides_gets [go_inv]: "abides (go_gets g)"
  and abides_lift [go_inv]: "abides (go_lift x)"
  and abides_deref [go_inv]: "abides (deref sel ptr)"
  by (rule abidesI, simp split: option.split)+

lemma abides_make [go_inv]: "abides (go_make e z n)"
  and abides_handleCApiStatus [go_inv]: "abides (handleCApiStatus st)"
  and abides_c_field [go_inv]: "abides (c_field sl ptr)"
  by (rule abidesI, simp add: go_make_def handleCApiStatus_def split: option.split)+

lemma abides_bind [go_inv]: "abides m \<Longrightarrow> (\<And>a. abides (f a)) \<Longrightarrow> abides (go_bind m f)"
  by (simp add: abides_def keeps_bind)

lemma abides_then [go_inv]: "abides m \<Longrightarrow> abides n \<Longrightarrow> abides (go_then m n)"
  by (simp add: abides_def keeps_then)

lemma abides_recover [go_inv]:
  "abides m \<Longrightarrow> (\<And>p. abides (h p)) \<Longrightarrow> abides (go_recover z m h)"
  by (simp add: abides_def keeps_recover)

lemma abides_when [go_inv]: "(b \<Longrightarrow> abides m) \<Longrightarrow> abides (go_when b m)"
  by (simp add: abides_def keeps_when)

lemma abides_if [go_inv]:
  "(b \<Longrightarrow> abides m) \<Longrightarrow> (\<not> b \<Longrightarrow> abides n) \<Longrightarrow> abides (if b then m else n)"
  by simp

lemma abides_case_prod [go_inv]:
  "(\<And>a b. abides (f a b)) \<Longrightarrow> abides (case x of (a, b) \<Rightarrow> f a b)"
  by (cases x) simp

lemma abides_case_option [go_inv]:
  "abides m \<Longrightarrow> (\<And>a. abides (f a)) \<Longrightarrow> abides (case x of None \<Rightarrow> m | Some a \<Rightarrow> f a)"
  by (cases x) simp_all

lemma abides_modify: "(\<And>w. same_life w (f w)) \<Longrightarrow> abides (go_modify f)"
  by (rule abidesI) simp

lemma abides_set_request:
  "(\<And>q. req (f q) = req q) \<Longrightarrow> (\<And>q. finalizer (f q) = finalizer q) \<Longrightarrow> abides (set_request f r)"
  by (rule abidesI) (simp add: same_life_upd_request split: option.split)

lemma abides_c_call: "(\<And>p. c_abides (f p)) \<Longrightarrow> abides (c_call r f)"
  unfolding c_call_def by (intro go_inv abides_on_c)

lemma abides_copy_to_map: "(\<And>p mem. c_abides (call p mem)) \<Longrightarrow> abides (copy_to_map call r num bytes)"
  unfolding copy_to_map_def by (intro go_inv abides_c_call) auto

text \<open>An implementation of the API that leaves the life cycle alone, \<open>HttpFinalize\<close> apart.\<close>

definition api_abides :: "('h, 'b, 'cfg, 'u) world HttpCAPI \<Rightarrow> bool" where
  "api_abides C \<longleftrightarrow>
     (\<forall>r st. abides (HttpContinue C r st)) \<and>
     (\<forall>r code body hdrs grpc details. abides (HttpSendLocalReply C r code body hdrs grpc details)) \<and>
     (\<forall>r key v. abides (HttpGetHeader C r key v)) \<and>
     (\<forall>r n b. abides (HttpCopyHeaders C r n b)) \<and>
     (\<forall>r key v add. abides (HttpSetHeader C r key v add)) \<and>
     (\<forall>r key. abides (HttpRemoveHeader C r key)) \<and>
     (\<forall>r a f n. (\<forall>s w. same_life w (f s w)) \<longrightarrow> abides (HttpGetBuffer C r a f n)) \<and>
     (\<forall>r a s act. abides (HttpSetBufferHelper C r a s act)) \<and>
     (\<forall>r n b. abides (HttpCopyTrailers C r n b)) \<and>
     (\<forall>r key v. abides (HttpSetTrailer C r key v)) \<and>
     (\<forall>r. abides (HttpGetRouteName C r))"

lemma httpCApiImpl_abides: "api_abides (httpCApiImpl E)"
  unfolding api_abides_def httpCApiImpl_simps impl_HttpContinue_def impl_HttpSendLocalReply_def
    impl_HttpGetHeader_def impl_HttpCopyHeaders_def impl_HttpSetHeader_def
    impl_HttpRemoveHeader_def impl_HttpGetBuffer_def impl_HttpSetBufferHelper_def
    impl_HttpCopyTrailers_def impl_HttpSetTrailer_def impl_HttpGetRouteName_def Let_def
  by (intro conjI allI impI go_inv abides_c_call abides_copy_to_map c_abides_calls abides_modify;
      blast)

lemma abides_reply:
  assumes "api_abides C"
  shows "abides (safeReplyPanic C n r)" and "abides (RecoverPanic C n r e)"
  using assms
  by (induction C n r and C n r e rule: safeReplyPanic_RecoverPanic.induct)
    (auto simp: httpRequest_SendLocalReply_def httpRequest_Phase_def api_abides_def
      simp del: go_simps intro!: go_inv abides_set_request)

subsection \<open>Plugins\<close>

text \<open>
  The fields of a request and the request map are not exported from the package, so the code of a
  plugin can reach them only through the API.
\<close>

definition factory_abides :: "('h, 'b, 'cfg, 'u) world HttpFilterFactory \<Rightarrow> bool" where
  "factory_abides ff \<longleftrightarrow> (\<forall>rq. abides (ff rq))"

definition plugin_abides :: "(('h, 'b, 'cfg, 'u) world, 'cfg) plugin \<Rightarrow> bool" where
  "plugin_abides P \<longleftrightarrow>
     (\<forall>config. abides (httpFilterConfigFactory P config)) \<and>
     (\<forall>config w ff w'. httpFilterConfigFactory P config w = (Ok (Some ff), w') \<longrightarrow>
        factory_abides ff) \<and>
     (\<forall>f h eos. abides (DecodeHeaders (http_filter P f) h eos)) \<and>
     (\<forall>f h eos. abides (DecodeData (http_filter P f) h eos)) \<and>
     (\<forall>f h. abides (DecodeTrailers (http_filter P f) h)) \<and>
     (\<forall>f h eos. abides (EncodeHeaders (http_filter P f) h eos)) \<and>
     (\<forall>f h eos. abides (EncodeData (http_filter P f) h eos)) \<and>
     (\<forall>f h. abides (EncodeTrailers (http_filter P f) h)) \<and>
     (\<forall>f reason. abides (OnDestroy (http_filter P f) reason))"

lemma plugin_abides_factory:
  assumes "plugin_abides P" "httpFilterConfigFactory P config w = (Ok (Some ff), w')"
  shows "abides (ff rq)"
proof -
  have "factory_abides ff"
    using assms unfolding plugin_abides_def by (elim conjE allE impE) assumption
  then show ?thesis by (simp add: factory_abides_def)
qed

lemma default_plugin_abides: "plugin_abides default_plugin"
  unfolding plugin_abides_def default_plugin_def passThroughFilter_def PassThroughFactory_def
    factory_abides_def
  by (auto intro!: go_inv)

lemma abides_not_nil [go_inv]: "abides (not_nil x)"
  unfolding not_nil_def by (intro go_inv)

lemma abides_filter_of [go_inv]: "abides (filter_of P rq)"
  unfolding filter_of_def by (intro go_inv)

lemma abides_alloc [go_inv]:
  shows "abides (new_headerMap hm)" and "abides (new_trailerMap tm)" and "abides (new_httpBuffer bf)"
  by (rule abidesI, simp add: new_headerMap_def new_trailerMap_def new_httpBuffer_def same_life_def
      owns_def alive_def armed_def go_object_def fun_eq_iff)+

lemma filter_of_Ok:
  "filter_of P rq w = (Ok f, w') \<Longrightarrow> \<exists>n. f = http_filter P n"
  by (auto simp: filter_of_def split: option.splits)

lemma abides_bind_strong:
  assumes m: "abides m" and f: "\<And>w a w'. m w = (Ok a, w') \<Longrightarrow> abides (f a)"
  shows "abides (go_bind m f)"
proof (rule abidesI)
  fix w
  have "same_life w (snd (m w))" by (rule abidesD [OF m])
  then show "same_life w (snd (go_bind m f w))"
    using f [of w] abidesD same_life_trans
    by (auto simp: go_bind_def split: prod.split outcome.split) blast
qed

lemma abides_filter_call:
  assumes "\<And>n. abides (call (http_filter P n))"
  shows "abides (go_bind (filter_of P rq) call)"
  using assms by (intro abides_bind_strong abides_filter_of) (auto dest: filter_of_Ok)

lemma abides_header_switch:
  assumes "plugin_abides P"
  shows "abides (header_switch P ph rq e n b)"
  unfolding header_switch_def
  by (intro go_inv abides_filter_call) (use assms in \<open>simp_all add: plugin_abides_def\<close>)

subsection \<open>Creation\<close>

text \<open>The state in which \<open>createRequest\<close> starts to run the plugin's factory.\<close>

definition created :: "nat \<Rightarrow> ('h, 'b, 'cfg, 'u) world \<Rightarrow> ('h, 'b, 'cfg, 'u) world" where
  "created r w = put_req r (next_ptr w)
     (w\<lparr>next_ptr := Suc (next_ptr w),
        httpRequests := (httpRequests w)(next_ptr w \<mapsto> (httpRequest_new r)\<lparr>finalizer := True\<rparr>)\<rparr>)"

lemma created_views:
  shows "armed (created r w) rq r' = (if rq = next_ptr w then r' = r else armed w rq r')"
    and "owns (created r w) = owns w" and "alive (created r w) = alive w"
    and "Requests (created r w) = (Requests w)(r \<mapsto> next_ptr w)"
    and "go_object (created r w) rq = (if rq = next_ptr w then Some r else go_object w rq)"
    and "next_ptr (created r w) = Suc (next_ptr w)"
  by (auto simp: created_def put_req_def armed_def owns_def alive_def go_object_def
      httpRequest_new_def fun_eq_iff)

lemma armed_go_object: "armed w rq r \<Longrightarrow> go_object w rq = Some r"
  by (auto simp: armed_def go_object_def split: option.splits)

lemma life_inv_unarmed:
  assumes "life_inv w" "owns w i r" "Requests w r = None"
  shows "\<not> armed w rq r"
  using assms unfolding life_inv_def by (metis option.distinct(1))

lemma created_inv:
  assumes inv: "life_inv w" and own: "owns w i r" and none: "Requests w r = None"
  shows "life_inv (created r w)"
proof -
  note un = life_inv_unarmed [OF inv own none]
  have fresh: "\<not> armed w (next_ptr w) r'" for r'
    using life_invD(7) [OF inv order_refl] armed_go_object [of w "next_ptr w" r'] by auto
  have al: "alive w r" using inv own by (rule life_invD(5))
  note I = life_invD [OF inv]
  show ?thesis
    unfolding life_inv_def
  proof (intro conjI allI impI)
    fix rq r' assume "armed (created r w) rq r'"
    then show "alive (created r w) r'"
      using al I(1) by (auto simp: created_views split: if_splits)
  next
    fix rq rq' r' assume "armed (created r w) rq r'" "armed (created r w) rq' r'"
    then show "rq = rq'"
      using un I(2) by (auto simp: created_views split: if_splits)
  next
    fix r' rq assume "Requests (created r w) r' = Some rq"
    then show "armed (created r w) rq r'"
      using I(3) fresh by (fastforce simp: created_views split: if_splits)
  next
    fix rq r' j assume "armed (created r w) rq r'" "owns (created r w) j r'"
    then show "Requests (created r w) r' = Some rq"
      using I(4) un by (auto simp: created_views split: if_splits)
  next
    fix j r' assume "owns (created r w) j r'"
    then show "alive (created r w) r'" using I(5) by (auto simp: created_views)
  next
    fix j k r' assume "owns (created r w) j r'" "owns (created r w) k r'"
    then show "j = k" using I(6) by (auto simp: created_views)
  next
    fix rq assume "next_ptr (created r w) \<le> rq"
    then show "go_object (created r w) rq = None" using I(7) by (auto simp: created_views)
  qed
qed

lemma createRequest_after:
  assumes "Requests w r = None"
  shows "createRequest P r w =
    go_bind (c_field configId r) (\<lambda>cid.
     go_bind (getOrCreateHttpFilterFactory P cid) (\<lambda>filterFactory.
     go_bind (not_nil filterFactory) (\<lambda>ff.
     go_bind (ff (next_ptr w)) (\<lambda>f.
     go_then (set_request (httpFilter_update (\<lambda>_. f)) (next_ptr w))
       (go_return (next_ptr w)))))) (created r w)"
  using assms
  by (simp add: createRequest_def new_request_def StoreReq_eq created_def upd_request_def
      put_req_def del: c_field_apply not_nil_apply set_request_apply)

lemma abides_create_tail:
  assumes P: "plugin_abides P"
  shows "abides (go_bind (c_field configId r) (\<lambda>cid.
     go_bind (getOrCreateHttpFilterFactory P cid) (\<lambda>filterFactory.
     go_bind (not_nil filterFactory) (\<lambda>ff.
     go_bind (ff rq) (\<lambda>f.
     go_then (set_request (httpFilter_update (\<lambda>_. f)) rq) (go_return rq))))))"
proof -
  have tail: "abides (go_bind (not_nil filterFactory) (\<lambda>ff.
     go_bind (ff rq) (\<lambda>f.
     go_then (set_request (httpFilter_update (\<lambda>_. f)) rq) (go_return rq))))"
    if "getOrCreateHttpFilterFactory P cid w = (Ok filterFactory, w')" for cid w filterFactory w'
  proof (cases filterFactory)
    case None
    then show ?thesis by (intro abidesI) simp
  next
    case (Some ff)
    then have "abides (ff rq)"
      using that plugin_abides_factory [OF P]
      by (auto simp: getOrCreateHttpFilterFactory_def configCache_Load_def)
    then show ?thesis
      unfolding Some not_nil_def by (auto intro!: go_inv abides_set_request abides_bind_strong)
  qed
  have factory: "abides (getOrCreateHttpFilterFactory P cid)" for cid
    using P unfolding getOrCreateHttpFilterFactory_def configCache_Load_def
    by (intro go_inv) (simp add: plugin_abides_def)
  show ?thesis
    by (rule abides_bind [OF abides_c_field], rule abides_bind_strong, rule factory, erule tail)
qed

lemma createRequest_life:
  assumes "plugin_abides P" "Requests w r = None"
  shows "same_life (created r w) (snd (createRequest P r w))"
  unfolding createRequest_after [OF assms(2)] by (rule abidesD [OF abides_create_tail [OF assms(1)]])

subsection \<open>Callbacks keep the invariant\<close>

lemma bind_life:
  assumes "life_inv (snd (m w))" "\<And>a. abides (k a)"
  shows "life_inv (snd (go_bind m k w))"
proof (cases "fst (m w)")
  case (Ok a)
  then have "go_bind m k w = k a (snd (m w))" by (cases "m w") simp
  then show ?thesis using same_life_inv [OF abidesD [OF assms(2)] assms(1)] by simp
next
  case (Panic p)
  then have "snd (go_bind m k w) = snd (m w)" by (cases "m w") simp
  then show ?thesis using assms(1) by simp
next
  case (Fault f)
  then have "snd (go_bind m k w) = snd (m w)" by (cases "m w") simp
  then show ?thesis using assms(1) by simp
qed

lemma createRequest_inv:
  assumes "plugin_abides P" "life_inv w" "owns w i r" "Requests w r = None"
  shows "life_inv (snd (createRequest P r w))"
  using same_life_inv [OF createRequest_life created_inv] assms by blast

lemma abides_run_filter:
  assumes "api_abides C" "abides body"
  shows "abides (go_bind (deref httpRequests rq) (\<lambda>q.
       if paniced q then go_then (safeReplyPanic C n rq) (go_return x)
       else go_recover z body (RecoverPanic C n' rq)))"
  using assms by (intro go_inv abides_reply)

lemma moeOnHttpHeader_inv:
  assumes "api_abides C" "plugin_abides P" "life_inv w" "owns w i r"
    and first: "\<And>q. creqs (cside w) r = Some q \<Longrightarrow> phase q = DecodeHeaderPhase \<Longrightarrow> Requests w r = None"
  shows "life_inv (snd (moeOnHttpHeader C P r e n b w))"
proof -
  obtain q where q: "creqs (cside w) r = Some q"
    using life_invD(5) [OF assms(3,4)] by (auto simp: alive_def)
  note run = abides_run_filter [OF assms(1) abides_bind [OF abides_header_switch [OF assms(2)]
      abides_return]]
  have "life_inv (snd ((if phase q = DecodeHeaderPhase then createRequest P r
        else go_bind (getRequest r) (\<lambda>x. case x of
            None \<Rightarrow> createRequest P r | Some rq \<Rightarrow> go_return rq)) w))"
    using createRequest_inv [OF assms(2-4)] first [OF q] assms(3)
    by (auto simp: getRequest_def GetReq_def simp del: DecodeHeaderPhase_def split: option.split)
  then show ?thesis
    unfolding moeOnHttpHeader_def
    by (subst go_bind_Ok [of "c_field phase r" w "phase q" w], simp add: q)
      (rule bind_life [OF _ run])
qed

lemma moeOnHttpData_abides:
  assumes "api_abides C" "plugin_abides P"
  shows "abides (moeOnHttpData C P r e a len)"
proof -
  have call: "abides (if ph = DecodeDataPhase then HttpFilter.DecodeData (http_filter P f) h eos
      else HttpFilter.EncodeData (http_filter P f) h eos)" for ph f h eos
    using assms(2) by (simp add: plugin_abides_def)
  have inner: "abides (go_bind (filter_of P rq) (\<lambda>f. go_bind
      (if ph = DecodeDataPhase then HttpFilter.DecodeData f h eos else HttpFilter.EncodeData f h eos)
      (\<lambda>status. go_return (status_to_u64 status))))" for ph h eos rq
    by (rule abides_filter_call, rule abides_bind [OF call abides_return])
  show ?thesis
    unfolding moeOnHttpData_def getRequest_def GetReq_def
    by (rule abides_bind [OF abides_gets], rule abides_bind [OF abides_not_nil],
        rule abides_run_filter [OF assms(1)], rule abides_bind [OF abides_c_field],
        rule abides_bind [OF abides_alloc(3)], rule inner)
qed

lemma abides_sema_Done: "abides (sema_Done rq)"
  by (rule abidesI) (simp add: sema_Done_apply same_life_upd_request split: option.split)

lemma moeOnHttpSemaCallback_abides:
  "api_abides C \<Longrightarrow> abides (moeOnHttpSemaCallback C r)"
  unfolding moeOnHttpSemaCallback_def getRequest_def GetReq_def
  by (intro go_inv abides_reply abides_sema_Done)

subsection \<open>Deletion\<close>

definition disarm :: "nat \<Rightarrow> ('h, 'b, 'cfg, 'u) world \<Rightarrow> ('h, 'b, 'cfg, 'u) world" where
  "disarm rq w = upd_request rq (finalizer_update (\<lambda>_. False)) w"

definition free_struct :: "nat \<Rightarrow> ('h, 'b, 'cfg, 'u) world \<Rightarrow> ('h, 'b, 'cfg, 'u) world" where
  "free_struct r w = w\<lparr>cside := (cside w)\<lparr>creqs := (creqs (cside w))(r := None)\<rparr>\<rparr>"

lemma disarm_views:
  shows "armed (disarm rq w) rq' r = (rq' \<noteq> rq \<and> armed w rq' r)"
    and "owns (disarm rq w) = owns w" and "alive (disarm rq w) = alive w"
    and "Requests (disarm rq w) = Requests w" and "go_object (disarm rq w) = go_object w"
    and "next_ptr (disarm rq w) = next_ptr w"
  by (auto simp: disarm_def armed_def owns_def alive_def go_object_def fun_eq_iff upd_request_def
      option.map_comp comp_def split: option.split)

lemma free_struct_views:
  shows "armed (free_struct r w) = armed w" and "owns (free_struct r w) = owns w"
    and "alive (free_struct r w) r' = (r' \<noteq> r \<and> alive w r')"
    and "Requests (free_struct r w) = Requests w" and "go_object (free_struct r w) = go_object w"
    and "next_ptr (free_struct r w) = next_ptr w"
  by (auto simp: free_struct_def armed_def owns_def alive_def go_object_def fun_eq_iff)

lemma del_req_views:
  shows "armed (del_req r w) = armed w" and "owns (del_req r w) = owns w"
    and "alive (del_req r w) = alive w" and "Requests (del_req r w) r' = (if r' = r then None else Requests w r')"
    and "go_object (del_req r w) = go_object w" and "next_ptr (del_req r w) = next_ptr w"
  by (auto simp: del_req_def armed_def owns_def alive_def go_object_def fun_eq_iff)

text \<open>An object whose filter is gone and that the map does not hold can be freed.\<close>

lemma free_inv:
  assumes inv: "life_inv w" and armed: "armed w rq r" and own: "\<And>i. \<not> owns w i r"
    and map: "Requests w r \<noteq> Some rq"
  shows "life_inv (free_struct r (disarm rq w))"
proof -
  note I = life_invD [OF inv]
  have only: "armed w rq' r' \<Longrightarrow> rq' \<noteq> rq \<Longrightarrow> r' \<noteq> r" for rq' r'
    using I(2) armed by blast
  have held: "Requests w r' \<noteq> Some rq" for r'
  proof
    assume r': "Requests w r' = Some rq"
    then have "go_object w rq = Some r'" by (intro armed_go_object I(3))
    then have "r' = r" using armed_go_object [OF armed] by simp
    with r' map show False by simp
  qed
  show ?thesis
    unfolding life_inv_def free_struct_views disarm_views
    using I(1-7) only held own by (intro conjI allI impI) blast+
qed

lemma delete_inv:
  assumes inv: "life_inv w" and own: "\<And>i. \<not> owns w i r"
  shows "life_inv (del_req r w)"
  using life_invD [OF inv] own
  unfolding life_inv_def del_req_views by (intro conjI allI impI) (metis option.distinct(1))+

lemma Finalize_alive:
  assumes "go_object w rq = Some r" "alive w r"
  shows "impl_HttpFinalize rq reason w = (Ok (), free_struct r w)"
  using assms by (auto simp: go_object_def alive_def impl_HttpFinalize_def c_call_def
      moeHttpFinalize_def free_struct_def)

definition destroyable :: "nat \<Rightarrow> nat \<Rightarrow> ('h, 'b, 'cfg, 'u) world \<Rightarrow> bool" where
  "destroyable rq r w \<longleftrightarrow> life_inv w \<and> armed w rq r \<and> (\<forall>i. \<not> owns w i r)"

lemma destroyable_same_life: "same_life w w' \<Longrightarrow> destroyable rq r w \<Longrightarrow> destroyable rq r w'"
  using same_life_inv by (auto simp: destroyable_def same_life_def)

lemma abides_destroyable: "abides m \<Longrightarrow> keeps (destroyable rq r) m"
  by (auto simp: keeps_def intro: destroyable_same_life abidesD)

text \<open>How \<open>moeOnHttpDestroy\<close> ends when \<open>OnDestroy\<close> has returned.\<close>

definition destroyed :: "nat \<Rightarrow> nat \<Rightarrow> u64 \<Rightarrow> ('h, 'b, 'cfg, 'u) world \<Rightarrow> ('h, 'b, 'cfg, 'u) world" where
  "destroyed rq r reason w =
     (if sint reason = Normal then free_struct r (disarm rq (del_req r w)) else del_req r w)"

definition destroy_tail ::
    "('h, 'b, 'cfg, 'u) world HttpCAPI \<Rightarrow> nat \<Rightarrow> nat \<Rightarrow> u64 \<Rightarrow> (('h, 'b, 'cfg, 'u) world, unit) go" where
  "destroy_tail C rq r reason =
     go_then (DeleteReq r)
       (go_when (sint reason = Normal)
         (go_then (SetFinalizer False rq) (httpRequest_Finalize C rq GCFinalize)))"

lemma destroy_tail_eq:
  assumes "destroyable rq r w"
  shows "destroy_tail (httpCApiImpl E) rq r reason w = (Ok (), destroyed rq r reason w)"
proof -
  have a: "armed w rq r" and inv: "life_inv w" using assms by (simp_all add: destroyable_def)
  have "go_object (disarm rq (del_req r w)) rq = Some r" "alive (disarm rq (del_req r w)) r"
    using armed_go_object [OF a] life_invD(1) [OF inv a] by (simp_all add: disarm_views del_req_views)
  from Finalize_alive [OF this, of GCFinalize] show ?thesis
    by (cases "sint reason = Normal")
      (simp_all add: destroy_tail_def destroyed_def DeleteReq_eq httpRequest_Finalize_def
        disarm_def [symmetric])
qed

lemma destroyed_inv:
  assumes "destroyable rq r w"
  shows "life_inv (destroyed rq r reason w)"
proof -
  have a: "armed w rq r" and inv: "life_inv w" and own: "\<And>i. \<not> owns w i r"
    using assms by (simp_all add: destroyable_def)
  have d: "life_inv (del_req r w)" by (rule delete_inv [OF inv own])
  moreover have "life_inv (free_struct r (disarm rq (del_req r w)))"
    by (rule free_inv [OF d]) (simp_all add: del_req_views a own)
  ultimately show ?thesis by (simp add: destroyed_def)
qed

lemma destroyed_views:
  shows "alive (destroyed rq r reason w) r' =
      ((sint reason = Normal \<longrightarrow> r' \<noteq> r) \<and> alive w r')"
    and "armed (destroyed rq r reason w) rq' r' =
      ((sint reason = Normal \<longrightarrow> rq' \<noteq> rq) \<and> armed w rq' r')"
    and "Requests (destroyed rq r reason w) r = None"
  by (auto simp: destroyed_def free_struct_views disarm_views del_req_views)

lemma bind_post:
  assumes "J w" "keeps J m" "\<And>a w. J w \<Longrightarrow> Q (snd (k a w))" "\<And>w. J w \<Longrightarrow> Q w"
  shows "Q (snd (go_bind m k w))"
  using keepsD [OF assms(2,1)] assms(3,4)
  by (auto simp: go_bind_def split: prod.split outcome.split)

lemma destroyable_bind:
  assumes "abides m" "\<And>a w. destroyable rq r w \<Longrightarrow> life_inv (snd (k a w))" "destroyable rq r w"
  shows "life_inv (snd (go_bind m k w))"
  by (rule bind_post [where J = "destroyable rq r" and Q = life_inv])
    (use assms in \<open>simp_all add: abides_destroyable destroyable_def\<close>)

lemma moeOnHttpDestroy_eq:
  "moeOnHttpDestroy C P r reason =
     go_bind (getRequest r) (\<lambda>x.
     go_bind (not_nil x) (\<lambda>rq.
     go_bind (deref httpRequests rq) (\<lambda>_.
       go_recover ()
         (go_bind (c_field waitSema r) (\<lambda>s.
          go_bind (go_when (s = 1) (sema_Done rq)) (\<lambda>_.
          go_bind (go_bind (filter_of P rq) (\<lambda>f. OnDestroy f (sint reason))) (\<lambda>_.
          destroy_tail C rq r reason))))
         (RecoverPanic C recover_fuel rq))))"
  by (simp add: moeOnHttpDestroy_def destroy_tail_def go_then_def go_bind_assoc)

text \<open>A normal end of the callback, step by step.\<close>

lemma moeOnHttpDestroy_run:
  assumes J: "destroyable rq r w" and req: "Requests w r = Some rq"
    and q: "httpRequests w rq = Some q" "httpFilter q = Some f"
    and cq: "creqs (cside w) r = Some cq" "waitSema cq \<noteq> 1"
    and user: "abides (OnDestroy (http_filter P f) (sint reason))"
      "OnDestroy (http_filter P f) (sint reason) w = (Ok (), w2)"
  shows "moeOnHttpDestroy (httpCApiImpl E) P r reason w = (Ok (), destroyed rq r reason w2)"
proof -
  have "destroyable rq r w2"
    using destroyable_same_life [OF abidesD [OF user(1)] J] user(2) by simp
  from destroy_tail_eq [OF this] show ?thesis
    using req q cq user(2)
    by (simp add: moeOnHttpDestroy_eq getRequest_def GetReq_def filter_of_def)
qed

lemma moeOnHttpDestroy_inv:
  assumes P: "plugin_abides P" and inv: "life_inv w" and own: "\<And>i. \<not> owns w i r"
  shows "life_inv (snd (moeOnHttpDestroy (httpCApiImpl E) P r reason w))"
proof (cases "Requests w r")
  case None
  then show ?thesis using inv by (simp add: moeOnHttpDestroy_def getRequest_def GetReq_def)
next
  case (Some rq)
  have a: "armed w rq r" using inv Some by (rule life_invD(3))
  obtain q where q: "httpRequests w rq = Some q"
    using a by (auto simp: armed_def split: option.splits)
  have J: "destroyable rq r w" using inv a own by (simp add: destroyable_def)
  have user: "abides (go_bind (filter_of P rq) (\<lambda>f. OnDestroy f (sint reason)))"
    using P by (intro abides_filter_call) (simp add: plugin_abides_def)
  have fin: "destroyable rq r w \<Longrightarrow> life_inv (snd (destroy_tail (httpCApiImpl E) rq r reason w))" for w
    by (simp add: destroy_tail_eq destroyed_inv)
  have body: "life_inv (snd ((go_bind (c_field waitSema r) (\<lambda>s.
          go_bind (go_when (s = 1) (sema_Done rq)) (\<lambda>_.
          go_bind (go_bind (filter_of P rq) (\<lambda>f. OnDestroy f (sint reason))) (\<lambda>_.
          destroy_tail (httpCApiImpl E) rq r reason)))) w))"
    by (rule destroyable_bind [OF abides_c_field], rule destroyable_bind [OF abides_when],
        rule abides_sema_Done, rule destroyable_bind [OF user], erule fin) (assumption | rule J)+
  have "moeOnHttpDestroy (httpCApiImpl E) P r reason w = go_recover ()
         (go_bind (c_field waitSema r) (\<lambda>s.
          go_bind (go_when (s = 1) (sema_Done rq)) (\<lambda>_.
          go_bind (go_bind (filter_of P rq) (\<lambda>f. OnDestroy f (sint reason))) (\<lambda>_.
          destroy_tail (httpCApiImpl E) rq r reason))))
         (RecoverPanic (httpCApiImpl E) recover_fuel rq) w"
    unfolding moeOnHttpDestroy_eq getRequest_def GetReq_def
    by (subst go_bind_Ok [OF go_gets_apply], subst go_bind_Ok [of _ _ rq w], simp add: Some,
        subst go_bind_Ok [of _ _ q w], simp add: q, rule refl)
  then show ?thesis
    by (simp only:) (rule recover_post, rule body, rule abides_inv, rule abides_reply(2) [OF httpCApiImpl_abides])
qed

subsection \<open>Interleavings\<close>

text \<open>
  The steps of the system around one plugin. Envoy creates filters, enters Go for a filter that is
  not destroyed, destroys it once and frees the filter object; any number of filters interleave,
  as do the worker thread, goroutines of the plugin and the garbage collector, which runs the
  finalizer of an object that the request map no longer holds. The headers of the request reach
  a filter first, so a callback in the decode-header phase finds no Go object yet.
\<close>

definition new_filter :: "nat \<Rightarrow> ('h, 'b, 'cfg, 'u) world \<Rightarrow> ('h, 'b, 'cfg, 'u) world" where
  "new_filter i w = w\<lparr>cside := put_filter i Filter_new (cside w)\<rparr>"

definition new_struct ::
    "nat \<Rightarrow> 'b Filter \<Rightarrow> nat \<Rightarrow> ('h, 'b, 'cfg, 'u) world \<Rightarrow> ('h, 'b, 'cfg, 'u) world" where
  "new_struct i F r w = w\<lparr>cside := put_creq r (httpRequestInternal_new i)
     (put_filter i (F\<lparr>filter_req := Some r\<rparr>) (cside w))\<rparr>"

definition mark_destroyed ::
    "nat \<Rightarrow> 'b Filter \<Rightarrow> ('h, 'b, 'cfg, 'u) world \<Rightarrow> ('h, 'b, 'cfg, 'u) world" where
  "mark_destroyed i F w = w\<lparr>cside := put_filter i (F\<lparr>has_destroyed := True\<rparr>) (cside w)\<rparr>"

definition drop_filter :: "nat \<Rightarrow> ('h, 'b, 'cfg, 'u) world \<Rightarrow> ('h, 'b, 'cfg, 'u) world" where
  "drop_filter i w = w\<lparr>cside := (cside w)\<lparr>filters := (filters (cside w))(i := None)\<rparr>\<rparr>"

inductive life_step ::
    "('h, 'b) envoy \<Rightarrow> (('h, 'b, 'cfg, 'u) world, 'cfg) plugin \<Rightarrow>
     ('h, 'b, 'cfg, 'u) world \<Rightarrow> ('h, 'b, 'cfg, 'u) world \<Rightarrow> bool"
  for E P where
  NewFilter: "filters (cside w) i = None \<Longrightarrow> life_step E P w (new_filter i w)"
| NewStruct: "filters (cside w) i = Some F \<Longrightarrow> filter_req F = None \<Longrightarrow> \<not> has_destroyed F \<Longrightarrow>
    creqs (cside w) r = None \<Longrightarrow> life_step E P w (new_struct i F r w)"
| OnHeader: "owns w i r \<Longrightarrow>
    (\<And>q. creqs (cside w) r = Some q \<Longrightarrow> phase q = DecodeHeaderPhase \<Longrightarrow> Requests w r = None) \<Longrightarrow>
    moeOnHttpHeader (httpCApiImpl E) P r eos num bytes w = (x, w') \<Longrightarrow> life_step E P w w'"
| OnData: "owns w i r \<Longrightarrow>
    moeOnHttpData (httpCApiImpl E) P r eos buf len w = (x, w') \<Longrightarrow> life_step E P w w'"
| OnSema: "owns w i r \<Longrightarrow>
    moeOnHttpSemaCallback (httpCApiImpl E) r w = (y, w') \<Longrightarrow> life_step E P w w'"
| OnDestroyed: "filters (cside w) i = Some F \<Longrightarrow> filter_req F = Some r \<Longrightarrow> \<not> has_destroyed F \<Longrightarrow>
    moeOnHttpDestroy (httpCApiImpl E) P r reason (mark_destroyed i F w) = (y, w') \<Longrightarrow>
    life_step E P w w'"
| DropFilter: "filters (cside w) i = Some F \<Longrightarrow> has_destroyed F \<Longrightarrow>
    life_step E P w (drop_filter i w)"
| Worker: "same_c (cside w) c \<Longrightarrow> life_step E P w (w\<lparr>cside := c\<rparr>)"
| Goroutine: "abides (m :: (('h, 'b, 'cfg, 'u) world, unit) go) \<Longrightarrow> m w = (z, w') \<Longrightarrow>
    life_step E P w w'"
| Collect: "armed w rq r \<Longrightarrow> Requests w r \<noteq> Some rq \<Longrightarrow> (\<And>i. \<not> owns w i r) \<Longrightarrow>
    requestFinalize (httpCApiImpl E) rq (disarm rq w) = (y, w') \<Longrightarrow> life_step E P w w'"

inductive_cases life_stepE: "life_step E P w w'"

text \<open>Before the first request: no filter, no struct, no Go object.\<close>

definition life_start :: "('h, 'b, 'cfg, 'u) world \<Rightarrow> bool" where
  "life_start w \<longleftrightarrow> filters (cside w) = Map.empty \<and> creqs (cside w) = Map.empty \<and>
     httpRequests w = Map.empty \<and> Requests w = Map.empty"

inductive life_reachable ::
    "('h, 'b) envoy \<Rightarrow> (('h, 'b, 'cfg, 'u) world, 'cfg) plugin \<Rightarrow> ('h, 'b, 'cfg, 'u) world \<Rightarrow> bool"
  for E P where
  life_init: "life_start w \<Longrightarrow> life_reachable E P w"
| life_next: "life_reachable E P w \<Longrightarrow> life_step E P w w' \<Longrightarrow> life_reachable E P w'"

lemma life_start_inv: "life_start w \<Longrightarrow> life_inv w"
  by (simp add: life_start_def life_inv_def armed_def owns_def go_object_def)

lemma cside_views:
  shows "armed (w\<lparr>cside := c\<rparr>) = armed w" and "Requests (w\<lparr>cside := c\<rparr>) = Requests w"
    and "go_object (w\<lparr>cside := c\<rparr>) = go_object w" and "next_ptr (w\<lparr>cside := c\<rparr>) = next_ptr w"
  by (auto simp: armed_def go_object_def fun_eq_iff)

lemma owns_subset_inv:
  assumes inv: "life_inv w" and own: "\<And>i r. owns (w\<lparr>cside := c\<rparr>) i r \<Longrightarrow> owns w i r"
    and al: "alive (w\<lparr>cside := c\<rparr>) = alive w"
  shows "life_inv (w\<lparr>cside := c\<rparr>)"
  using life_invD [OF inv] own unfolding life_inv_def cside_views al
  by (intro conjI allI impI) blast+

lemma new_filter_inv:
  assumes inv: "life_inv w" and i: "filters (cside w) i = None"
  shows "life_inv (new_filter i w)"
  unfolding new_filter_def
  by (rule owns_subset_inv [OF inv])
    (use i in \<open>auto simp: owns_def alive_def put_filter_def Filter_new_def fun_eq_iff
      split: if_splits\<close>)

lemma new_struct_inv:
  assumes inv: "life_inv w" and F: "filters (cside w) i = Some F" "filter_req F = None"
    "\<not> has_destroyed F" and r: "creqs (cside w) r = None"
  shows "life_inv (new_struct i F r w)"
proof -
  let ?w = "new_struct i F r w"
  have views: "armed ?w = armed w" "Requests ?w = Requests w" "go_object ?w = go_object w"
    "next_ptr ?w = next_ptr w"
    by (simp_all add: new_struct_def cside_views)
  have own: "owns ?w j r' = (if j = i then r' = r else owns w j r')" for j r'
    using F by (auto simp: owns_def new_struct_def put_filter_def put_creq_def)
  have al: "alive ?w r' = (r' = r \<or> alive w r')" for r'
    by (auto simp: alive_def new_struct_def put_filter_def put_creq_def)
  have dead: "\<not> alive w r" using r by (simp add: alive_def)
  note I = life_invD [OF inv]
  have un: "\<not> armed w rq r" "\<not> owns w j r" for rq j using I(1,5) dead by blast+
  show ?thesis
    unfolding life_inv_def views own al
  proof (intro conjI allI impI)
    fix rq r' j assume "armed w rq r'" "if j = i then r' = r else owns w j r'"
    then show "Requests w r' = Some rq" using un(1) I(4) by (auto split: if_splits)
  next
    fix j r' assume "if j = i then r' = r else owns w j r'"
    then show "r' = r \<or> alive w r'" using I(5) by (auto split: if_splits)
  next
    fix j k r' assume "if j = i then r' = r else owns w j r'" "if k = i then r' = r else owns w k r'"
    then show "j = k" using un(2) I(6) by (auto split: if_splits)
  qed (blast intro: I)+
qed

lemma mark_destroyed_inv:
  assumes inv: "life_inv w" and F: "filters (cside w) i = Some F" "filter_req F = Some r"
    "\<not> has_destroyed F"
  shows "life_inv (mark_destroyed i F w)" and "\<not> owns (mark_destroyed i F w) j r"
proof -
  have i: "owns w i r" using F by (simp add: owns_def)
  have own: "owns (mark_destroyed i F w) j r' = (j \<noteq> i \<and> owns w j r')" for j r'
    by (auto simp: owns_def mark_destroyed_def put_filter_def)
  show "life_inv (mark_destroyed i F w)"
    unfolding mark_destroyed_def
    by (rule owns_subset_inv [OF inv])
      (use own in \<open>auto simp: mark_destroyed_def alive_def put_filter_def fun_eq_iff\<close>)
  show "\<not> owns (mark_destroyed i F w) j r"
    using own life_invD(6) [OF inv i] by auto
qed

lemma drop_filter_inv:
  assumes inv: "life_inv w"
  shows "life_inv (drop_filter i w)"
  unfolding drop_filter_def
  by (rule owns_subset_inv [OF inv]) (auto simp: owns_def alive_def fun_eq_iff split: if_splits)

lemma requestFinalize_eq:
  assumes "life_inv w" "armed w rq r"
  shows "requestFinalize (httpCApiImpl E) rq (disarm rq w) =
    (Ok (), free_struct r (disarm rq w))"
proof -
  have "go_object (disarm rq w) rq = Some r" "alive (disarm rq w) r"
    using armed_go_object [OF assms(2)] life_invD(1) [OF assms] by (simp_all add: disarm_views)
  then show ?thesis
    unfolding requestFinalize_def httpRequest_Finalize_def httpCApiImpl_simps
    by (rule Finalize_alive)
qed

lemma life_step_inv:
  assumes "life_step E P w w'" "plugin_abides P" "life_inv w"
  shows "life_inv w'"
  using assms
proof (induction rule: life_step.induct)
  case (OnHeader w i r eos num bytes x w')
  then show ?case
    using moeOnHttpHeader_inv [OF httpCApiImpl_abides, of P w i r E eos num bytes] by simp
next
  case (OnData w i r eos buf len x w')
  then show ?case
    using same_life_inv [OF abidesD [OF moeOnHttpData_abides [OF httpCApiImpl_abides]], of P w]
    by (metis snd_conv)
next
  case (OnSema w i r y w')
  then show ?case
    using same_life_inv [OF abidesD [OF moeOnHttpSemaCallback_abides [OF httpCApiImpl_abides]], of w]
    by (metis snd_conv)
next
  case (OnDestroyed w i F r reason y w')
  then show ?case
    using moeOnHttpDestroy_inv [OF OnDestroyed.prems(1) mark_destroyed_inv(1)
        mark_destroyed_inv(2), of w i F r r E reason] by simp
next
  case (Goroutine m w z w')
  then show ?case using same_life_inv [OF abidesD] by (metis snd_conv)
next
  case (Collect w rq r y w')
  then show ?case
    using requestFinalize_eq [of w rq r E] free_inv [of w rq r] by simp
qed (simp_all add: new_filter_inv new_struct_inv drop_filter_inv same_life_inv [OF same_life_same_c])

lemma life_reachable_inv:
  "life_reachable E P w \<Longrightarrow> plugin_abides P \<Longrightarrow> life_inv w"
  by (induction rule: life_reachable.induct) (simp_all add: life_start_inv life_step_inv)

text \<open>
  Without a registered plugin the library passes every phase through: the callbacks return
  \<open>Continue\<close> and leave Envoy's side as it was.
\<close>

lemma pass_through_is_transparent:
  assumes "creqs (cside w) r = Some cq" "Requests w r = Some rq" "httpRequests w rq = Some q"
    and "httpFilter q = Some f" "\<not> paniced q"
  shows "(phase cq \<in> {DecodeTrailerPhase, EncodeHeaderPhase, EncodeTrailerPhase} \<longrightarrow>
      (\<exists>w'. moeOnHttpHeader C default_plugin r e n b w = (Ok (status_to_u64 Continue), w') \<and>
         cside w' = cside w)) \<and>
    (\<exists>w'. moeOnHttpData C default_plugin r e a len w = (Ok (status_to_u64 Continue), w') \<and>
         cside w' = cside w)"
  using assms
  by (auto simp: moeOnHttpHeader_known moeOnHttpData_def getRequest_def GetReq_def header_switch_def
      filter_of_def default_plugin_def passThroughFilter_def new_headerMap_def new_trailerMap_def
      new_httpBuffer_def)

end
