(* ===== verification/Metadata.thy ===== *)
theory Metadata
  imports Lifecycle
begin

text \<open>
  Dynamic metadata: \<open>HttpGetDynamicMetadata\<close> and \<open>HttpSetDynamicMetadata\<close> of \<^verbatim>\<open>capi.go\<close>, and the
  closures the C side posts for them. A read from a goroutine blocks: it adds to the request's
  wait group, takes the request's mutex, makes the C call and waits until the closure has run on
  the worker thread, or until the filter is destroyed. Its segments between two blocking points
  are the program counters \<open>meta_pc\<close> of a step relation over any number of goroutines.
\<close>

subsection \<open>Writing\<close>

text \<open>\<open>marshal\<close> is \<^verbatim>\<open>structpb.NewValue\<close> followed by \<^verbatim>\<open>proto.Marshal\<close>: an error, or the bytes.\<close>

definition impl_HttpSetDynamicMetadata ::
    "('h, 'b) envoy \<Rightarrow> ('v \<Rightarrow> string + string) \<Rightarrow> bool \<Rightarrow> nat \<Rightarrow> string \<Rightarrow> string \<Rightarrow> 'v \<Rightarrow>
     (('h, 'b, 'cfg, 'u) world, unit) go" where
  "impl_HttpSetDynamicMetadata E marshal worker r filterName key value =
     (case marshal value of
        Inl err \<Rightarrow> go_panic (PanicError err)
      | Inr buf \<Rightarrow> go_bind
          (c_call r (\<lambda>p. moeHttpSetDynamicMetadata E worker p filterName key buf))
          handleCApiStatus)"

definition dynamicMetadata_Set ::
    "('h, 'b) envoy \<Rightarrow> ('v \<Rightarrow> string + string) \<Rightarrow> bool \<Rightarrow> nat \<Rightarrow> string \<Rightarrow> string \<Rightarrow> 'v \<Rightarrow>
     (('h, 'b, 'cfg, 'u) world, unit) go" where
  "dynamicMetadata_Set E marshal worker d filterName key value =
     impl_HttpSetDynamicMetadata E marshal worker d filterName key value"

subsection \<open>Reading\<close>

text \<open>
  The program counters of one read: before \<^verbatim>\<open>r.sema.Add(1)\<close>, before \<^verbatim>\<open>r.mutex.Lock()\<close>, before the
  C call, in \<^verbatim>\<open>r.sema.Wait()\<close>, and after the return, with the bytes found (none when the slice is
  empty) or the panic.
\<close>

datatype meta_pc =
    MetaAdd nat string | MetaLock nat string | MetaCall nat string | MetaWait nat
  | MetaDone "string option outcome"

text \<open>\<^verbatim>\<open>streamInfo\<close> and \<^verbatim>\<open>dynamicMetadata\<close> hold the request's pointer only; \<^verbatim>\<open>Get\<close> begins a read.\<close>

definition streamInfo_DynamicMetadata :: "nat \<Rightarrow> nat" where
  "streamInfo_DynamicMetadata s = s"

definition dynamicMetadata_Get :: "nat \<Rightarrow> string \<Rightarrow> meta_pc" where
  "dynamicMetadata_Get d filterName = MetaAdd d filterName"

text \<open>
  \<open>mutex\<close> is the holder of a request's mutex. The slice of a read is a variable of its goroutine,
  so the goroutine names it.
\<close>

record ('h, 'b, 'cfg, 'u) meta_conf =
  mw :: "('h, 'b, 'cfg, 'u) world"
  mutex :: "nat \<Rightarrow> nat option"
  pcs :: "nat \<Rightarrow> meta_pc option"

definition sema_Add :: "nat \<Rightarrow> (('h, 'b, 'cfg, 'u) world, unit) go" where
  "sema_Add r = set_request (sema_update (\<lambda>n. n + 1)) r"

text \<open>The call and what follows it when it did not yield.\<close>

definition meta_call ::
    "bool \<Rightarrow> nat \<Rightarrow> string \<Rightarrow> nat \<Rightarrow> (('h, 'b, 'cfg, 'u) world, bool) go" where
  "meta_call worker r filterName slot =
     go_then (go_modify (\<lambda>w. w\<lparr>cside := (cside w)\<lparr>go_slots := (go_slots (cside w))(slot := False)\<rparr>\<rparr>))
    (go_bind (c_call r (\<lambda>p. moeHttpGetDynamicMetadata worker p filterName slot)) (\<lambda>res.
       if res = CAPIYield then go_return False
       else go_then (sema_Done r) (go_then (handleCApiStatus res) (go_return True))))"

text \<open>The bytes the slice points to; \<^verbatim>\<open>len(buf) == 0\<close> is an empty result.\<close>

definition meta_bytes :: "nat \<Rightarrow> nat \<Rightarrow> (('h, 'b, 'cfg, 'u) world, string option) go" where
  "meta_bytes r slot =
     go_bind (go_gets (\<lambda>w. go_slots (cside w) slot)) (\<lambda>is_set.
       if is_set then
         go_bind (deref httpRequests r) (\<lambda>q.
         go_bind (c_field strValue (req q)) (\<lambda>s.
           go_return (if s = [] then None else Some s)))
       else go_return None)"

text \<open>\<open>decode\<close> is \<^verbatim>\<open>proto.Unmarshal\<close> and \<^verbatim>\<open>AsMap\<close>; \<open>no_meta\<close> is the empty map.\<close>

definition meta_result :: "(string \<Rightarrow> 'm) \<Rightarrow> 'm \<Rightarrow> string option \<Rightarrow> 'm" where
  "meta_result decode no_meta x = (case x of None \<Rightarrow> no_meta | Some s \<Rightarrow> decode s)"

text \<open>
  A closure of the dispatcher. The ones of \<open>continueStatus\<close> and \<open>sendLocalReply\<close> are left to the
  worker thread as they are.
\<close>

definition live_filter :: "nat \<Rightarrow> ('h, 'b) cstate \<Rightarrow> 'b Filter option" where
  "live_filter i c = (case filters c i of
      None \<Rightarrow> None | Some F \<Rightarrow> if has_destroyed F then None else Some F)"

definition run_posted ::
    "('h, 'b) envoy \<Rightarrow> nat \<Rightarrow> posted_event \<Rightarrow> (('h, 'b, 'cfg, 'u) world, unit) go" where
  "run_posted E i e = go_bind (go_gets (\<lambda>w. live_filter i (cside w))) (\<lambda>x. case x of
      None \<Rightarrow> go_return ()
    | Some F \<Rightarrow> (case e of
        PostGetMetadata name slot \<Rightarrow>
          go_then (on_c (upd_creq F (waitSema_update (\<lambda>_. 0))))
         (go_then (on_c (give_metadata name slot i F))
            (moeOnHttpSemaCallback (httpCApiImpl E) (the (filter_req F))))
      | PostSetMetadata name key value \<Rightarrow>
          on_c (go_modify (setDynamicMetadataInternal E i name key value))
      | _ \<Rightarrow> go_return ()))"

definition pop_posted :: "('h, 'b, 'cfg, 'u) world \<Rightarrow> ('h, 'b, 'cfg, 'u) world" where
  "pop_posted w = w\<lparr>cside := (cside w)\<lparr>posted := tl (posted (cside w))\<rparr>\<rparr>"

inductive meta_step ::
    "('h, 'b) envoy \<Rightarrow> (('h, 'b, 'cfg, 'u) world, 'cfg) plugin \<Rightarrow>
     ('h, 'b, 'cfg, 'u) meta_conf \<Rightarrow> ('h, 'b, 'cfg, 'u) meta_conf \<Rightarrow> bool" for E P where
  StepAdd: "pcs s g = Some (MetaAdd r name) \<Longrightarrow> sema_Add r (mw s) = (Ok (), w') \<Longrightarrow>
    meta_step E P s (s\<lparr>mw := w', pcs := (pcs s)(g \<mapsto> MetaLock r name)\<rparr>)"
| StepLock: "pcs s g = Some (MetaLock r name) \<Longrightarrow> mutex s r = None \<Longrightarrow>
    meta_step E P s (s\<lparr>mutex := (mutex s)(r \<mapsto> g), pcs := (pcs s)(g \<mapsto> MetaCall r name)\<rparr>)"
| StepYield: "pcs s g = Some (MetaCall r name) \<Longrightarrow> meta_call worker r name g (mw s) = (Ok False, w') \<Longrightarrow>
    meta_step E P s (s\<lparr>mw := w', pcs := (pcs s)(g \<mapsto> MetaWait r)\<rparr>)"
| StepAtOnce: "pcs s g = Some (MetaCall r name) \<Longrightarrow> meta_call worker r name g (mw s) = (Ok True, w1) \<Longrightarrow>
    meta_bytes r g w1 = (x, w') \<Longrightarrow>
    meta_step E P s
      (s\<lparr>mw := w', mutex := (mutex s)(r := None), pcs := (pcs s)(g \<mapsto> MetaDone x)\<rparr>)"
| StepPanic: "pcs s g = Some (MetaCall r name) \<Longrightarrow> meta_call worker r name g (mw s) = (Panic p, w') \<Longrightarrow>
    meta_step E P s
      (s\<lparr>mw := w', mutex := (mutex s)(r := None), pcs := (pcs s)(g \<mapsto> MetaDone (Panic p))\<rparr>)"
| StepResume: "pcs s g = Some (MetaWait r) \<Longrightarrow> httpRequests (mw s) r = Some q \<Longrightarrow> sema q = 0 \<Longrightarrow>
    meta_bytes r g (mw s) = (x, w') \<Longrightarrow>
    meta_step E P s
      (s\<lparr>mw := w', mutex := (mutex s)(r := None), pcs := (pcs s)(g \<mapsto> MetaDone x)\<rparr>)"
| StepPosted: "posted (cside (mw s)) = (i, e) # es \<Longrightarrow>
    run_posted E i e (pop_posted (mw s)) = (Ok (), w') \<Longrightarrow> meta_step E P s (s\<lparr>mw := w'\<rparr>)"
| StepDestroy: "filters (cside (mw s)) i = Some F \<Longrightarrow> filter_req F = Some r \<Longrightarrow> \<not> has_destroyed F \<Longrightarrow>
    reason = (if isProcessingInGo (getProcessorState F) then Terminate else Normal) \<Longrightarrow>
    moeOnHttpDestroy (httpCApiImpl E) P r (word_of_int reason)
      ((mw s)\<lparr>cside := put_filter i (F\<lparr>has_destroyed := True\<rparr>) (cside (mw s))\<rparr>) = (y, w') \<Longrightarrow>
    meta_step E P s (s\<lparr>mw := w'\<rparr>)"

inductive_cases meta_stepE: "meta_step E P s s'"

subsection \<open>Calls\<close>

lemma upd_creq_apply:
  "upd_creq F f c = (case Option.bind (filter_req F) (creqs c) of
     None \<Rightarrow> (Fault UseAfterFree, c)
   | Some q \<Rightarrow> (Ok (), put_creq (the (filter_req F)) (f q) c))"
  by (simp add: upd_creq_def)

definition set_slot :: "nat \<Rightarrow> bool \<Rightarrow> ('h, 'b) cstate \<Rightarrow> ('h, 'b) cstate" where
  "set_slot g b c = c\<lparr>go_slots := (go_slots c)(g := b)\<rparr>"

lemma api_gate_set_slot [simp]: "api_gate (w\<lparr>cside := set_slot g b (cside w)\<rparr>) r = api_gate w r"
  by (rule api_gate_cong) (simp_all add: set_slot_def)

text \<open>A read from a goroutine yields: the closure is posted and \<open>waitSema\<close> is set.\<close>

definition yielded ::
    "nat \<Rightarrow> nat \<Rightarrow> string \<Rightarrow> nat \<Rightarrow> httpRequestInternal \<Rightarrow> ('h, 'b, 'cfg, 'u) world \<Rightarrow>
     ('h, 'b, 'cfg, 'u) world" where
  "yielded k i name g cq w = w\<lparr>cside := post i (PostGetMetadata name g)
     (put_creq k (cq\<lparr>waitSema := 1\<rparr>) (set_slot g False (cside w)))\<rparr>"

lemma meta_call_yields:
  assumes gate: "api_gate w r = Ok (i, F)" and F: "filter_req F = Some k"
    and cq: "creqs (cside w) k = Some cq"
  shows "meta_call False r name g w = (Ok False, yielded k i name g cq w)"
proof -
  let ?w = "w\<lparr>cside := set_slot g False (cside w)\<rparr>"
  have g: "api_gate ?w r = Ok (i, F)" using gate by simp
  have "c_call r (\<lambda>p. moeHttpGetDynamicMetadata False p name g) ?w =
      (Ok CAPIYield, yielded k i name g cq w)"
    unfolding moeHttpGetDynamicMetadata_def getDynamicMetadata_def gate_open [OF g]
    using F cq by (simp add: upd_creq_apply set_slot_def yielded_def)
  then show ?thesis by (simp add: meta_call_def set_slot_def)
qed

lemma on_worker_reads:
  assumes "filter_req F = Some k" "creqs c k = Some cq"
  shows "give_metadata name g i F c = (Ok (), case dyn_meta c i name of
      None \<Rightarrow> c
    | Some bytes \<Rightarrow> set_slot g True (put_creq k (cq\<lparr>strValue := bytes\<rparr>) c))"
  using assms by (auto simp: give_metadata_def upd_creq_apply set_slot_def split: option.split)

text \<open>The closure wakes the reader: the wait group is counted down by one.\<close>

lemma run_get_wakes:
  assumes F: "live_filter i (cside w) = Some F" "filter_req F = Some k"
    and cq: "creqs (cside w) k = Some cq" and r: "Requests w k = Some r"
    and q: "httpRequests w r = Some q" "1 \<le> sema q"
  shows "run_posted E i (PostGetMetadata name g) w =
    (Ok (), upd_request r (sema_update (\<lambda>n. n - 1))
      (w\<lparr>cside := (case dyn_meta (cside w) i name of
          None \<Rightarrow> put_creq k (cq\<lparr>waitSema := 0\<rparr>) (cside w)
        | Some bytes \<Rightarrow> set_slot g True (put_creq k (cq\<lparr>waitSema := 0, strValue := bytes\<rparr>) (cside w)))\<rparr>))"
proof -
  let ?c = "put_creq k (cq\<lparr>waitSema := 0\<rparr>) (cside w)"
  have "creqs ?c k = Some (cq\<lparr>waitSema := 0\<rparr>)" "dyn_meta ?c = dyn_meta (cside w)"
    by (simp_all add: put_creq_def)
  note give = on_worker_reads [OF F(2) this(1), of name g i] this
  have step: "run_posted E i (PostGetMetadata name g) w =
      go_then (on_c (give_metadata name g i F)) (moeOnHttpSemaCallback (httpCApiImpl E) k)
        (w\<lparr>cside := ?c\<rparr>)"
    using F cq by (simp add: run_posted_def upd_creq_apply)
  show ?thesis
    unfolding step
    using give r q
    by (auto simp: moeOnHttpSemaCallback_def getRequest_def GetReq_def sema_Done_apply put_creq_def
        set_slot_def split: option.split)
qed

subsection \<open>Runs of one read\<close>

lemma sema_Add_apply: "sema_Add r w = (case httpRequests w r of
    None \<Rightarrow> (Panic nil_deref, w) | Some q \<Rightarrow> (Ok (), upd_request r (sema_update (\<lambda>n. n + 1)) w))"
  by (simp add: sema_Add_def split: option.split)

lemma api_gate_upd_sema [simp]: "api_gate (upd_request r (sema_update f) w) r' = api_gate w r'"
  by (cases "r' = r") (simp_all add: api_gate_def split: option.split)

text \<open>With the mutex free a read gets as far as the wait group.\<close>

definition waiting ::
    "nat \<Rightarrow> nat \<Rightarrow> nat \<Rightarrow> string \<Rightarrow> nat \<Rightarrow> httpRequestInternal \<Rightarrow> ('h, 'b, 'cfg, 'u) meta_conf \<Rightarrow>
     ('h, 'b, 'cfg, 'u) meta_conf" where
  "waiting k i r name g cq s =
     s\<lparr>mw := yielded k i name g cq (upd_request r (sema_update (\<lambda>n. n + 1)) (mw s)),
       mutex := (mutex s)(r \<mapsto> g), pcs := (pcs s)(g \<mapsto> MetaWait r)\<rparr>"

lemma read_waits:
  assumes "api_gate (mw s) r = Ok (i, F)" "filter_req F = Some k" "creqs (cside (mw s)) k = Some cq"
    and "mutex s r = None" "pcs s g = Some (MetaAdd r name)"
  shows "(meta_step E P)\<^sup>*\<^sup>* s (waiting k i r name g cq s)"
proof -
  let ?w = "upd_request r (sema_update (\<lambda>n. n + 1)) (mw s)"
  let ?s1 = "s\<lparr>mw := ?w, pcs := (pcs s)(g \<mapsto> MetaLock r name)\<rparr>"
  let ?s2 = "?s1\<lparr>mutex := (mutex ?s1)(r \<mapsto> g), pcs := (pcs ?s1)(g \<mapsto> MetaCall r name)\<rparr>"
  obtain q where "httpRequests (mw s) r = Some q" using assms(1) by (rule gate_openE)
  then have "meta_step E P s ?s1"
    by (intro StepAdd assms) (simp add: sema_Add_apply)
  moreover have "meta_step E P ?s1 ?s2"
    by (rule StepLock) (simp_all add: assms)
  moreover have "meta_step E P ?s2
      (?s2\<lparr>mw := yielded k i name g cq ?w, pcs := (pcs ?s2)(g \<mapsto> MetaWait r)\<rparr>)"
    by (rule StepYield [where worker = False], simp, simp,
        rule meta_call_yields [of _ _ i F]) (simp_all add: assms)
  ultimately have "(meta_step E P)\<^sup>*\<^sup>* s
      (?s2\<lparr>mw := yielded k i name g cq ?w, pcs := (pcs ?s2)(g \<mapsto> MetaWait r)\<rparr>)"
    by (meson converse_rtranclp_into_rtranclp rtranclp.rtrancl_refl)
  then show ?thesis by (cases s) (simp add: waiting_def)
qed

text \<open>The closure it posted, run first, counts the wait group down.\<close>

definition given ::
    "nat \<Rightarrow> nat \<Rightarrow> string \<Rightarrow> nat \<Rightarrow> httpRequestInternal \<Rightarrow> ('h, 'b) cstate \<Rightarrow> ('h, 'b) cstate" where
  "given k i name g cq c = (case dyn_meta c i name of
      None \<Rightarrow> put_creq k (cq\<lparr>waitSema := 0\<rparr>) (set_slot g False c)
    | Some bytes \<Rightarrow> set_slot g True (put_creq k (cq\<lparr>waitSema := 0, strValue := bytes\<rparr>) c))"

lemma read_posted:
  assumes F: "filters (cside w) i = Some F" "\<not> has_destroyed F" "filter_req F = Some k"
    and r: "Requests w k = Some r" "httpRequests w r = Some q" "1 \<le> sema q"
    and p: "posted (cside w) = []"
  shows "posted (cside (yielded k i name g cq w)) = [(i, PostGetMetadata name g)]"
    and "run_posted E i (PostGetMetadata name g) (pop_posted (yielded k i name g cq w)) =
      (Ok (), upd_request r (sema_update (\<lambda>n. n - 1)) (w\<lparr>cside := given k i name g cq (cside w)\<rparr>))"
proof -
  let ?w = "pop_posted (yielded k i name g cq w)"
  have w: "?w = w\<lparr>cside := put_creq k (cq\<lparr>waitSema := 1\<rparr>) (set_slot g False (cside w))\<rparr>"
    using p by (simp add: pop_posted_def yielded_def post_def put_creq_def set_slot_def)
  have F': "live_filter i (cside ?w) = Some F"
    using F by (simp add: w live_filter_def put_creq_def set_slot_def)
  have cq: "creqs (cside ?w) k = Some (cq\<lparr>waitSema := 1\<rparr>)" by (simp add: w put_creq_def)
  have r': "Requests ?w k = Some r" "httpRequests ?w r = Some q" using r by (simp_all add: w)
  show "posted (cside (yielded k i name g cq w)) = [(i, PostGetMetadata name g)]"
    using p by (simp add: yielded_def post_def put_creq_def set_slot_def)
  show "run_posted E i (PostGetMetadata name g) ?w =
      (Ok (), upd_request r (sema_update (\<lambda>n. n - 1)) (w\<lparr>cside := given k i name g cq (cside w)\<rparr>))"
    unfolding run_get_wakes [OF F' F(3) cq r' r(3)]
    by (simp add: w given_def put_creq_def set_slot_def split: option.split)
qed

lemma given_frame:
  shows "creqs (given k i name g cq c) k = Some (cq\<lparr>waitSema := 0,
      strValue := (case dyn_meta c i name of None \<Rightarrow> strValue cq | Some s \<Rightarrow> s)\<rparr>)"
    and "go_slots (given k i name g cq c) g = (dyn_meta c i name \<noteq> None)"
    and "posted (given k i name g cq c) = posted c"
    and "filters (given k i name g cq c) = filters c"
  by (simp_all add: given_def put_creq_def set_slot_def split: option.split)

subsection \<open>What a destroy changes\<close>

text \<open>
  \<open>calm w w'\<close>: from \<open>w\<close> to \<open>w'\<close> no wait group moved, no struct of the C side came into being or
  changed its \<open>waitSema\<close>, no read was posted, no request was added to the map and no slot was set.
\<close>

fun is_get :: "posted_event \<Rightarrow> bool" where
  "is_get (PostGetMetadata name g) = True"
| "is_get _ = False"

definition calm :: "('h, 'b, 'cfg, 'u) world \<Rightarrow> ('h, 'b, 'cfg, 'u) world \<Rightarrow> bool" where
  "calm w w' \<longleftrightarrow>
     (\<forall>r. map_option sema (httpRequests w' r) = map_option sema (httpRequests w r)) \<and>
     (\<forall>k cq. creqs (cside w') k = Some cq \<longrightarrow>
        (\<exists>cq0. creqs (cside w) k = Some cq0 \<and> waitSema cq0 = waitSema cq)) \<and>
     (\<forall>x \<in> set (posted (cside w')). is_get (snd x) \<longrightarrow> x \<in> set (posted (cside w))) \<and>
     (\<forall>k r. Requests w' k = Some r \<longrightarrow> Requests w k = Some r) \<and>
     go_slots (cside w') = go_slots (cside w)"

lemma calm_self [simp]: "calm w w"
  by (simp add: calm_def)

text \<open>A plugin whose \<open>OnDestroy\<close> does not touch the library's state.\<close>

definition quiet_plugin :: "(('h, 'b, 'cfg, 'u) world, 'cfg) plugin \<Rightarrow> bool" where
  "quiet_plugin P \<longleftrightarrow> (\<forall>f reason w. snd (OnDestroy (http_filter P f) reason w) = w)"

lemma keeps_calm_set:
  "(\<And>q. sema (f q) = sema q) \<Longrightarrow> keeps (calm w) (set_request f rq)"
  by (auto simp: keeps_def calm_def option.map_comp comp_def upd_request_def split: option.split)
    (metis option.map(2))

lemma keeps_calm_call:
  "keeps (calm w) (httpRequest_SendLocalReply (httpCApiImpl E) rq code body hdrs grpc details)"
  by (auto simp: keeps_def calm_def httpRequest_SendLocalReply_def impl_HttpSendLocalReply_eq
      post_event_def post_def reply_event_def split: outcome.split)

lemma keeps_c_field [go_inv]: "keeps I (c_field sl ptr)"
  by (simp add: keeps_def split: option.split)

lemma keeps_Phase: "keeps I (httpRequest_Phase rq)"
  unfolding httpRequest_Phase_def by (intro go_inv keeps_deref)

lemma keeps_calm_recover: "keeps (calm w) (RecoverPanic (httpCApiImpl E) n rq e)"
proof (induction n arbitrary: e)
  case 0
  then show ?case by (simp add: keeps_def)
next
  case (Suc n)
  show ?case
    unfolding RecoverPanic.simps safeReplyPanic.simps
    by (intro go_inv keeps_deref keeps_calm_set keeps_calm_call keeps_Phase Suc) simp_all
qed

lemma keeps_calm_tail: "keeps (calm w) (destroy_tail (httpCApiImpl E) rq k' reason)"
proof -
  have "keeps (calm w) (DeleteReq k')"
    by (auto simp: keeps_def calm_def DeleteReq_def)
  moreover have "keeps (calm w) (SetFinalizer b rq)" for b
    by (auto simp: keeps_def calm_def option.map_comp comp_def upd_request_def)
  moreover have "keeps (calm w) (httpRequest_Finalize (httpCApiImpl E) rq n)" for n
    by (auto simp: keeps_def calm_def httpRequest_Finalize_def impl_HttpFinalize_def c_call_def
        moeHttpFinalize_def split: option.split)
  ultimately show ?thesis unfolding destroy_tail_def by (intro go_inv)
qed

text \<open>A destroy is calm but for the wait group it counts down when the C side owes a read.\<close>

lemma destroy_calm:
  assumes P: "quiet_plugin P" and rq: "Requests w k' = Some rq" "httpRequests w rq = Some q"
    and cq: "creqs (cside w) k' = Some cq"
  shows "calm (snd (go_when (waitSema cq = 1) (sema_Done rq) w))
    (snd (moeOnHttpDestroy (httpCApiImpl E) P k' reason w))"
    (is "calm ?w0 _")
proof -
  have user: "keeps (calm ?w0) (go_bind (filter_of P rq) (\<lambda>f. OnDestroy f (sint reason)))"
    by (rule keepsI) (use P in \<open>auto simp: filter_of_def quiet_plugin_def split: option.split\<close>)
  have rest: "keeps (calm ?w0) (go_bind (go_bind (filter_of P rq) (\<lambda>f. OnDestroy f (sint reason)))
      (\<lambda>_. destroy_tail (httpCApiImpl E) rq k' reason))"
    by (intro keeps_bind user keeps_calm_tail)
  have after: "calm (snd (m w)) (snd (go_bind m f w))"
    if "\<And>a. keeps (calm (snd (m w))) (f a)" for m :: "(_, unit) go" and f :: "unit \<Rightarrow> (_, unit) go"
    using that by (auto simp: keeps_def split: prod.split outcome.split)
  have body: "calm ?w0 (snd (go_bind (c_field waitSema k') (\<lambda>s.
      go_bind (go_when (s = 1) (sema_Done rq)) (\<lambda>_.
      go_bind (go_bind (filter_of P rq) (\<lambda>f. OnDestroy f (sint reason)))
        (\<lambda>_. destroy_tail (httpCApiImpl E) rq k' reason))) w))"
    by (subst go_bind_Ok [of "c_field waitSema k'" w "waitSema cq" w])
      (simp add: cq, rule after, rule rest)
  have eq: "moeOnHttpDestroy (httpCApiImpl E) P k' reason w = go_recover ()
      (go_bind (c_field waitSema k') (\<lambda>s.
        go_bind (go_when (s = 1) (sema_Done rq)) (\<lambda>_.
        go_bind (go_bind (filter_of P rq) (\<lambda>f. OnDestroy f (sint reason))) (\<lambda>_.
        destroy_tail (httpCApiImpl E) rq k' reason))))
      (RecoverPanic (httpCApiImpl E) recover_fuel rq) w"
    unfolding moeOnHttpDestroy_eq getRequest_def GetReq_def
    by (subst go_bind_Ok [OF go_gets_apply], subst go_bind_Ok [of _ _ rq w], simp add: rq,
        subst go_bind_Ok [of _ _ q w], simp add: rq, rule refl)
  show ?thesis
    unfolding eq by (rule recover_post, rule body, rule keeps_calm_recover)
qed

lemma destroy_unknown:
  assumes "\<not> (\<exists>rq q cq. Requests w k' = Some rq \<and> httpRequests w rq = Some q \<and>
      creqs (cside w) k' = Some cq)"
    and P: "quiet_plugin P"
  shows "calm w (snd (moeOnHttpDestroy (httpCApiImpl E) P k' reason w))"
proof (cases "Requests w k'")
  case None
  then show ?thesis by (simp add: moeOnHttpDestroy_def getRequest_def GetReq_def)
next
  case (Some rq)
  show ?thesis
  proof (cases "httpRequests w rq")
    case None
    then show ?thesis using Some by (simp add: moeOnHttpDestroy_def getRequest_def GetReq_def)
  next
    case q: (Some q)
    then have "creqs (cside w) k' = None" using assms Some by (cases "creqs (cside w) k'") auto
    then show ?thesis using Some q by (simp add: moeOnHttpDestroy_def getRequest_def GetReq_def)
  qed
qed

subsection \<open>A read that nobody wakes\<close>

text \<open>
  \<open>unwoken k r w\<close>: the wait group of request \<open>r\<close> stands at 1, the C side does not owe it a call
  (no read is posted, \<open>waitSema\<close> is not set) and no other struct leads to \<open>r\<close>.
\<close>

definition unwoken :: "nat \<Rightarrow> nat \<Rightarrow> ('h, 'b, 'cfg, 'u) world \<Rightarrow> bool" where
  "unwoken k r w \<longleftrightarrow>
     map_option sema (httpRequests w r) = Some 1 \<and>
     (\<forall>cq. creqs (cside w) k = Some cq \<longrightarrow> waitSema cq \<noteq> 1) \<and>
     (\<forall>x \<in> set (posted (cside w)). \<not> is_get (snd x)) \<and>
     (\<forall>k'. Requests w k' = Some r \<longrightarrow> k' = k)"

lemma unwoken_calm: "unwoken k r w \<Longrightarrow> calm w w' \<Longrightarrow> unwoken k r w'"
  unfolding unwoken_def calm_def by (metis (no_types, lifting))

lemma unwoken_sema: "rq \<noteq> r \<Longrightarrow> unwoken k r w \<Longrightarrow> unwoken k r (snd (sema_Done rq w))"
  by (auto simp: unwoken_def sema_Done_apply split: option.split)

lemma unwoken_destroy:
  assumes P: "quiet_plugin P" and w: "unwoken k r w"
  shows "unwoken k r (snd (moeOnHttpDestroy (httpCApiImpl E) P k' reason w))"
proof (cases "\<exists>rq q cq. Requests w k' = Some rq \<and> httpRequests w rq = Some q \<and>
      creqs (cside w) k' = Some cq")
  case True
  then obtain rq q cq where rq: "Requests w k' = Some rq" "httpRequests w rq = Some q"
    and cq: "creqs (cside w) k' = Some cq" by blast
  have "unwoken k r (snd (go_when (waitSema cq = 1) (sema_Done rq) w))"
  proof (cases "waitSema cq = 1")
    case True
    then have "rq \<noteq> r" using w cq rq by (auto simp: unwoken_def)
    then show ?thesis using True unwoken_sema [OF _ w] by simp
  qed (use w in simp)
  then show ?thesis by (rule unwoken_calm [OF _ destroy_calm [OF P rq cq]])
next
  case False
  show ?thesis by (rule unwoken_calm [OF w destroy_unknown [OF False P]])
qed

lemma unwoken_put_filter:
  "unwoken k r w \<Longrightarrow> unwoken k r (w\<lparr>cside := put_filter i F (cside w)\<rparr>)"
  by (simp add: unwoken_def put_filter_def)

lemma unwoken_posted:
  assumes w: "unwoken k r w" and p: "posted (cside w) = (i, e) # es"
  shows "unwoken k r (snd (run_posted E i e (pop_posted w)))"
proof -
  have pop: "unwoken k r (pop_posted w)"
    using w p by (simp add: unwoken_def pop_posted_def)
  have "\<not> is_get e" using w p by (simp add: unwoken_def)
  with pop show ?thesis
    by (cases e) (auto simp: run_posted_def setDynamicMetadataInternal_def unwoken_def
        split: option.split)
qed

text \<open>Two reads of the same request, the second behind the mutex of a first that is never woken.\<close>

definition both_wait :: "nat \<Rightarrow> nat \<Rightarrow> nat \<Rightarrow> nat \<Rightarrow> string \<Rightarrow> ('h, 'b, 'cfg, 'u) meta_conf \<Rightarrow> bool" where
  "both_wait k r g1 g2 name s \<longleftrightarrow> unwoken k r (mw s) \<and> mutex s r = Some g1 \<and>
     pcs s = [g1 \<mapsto> MetaWait r, g2 \<mapsto> MetaLock r name] \<and> g1 \<noteq> g2"

lemma both_wait_step:
  assumes P: "quiet_plugin P" and s: "both_wait k r g1 g2 name s" and step: "meta_step E P s s'"
  shows "both_wait k r g1 g2 name s'"
proof -
  have pc: "pc = MetaWait r \<or> pc = MetaLock r name" if "pcs s g = Some pc" for g pc
    using that s by (auto simp: both_wait_def split: if_splits)
  note S = both_wait_def
  show ?thesis
    using step
  proof (cases rule: meta_step.cases)
    case (StepLock g r' name')
    then have "r' = r" using pc by fastforce
    with StepLock s show ?thesis by (simp add: S)
  next
    case (StepResume g r' q)
    then have "r' = r" using pc by fastforce
    with StepResume s show ?thesis by (simp add: S unwoken_def)
  next
    case (StepPosted i e es)
    then have "unwoken k r (snd (run_posted E i e (pop_posted (mw s))))"
      using s by (intro unwoken_posted) (auto simp: S)
    with StepPosted s show ?thesis by (simp add: S)
  next
    case (StepDestroy i F r' reason y)
    then have "unwoken k r (snd (moeOnHttpDestroy (httpCApiImpl E) P r' (word_of_int reason)
        ((mw s)\<lparr>cside := put_filter i (F\<lparr>has_destroyed := True\<rparr>) (cside (mw s))\<rparr>)))"
      using s by (intro unwoken_destroy [OF P] unwoken_put_filter) (simp add: S)
    with StepDestroy s show ?thesis by (simp add: S)
  qed (use pc in fastforce)+
qed

lemma both_wait_steps:
  assumes "quiet_plugin P" "(meta_step E P)\<^sup>*\<^sup>* s s'" "both_wait k r g1 g2 name s"
  shows "both_wait k r g1 g2 name s'"
  using assms(2,3) by induction (use both_wait_step [OF assms(1)] in blast)+

text \<open>
  Destroying the filter wakes a goroutine whose read the worker thread has not run yet, however
  a plugin's \<open>OnDestroy\<close> that leaves the library alone ends; the read ends with an empty result.
\<close>

lemma destroy_wakes_the_reader:
  assumes "quiet_plugin P" "pcs s g = Some (MetaWait r)"
    and "filters (cside (mw s)) i = Some F" "filter_req F = Some k" "\<not> has_destroyed F"
    and "creqs (cside (mw s)) k = Some cq" "waitSema cq = 1" "Requests (mw s) k = Some r"
    and "httpRequests (mw s) r = Some q" "sema q = 1" "\<not> go_slots (cside (mw s)) g"
  shows "\<exists>s1 s2. meta_step E P s s1 \<and> pcs s1 = pcs s \<and> meta_step E P s1 s2 \<and>
    pcs s2 g = Some (MetaDone (Ok None)) \<and> mutex s2 r = None"
proof -
  let ?w = "(mw s)\<lparr>cside := put_filter i (F\<lparr>has_destroyed := True\<rparr>) (cside (mw s))\<rparr>"
  let ?reason = "if isProcessingInGo (getProcessorState F) then Terminate else Normal"
  obtain y w1 where d: "moeOnHttpDestroy (httpCApiImpl E) P k (word_of_int ?reason) ?w = (y, w1)"
    by fastforce
  have "calm (snd (go_when (waitSema cq = 1) (sema_Done r) ?w)) w1"
    using destroy_calm [of P ?w k r q cq E "word_of_int ?reason"] assms d
    by (simp add: put_filter_def)
  then have "calm (upd_request r (sema_update (\<lambda>n. n - 1)) ?w) w1"
    using assms by (simp add: sema_Done_apply)
  then have w1: "map_option sema (httpRequests w1 r) = Some 0" "\<not> go_slots (cside w1) g"
    using assms by (simp_all add: calm_def put_filter_def)
  then obtain q1 where q1: "httpRequests w1 r = Some q1" "sema q1 = 0" by auto
  let ?s1 = "s\<lparr>mw := w1\<rparr>"
  have "meta_step E P s ?s1"
    by (rule StepDestroy [OF assms(3,4,5) refl d])
  moreover have "meta_step E P ?s1 (?s1\<lparr>mw := w1, mutex := (mutex ?s1)(r := None),
      pcs := (pcs ?s1)(g \<mapsto> MetaDone (Ok None))\<rparr>)"
    by (rule StepResume [of _ _ r q1]) (use assms q1 w1 in \<open>simp_all add: meta_bytes_def\<close>)
  ultimately show ?thesis by (intro exI conjI) (assumption | simp)+
qed

end
