(* ===== verification/Stream_Flow.thy ===== *)
theory Stream_Flow
  imports Metadata
begin

text \<open>
  The flow of a stream through \<^verbatim>\<open>golang_filter.cc\<close>: the callbacks Envoy makes on the filter
  (\<open>decodeHeaders\<close> to \<open>encodeTrailers\<close>, \<open>onDestroy\<close>), what they hand to Go, and the closures that
  continue a stream or send a reply. Go enters through the record \<open>host\<close>, so that the flow can be
  run with any plugin; \<open>react\<close> is what Envoy does when the filter calls one of its callbacks, which
  may enter the filter again. Without its library (\<^verbatim>\<open>dynamicLib_\<close> is null) the filter lets
  everything pass.
\<close>

subsection \<open>The surroundings\<close>

text \<open>
  \<open>has_dynamicLib\<close> says whether the filter was made with a library (\<^verbatim>\<open>dynamicLib_ != nullptr\<close>).
  \<open>alloc_req\<close> and \<open>alloc_buf\<close> are the addresses \<^verbatim>\<open>new\<close> returns, \<open>mergedConfigId\<close> is
  \<^verbatim>\<open>getMergedConfigId\<close>. \<open>above_watermark\<close> says whether a watermark buffer of Envoy calls its callback for
  the high watermark when it grows from one state to another, \<open>below_watermark\<close> whether it calls the
  one for the low watermark when it shrinks.
\<close>

record ('h, 'b, 'w) host =
  has_dynamicLib :: bool
  lib_moeOnHttpHeader :: "nat \<Rightarrow> u64 \<Rightarrow> u64 \<Rightarrow> u64 \<Rightarrow> ('w, u64) go"
  lib_moeOnHttpData :: "nat \<Rightarrow> u64 \<Rightarrow> u64 \<Rightarrow> u64 \<Rightarrow> ('w, u64) go"
  lib_moeOnHttpDestroy :: "nat \<Rightarrow> int \<Rightarrow> ('w, unit) go"
  mergedConfigId :: "nat \<Rightarrow> bool \<Rightarrow> ('w, u64) go"
  alloc_req :: "('h, 'b) cstate \<Rightarrow> nat"
  alloc_buf :: "('h, 'b) cstate \<Rightarrow> u64"
  above_watermark :: "'b \<Rightarrow> 'b \<Rightarrow> bool"
  below_watermark :: "'b \<Rightarrow> 'b \<Rightarrow> bool"
  react :: "'b envoy_call \<Rightarrow> ('w, unit) go"

type_synonym ('h, 'b, 'cfg, 'u) stream_host = "('h, 'b, ('h, 'b, 'cfg, 'u) world) host"

text \<open>Go's exported functions as the library of the filter.\<close>

definition with_plugin ::
    "('h, 'b, 'cfg, 'u) world HttpCAPI \<Rightarrow> (('h, 'b, 'cfg, 'u) world, 'cfg) plugin \<Rightarrow>
     ('h, 'b, 'cfg, 'u) stream_host \<Rightarrow> ('h, 'b, 'cfg, 'u) stream_host" where
  "with_plugin C P H = H\<lparr>has_dynamicLib := True, lib_moeOnHttpHeader := moeOnHttpHeader C P,
     lib_moeOnHttpData := moeOnHttpData C P,
     lib_moeOnHttpDestroy := (\<lambda>r reason. moeOnHttpDestroy C P r (word_of_int reason))\<rparr>"

lemma has_dynamicLib_plugin [simp]: "has_dynamicLib (with_plugin C P H)"
  "react (with_plugin C P H) = react H"
  by (simp_all add: with_plugin_def)

definition get_filter :: "nat \<Rightarrow> (('h, 'b, 'cfg, 'u) world, 'b Filter) go" where
  "get_filter i = (\<lambda>w. case filters (cside w) i of
      None \<Rightarrow> (Fault UseAfterFree, w) | Some F \<Rightarrow> (Ok F, w))"

definition upd_filter ::
    "nat \<Rightarrow> ('b Filter \<Rightarrow> 'b Filter) \<Rightarrow> ('h, 'b, 'cfg, 'u) world \<Rightarrow> ('h, 'b, 'cfg, 'u) world" where
  "upd_filter i f w = w\<lparr>cside := (cside w)
     \<lparr>filters := (filters (cside w))(i := map_option f (filters (cside w) i))\<rparr>\<rparr>"

definition set_filter :: "nat \<Rightarrow> ('b Filter \<Rightarrow> 'b Filter) \<Rightarrow> (('h, 'b, 'cfg, 'u) world, unit) go" where
  "set_filter i f = go_modify (upd_filter i f)"

text \<open>One direction of a filter; the flag is \<open>True\<close> for the encoding side.\<close>

definition side :: "bool \<Rightarrow> 'b Filter \<Rightarrow> 'b ProcessorState" where
  "side enc F = (if enc then encoding_state F else decoding_state F)"

definition set_side :: "bool \<Rightarrow> 'b ProcessorState \<Rightarrow> 'b Filter \<Rightarrow> 'b Filter" where
  "set_side enc p F = (if enc then F\<lparr>encoding_state := p\<rparr> else F\<lparr>decoding_state := p\<rparr>)"

definition side_phase :: "bool \<Rightarrow> 'b Filter \<Rightarrow> int" where
  "side_phase enc F = (if enc then EncodingProcessorState_phase (encoding_state F)
     else DecodingProcessorState_phase (decoding_state F))"

definition on_side ::
    "nat \<Rightarrow> bool \<Rightarrow> ('b ProcessorState, 'a) go \<Rightarrow> (('h, 'b, 'cfg, 'u) world, 'a) go" where
  "on_side i enc m = go_bind (get_filter i) (\<lambda>F. \<lambda>w.
     (case m (side enc F) of (r, p) \<Rightarrow> (r, upd_filter i (set_side enc p) w)))"

definition call_envoy ::
    "('h, 'b, 'cfg, 'u) stream_host \<Rightarrow> 'b envoy_call \<Rightarrow> (('h, 'b, 'cfg, 'u) world, unit) go" where
  "call_envoy H c = go_then
     (go_modify (\<lambda>w. w\<lparr>cside := (cside w)\<lparr>envoy_calls := envoy_calls (cside w) @ [c]\<rparr>\<rparr>))
     (react H c)"

subsection \<open>Handing a part to Go\<close>

text \<open>\<^verbatim>\<open>ASSERT(req_ != nullptr); req_->phase = state.phase();\<close>\<close>

definition set_phase :: "nat \<Rightarrow> bool \<Rightarrow> (('h, 'b, 'cfg, 'u) world, nat) go" where
  "set_phase i enc = go_bind (get_filter i) (\<lambda>F. case filter_req F of
      None \<Rightarrow> go_fault AssertFailed
    | Some r \<Rightarrow> go_bind (c_field weakFilter r) (\<lambda>_.
        go_then (go_modify (\<lambda>w. w\<lparr>cside := (cside w)\<lparr>creqs := (creqs (cside w))
            (r := map_option (phase_update (\<lambda>_. side_phase enc F)) (creqs (cside w) r))\<rparr>\<rparr>))
          (go_return r)))"

definition make_req ::
    "('h, 'b, 'cfg, 'u) stream_host \<Rightarrow> nat \<Rightarrow> bool \<Rightarrow> (('h, 'b, 'cfg, 'u) world, unit) go" where
  "make_req H i enc = go_bind (get_filter i) (\<lambda>F.
     go_when (filter_req F = None)
       (go_bind (go_gets (\<lambda>w. alloc_req H (cside w))) (\<lambda>r.
        go_then (go_modify (\<lambda>w. w\<lparr>cside := put_creq r (httpRequestInternal_new i) (cside w)\<rparr>))
       (go_then (set_filter i (filter_req_update (\<lambda>_. Some r)))
       (go_bind (mergedConfigId H i enc) (\<lambda>cid.
          go_modify (\<lambda>w. w\<lparr>cside := (cside w)\<lparr>creqs := (creqs (cside w))
            (r := map_option (configId_update (\<lambda>_. cid)) (creqs (cside w) r))\<rparr>\<rparr>)))))))"

definition flag :: "bool \<Rightarrow> u64" where
  "flag b = (if b then 1 else 0)"

definition doHeadersGo ::
    "('h, 'b) envoy \<Rightarrow> ('h, 'b, 'cfg, 'u) stream_host \<Rightarrow> nat \<Rightarrow> bool \<Rightarrow> nat \<Rightarrow> bool \<Rightarrow>
     (('h, 'b, 'cfg, 'u) world, GolangStatus) go" where
  "doHeadersGo E H i enc hdrs endStream =
     go_then (make_req H i enc)
    (go_bind (set_phase i enc) (\<lambda>r.
     go_then (set_filter i (headers_ptr_update (\<lambda>_. Some hdrs)))
    (go_bind (go_gets (\<lambda>w. hm_heap (cside w) hdrs)) (\<lambda>m.
     go_bind (lib_moeOnHttpHeader H r (flag endStream) (hm_size E m) (hm_byteSize E m)) (\<lambda>status.
       go_return (golangStatus (c_int status)))))))"

definition doHeaders ::
    "('h, 'b) envoy \<Rightarrow> ('h, 'b, 'cfg, 'u) stream_host \<Rightarrow> nat \<Rightarrow> bool \<Rightarrow> nat \<Rightarrow> bool \<Rightarrow>
     (('h, 'b, 'cfg, 'u) world, bool) go" where
  "doHeaders E H i enc hdrs endStream =
     go_then (on_side i enc (c_assert (isBufferDataEmpty E)))
    (go_then (on_side i enc (processHeader endStream))
    (go_bind (doHeadersGo E H i enc hdrs endStream) (\<lambda>status.
     go_bind (on_side i enc (handleHeaderGolangStatus status)) (\<lambda>is_done.
     go_then (go_when is_done (set_filter i (headers_ptr_update (\<lambda>_. None))))
       (go_return is_done)))))"

text \<open>
  The two callbacks of the buffer that \<^verbatim>\<open>addBufferData\<close> creates, and a change \<open>m\<close> of a direction that
  may shrink the buffer.
\<close>

definition want_more ::
    "('h, 'b, 'cfg, 'u) stream_host \<Rightarrow> nat \<Rightarrow> bool \<Rightarrow> (('h, 'b, 'cfg, 'u) world, unit) go" where
  "want_more H i enc = go_bind (get_filter i) (\<lambda>F.
     go_when (watermark_requested (side enc F))
       (go_then (on_side i enc (go_modify (watermark_requested_update (\<lambda>_. False))))
         (call_envoy H (BelowWatermarkCall enc))))"

definition buffer_full ::
    "('h, 'b, 'cfg, 'u) stream_host \<Rightarrow> nat \<Rightarrow> bool \<Rightarrow> (('h, 'b, 'cfg, 'u) world, unit) go" where
  "buffer_full H i enc = go_bind (get_filter i) (\<lambda>F.
     if fstate (side enc F) = WaitingAllData then call_envoy H (PayloadTooLargeCall enc)
     else go_when (\<not> watermark_requested (side enc F))
       (go_then (on_side i enc (go_modify (watermark_requested_update (\<lambda>_. True))))
         (call_envoy H (AboveWatermarkCall enc))))"

definition shrinking ::
    "('h, 'b, 'cfg, 'u) stream_host \<Rightarrow> nat \<Rightarrow> bool \<Rightarrow> ('b ProcessorState, 'a) go \<Rightarrow>
     (('h, 'b, 'cfg, 'u) world, 'a) go" where
  "shrinking H i enc m =
     go_bind (get_filter i) (\<lambda>F.
     go_bind (on_side i enc m) (\<lambda>x.
     go_bind (get_filter i) (\<lambda>F'.
     go_then (case (data_buffer (side enc F), data_buffer (side enc F')) of
         (Some b, Some b') \<Rightarrow> go_when (below_watermark H b b') (want_more H i enc)
       | _ \<Rightarrow> go_return ())
       (go_return x))))"

text \<open>
  \<^verbatim>\<open>doDataGo\<close> on a buffer of the caller or, with \<open>own\<close>, on the state's own buffer; what is left in
  the caller's buffer is returned with the result.
\<close>

definition doDataGo ::
    "('h, 'b) envoy \<Rightarrow> ('h, 'b, 'cfg, 'u) stream_host \<Rightarrow> nat \<Rightarrow> bool \<Rightarrow> bool \<Rightarrow> 'b \<Rightarrow> bool \<Rightarrow>
     (('h, 'b, 'cfg, 'u) world, bool \<times> 'b) go" where
  "doDataGo E H i enc own data endStream =
     go_then (on_side i enc (processData endStream))
    (go_bind (go_gets (\<lambda>w. alloc_buf H (cside w))) (\<lambda>a.
     go_bind ((if own then shrinking H i enc else on_side i enc) (\<lambda>p. case push E a data (doDataList p) of
         (rest, q) \<Rightarrow> (Ok rest, p\<lparr>doDataList := q,
            data_buffer := (if own then Some rest else data_buffer p)\<rparr>))) (\<lambda>rest.
     go_bind (set_phase i enc) (\<lambda>r.
     go_bind (get_filter i) (\<lambda>F.
     go_bind (lib_moeOnHttpData H r (flag endStream) a
         (bi_length E (snd (last (queue (doDataList (side enc F))))))) (\<lambda>status.
     go_bind (on_side i enc (handleDataGolangStatus E (golangStatus (c_int status)))) (\<lambda>is_done.
       go_return (is_done, rest))))))))"

text \<open>\<^verbatim>\<open>doDataGo(state, state.getBufferData(), end_stream)\<close>: the buffer is a pointer.\<close>

definition doBufferedData ::
    "('h, 'b) envoy \<Rightarrow> ('h, 'b, 'cfg, 'u) stream_host \<Rightarrow> nat \<Rightarrow> bool \<Rightarrow> bool \<Rightarrow>
     (('h, 'b, 'cfg, 'u) world, bool) go" where
  "doBufferedData E H i enc endStream = go_bind (get_filter i) (\<lambda>F. case data_buffer (side enc F) of
      None \<Rightarrow> go_fault NullPointer
    | Some b \<Rightarrow> go_bind (doDataGo E H i enc True b endStream) (\<lambda>x. go_return (fst x)))"

text \<open>The result is what is left of the data.\<close>

definition addBufferData ::
    "('h, 'b) envoy \<Rightarrow> ('h, 'b, 'cfg, 'u) stream_host \<Rightarrow> nat \<Rightarrow> bool \<Rightarrow> 'b \<Rightarrow>
     (('h, 'b, 'cfg, 'u) world, 'b) go" where
  "addBufferData E H i enc data = go_bind (get_filter i) (\<lambda>F.
     let old = (case data_buffer (side enc F) of None \<Rightarrow> bi_new E | Some b \<Rightarrow> b) in
     case bi_move E old data of (new, rest) \<Rightarrow>
       go_then (on_side i enc (go_modify (\<lambda>p. p\<lparr>data_buffer := Some new\<rparr>)))
      (go_then (go_when (above_watermark H old new) (buffer_full H i enc))
        (go_return rest)))"

definition doData ::
    "('h, 'b) envoy \<Rightarrow> ('h, 'b, 'cfg, 'u) stream_host \<Rightarrow> nat \<Rightarrow> bool \<Rightarrow> 'b \<Rightarrow> bool \<Rightarrow>
     (('h, 'b, 'cfg, 'u) world, bool \<times> 'b) go" where
  "doData E H i enc data endStream = go_bind (get_filter i) (\<lambda>F. case fstate (side enc F) of
      WaitingData \<Rightarrow> doDataGo E H i enc False data endStream
    | WaitingAllData \<Rightarrow>
        if endStream then
          go_bind
            (if isBufferDataEmpty E (side enc F) then go_return data
             else go_bind (addBufferData E H i enc data) (\<lambda>rest.
               shrinking H i enc (\<lambda>p. case data_buffer p of
                   None \<Rightarrow> (Fault NullPointer, p)
                 | Some b \<Rightarrow> (case bi_move E rest b of (data', b') \<Rightarrow>
                     (Ok data', p\<lparr>data_buffer := Some b'\<rparr>))))) (\<lambda>data'.
          go_bind (get_filter i) (\<lambda>F'.
            if fstate (side enc F') = WaitingAllData then doDataGo E H i enc False data' endStream
            else go_return (False, data')))
        else go_bind (addBufferData E H i enc data) (\<lambda>rest. go_return (False, rest))
    | ProcessingHeader \<Rightarrow> go_bind (addBufferData E H i enc data) (\<lambda>rest. go_return (False, rest))
    | ProcessingData \<Rightarrow> go_bind (addBufferData E H i enc data) (\<lambda>rest. go_return (False, rest))
    | _ \<Rightarrow> go_return (False, data))"

definition doTrailerGo ::
    "('h, 'b) envoy \<Rightarrow> ('h, 'b, 'cfg, 'u) stream_host \<Rightarrow> nat \<Rightarrow> bool \<Rightarrow> nat \<Rightarrow>
     (('h, 'b, 'cfg, 'u) world, bool) go" where
  "doTrailerGo E H i enc trailers =
     go_then (on_side i enc processTrailer)
    (go_bind (set_phase i enc) (\<lambda>r.
     go_bind (go_gets (\<lambda>w. hm_heap (cside w) trailers)) (\<lambda>m.
     go_bind (lib_moeOnHttpHeader H r 1 (hm_size E m) (hm_byteSize E m)) (\<lambda>status.
       on_side i enc (handleTrailerGolangStatus (golangStatus (c_int status)))))))"

definition doTrailer ::
    "('h, 'b) envoy \<Rightarrow> ('h, 'b, 'cfg, 'u) stream_host \<Rightarrow> nat \<Rightarrow> bool \<Rightarrow> nat \<Rightarrow>
     (('h, 'b, 'cfg, 'u) world, bool) go" where
  "doTrailer E H i enc trailers =
     go_then (on_side i enc (c_assert (\<lambda>p. \<not> end_stream p \<and> \<not> do_end_stream p)))
    (go_then (set_filter i (trailers_ptr_update (\<lambda>_. Some trailers)))
    (go_bind (get_filter i) (\<lambda>F. case fstate (side enc F) of
        WaitingTrailer \<Rightarrow> doTrailerGo E H i enc trailers
      | WaitingData \<Rightarrow> doTrailerGo E H i enc trailers
      | WaitingAllData \<Rightarrow>
          go_bind
            (if isBufferDataEmpty E (side enc F) then go_return False
             else doBufferedData E H i enc False) (\<lambda>is_done.
          go_bind (get_filter i) (\<lambda>F'.
            if fstate (side enc F') = WaitingTrailer then doTrailerGo E H i enc trailers
            else go_return is_done))
      | _ \<Rightarrow> go_return False)))"

subsection \<open>Continuing\<close>

definition continue_data ::
    "('h, 'b) envoy \<Rightarrow> ('h, 'b, 'cfg, 'u) stream_host \<Rightarrow> nat \<Rightarrow> bool \<Rightarrow>
     (('h, 'b, 'cfg, 'u) world, unit) go" where
  "continue_data E H i enc =
     go_bind (on_side i enc (\<lambda>p. case continueDoData E p of (x, p') \<Rightarrow> (Ok x, p'))) (\<lambda>x. case x of
        None \<Rightarrow> go_return ()
      | Some (d, e) \<Rightarrow> call_envoy H (InjectCall enc d e))"

definition continueProcessing ::
    "('h, 'b, 'cfg, 'u) stream_host \<Rightarrow> bool \<Rightarrow> (('h, 'b, 'cfg, 'u) world, unit) go" where
  "continueProcessing H enc = call_envoy H (ContinueCall enc)"

text \<open>The part of \<open>continueStatusInternal\<close> after the check for a waiting local reply.\<close>

definition continue_state ::
    "('h, 'b) envoy \<Rightarrow> ('h, 'b, 'cfg, 'u) stream_host \<Rightarrow> nat \<Rightarrow> bool \<Rightarrow> GolangStatus \<Rightarrow>
     (('h, 'b, 'cfg, 'u) world, unit) go" where
  "continue_state E H i enc status =
     go_bind (get_filter i) (\<lambda>F0.
     go_bind (on_side i enc (handleGolangStatus E status)) (\<lambda>is_done.
     go_then
       (go_when is_done (case fstate (side enc F0) of
            ProcessingHeader \<Rightarrow> go_bind (get_filter i) (\<lambda>F.
              go_when (do_end_stream (side enc F) \<or> \<not> isStreamEnd (side enc F))
                (continueProcessing H enc))
          | ProcessingData \<Rightarrow> continue_data E H i enc
          | ProcessingTrailer \<Rightarrow> go_then (continue_data E H i enc) (continueProcessing H enc)
          | _ \<Rightarrow> go_fault AssertFailed))
    (go_bind (get_filter i) (\<lambda>F.
     let p = side enc F in
     go_bind
       (if (fstate p = WaitingData \<and> (\<not> isBufferDataEmpty E p \<or> end_stream p)) \<or>
           (fstate p = WaitingAllData \<and> isStreamEnd p)
        then go_bind (doBufferedData E H i enc (end_stream p)) (\<lambda>is_done.
          go_then (go_when is_done (continue_data E H i enc)) (go_return is_done))
        else go_return True) (\<lambda>go_on.
     go_when go_on
       (go_bind (get_filter i) (\<lambda>F'. case trailers_ptr F' of
           None \<Rightarrow> go_return ()
         | Some t \<Rightarrow> go_when (fstate (side enc F') = WaitingTrailer)
             (go_bind (doTrailerGo E H i enc t) (\<lambda>is_done.
                go_when is_done (continueProcessing H enc))))))))))"

text \<open>
  \<open>continueEncodeLocalReply\<close>, which calls \<open>continueStatusInternal\<close> again, then without a waiting
  reply.
\<close>

definition continueEncodeLocalReply ::
    "('h, 'b) envoy \<Rightarrow> ('h, 'b, 'cfg, 'u) stream_host \<Rightarrow> nat \<Rightarrow> bool \<Rightarrow>
     (('h, 'b, 'cfg, 'u) world, unit) go" where
  "continueEncodeLocalReply E H i enc =
     go_then (on_side i enc (go_modify (\<lambda>p. p\<lparr>doDataList := clearAll (doDataList p)\<rparr>)))
    (go_then (set_filter i (\<lambda>F. F\<lparr>local_reply_waiting_go := False, enter_encoding := True,
        trailers_ptr := (if local_trailers F = None then trailers_ptr F else local_trailers F)\<rparr>))
    (go_bind (get_filter i) (\<lambda>F.
     let header_end_stream = end_stream (encoding_state F) \<and> local_trailers F = None \<and>
       isBufferDataEmpty E (encoding_state F) in
     go_then (on_side i True (processHeader header_end_stream))
    (case local_headers F of
       None \<Rightarrow> go_fault NullPointer
     | Some h \<Rightarrow> go_bind (doHeadersGo E H i True h header_end_stream)
         (continue_state E H i True)))))"

definition continueStatusInternal ::
    "('h, 'b) envoy \<Rightarrow> ('h, 'b, 'cfg, 'u) stream_host \<Rightarrow> nat \<Rightarrow> GolangStatus \<Rightarrow>
     (('h, 'b, 'cfg, 'u) world, unit) go" where
  "continueStatusInternal E H i status = go_bind (get_filter i) (\<lambda>F.
     if local_reply_waiting_go F then continueEncodeLocalReply E H i (enter_encoding F)
     else continue_state E H i (enter_encoding F) status)"

definition sendLocalReplyInternal ::
    "('h, 'b) envoy \<Rightarrow> ('h, 'b, 'cfg, 'u) stream_host \<Rightarrow> nat \<Rightarrow> int \<Rightarrow> string \<Rightarrow> int \<Rightarrow> string \<Rightarrow>
     (('h, 'b, 'cfg, 'u) world, unit) go" where
  "sendLocalReplyInternal E H i code body grpc details = go_bind (get_filter i) (\<lambda>F.
     let enc = enter_encoding F in
     if local_reply_waiting_go F then continueEncodeLocalReply E H i enc
     else go_then (on_side i enc (go_modify (\<lambda>p. p\<lparr>doDataList := clearAll (doDataList p)\<rparr>)))
         (go_then (shrinking H i enc (go_modify (drainBufferData E)))
         (go_then (go_when (\<not> enc) (on_side i False (go_modify DecodingProcessorState_sendLocalReply)))
           (call_envoy H (ReplyCall enc code body grpc details)))))"

subsection \<open>The callbacks of Envoy's filter chain\<close>

text \<open>The result says whether Envoy goes on (\<open>Continue\<close>) or stops; for data, with the data left.\<close>

definition take_out ::
    "('h, 'b) envoy \<Rightarrow> nat \<Rightarrow> bool \<Rightarrow> bool \<times> 'b \<Rightarrow> (('h, 'b, 'cfg, 'u) world, bool \<times> 'b) go" where
  "take_out E i enc x = (if fst x
     then on_side i enc (\<lambda>p. case moveOut E (snd x) (doDataList p) of
       (d, q) \<Rightarrow> (Ok (True, d), p\<lparr>doDataList := q\<rparr>))
     else go_return x)"

definition decodeHeaders ::
    "('h, 'b) envoy \<Rightarrow> ('h, 'b, 'cfg, 'u) stream_host \<Rightarrow> nat \<Rightarrow> nat \<Rightarrow> bool \<Rightarrow>
     (('h, 'b, 'cfg, 'u) world, bool) go" where
  "decodeHeaders E H i hdrs endStream =
     (if \<not> has_dynamicLib H then go_return True
      else go_then (on_side i False (go_modify (end_stream_update (\<lambda>_. endStream))))
        (doHeaders E H i False hdrs endStream))"

definition decodeData ::
    "('h, 'b) envoy \<Rightarrow> ('h, 'b, 'cfg, 'u) stream_host \<Rightarrow> nat \<Rightarrow> 'b \<Rightarrow> bool \<Rightarrow>
     (('h, 'b, 'cfg, 'u) world, bool \<times> 'b) go" where
  "decodeData E H i data endStream =
     (if \<not> has_dynamicLib H then go_return (True, data)
      else go_then (on_side i False (go_modify (end_stream_update (\<lambda>_. endStream))))
        (go_bind (doData E H i False data endStream) (take_out E i False)))"

definition decodeTrailers ::
    "('h, 'b) envoy \<Rightarrow> ('h, 'b, 'cfg, 'u) stream_host \<Rightarrow> nat \<Rightarrow> nat \<Rightarrow>
     (('h, 'b, 'cfg, 'u) world, bool) go" where
  "decodeTrailers E H i trailers =
     go_then (on_side i False (go_modify (seen_trailers_update (\<lambda>_. True))))
       (if \<not> has_dynamicLib H then go_return True else doTrailer E H i False trailers)"

definition encodeHeaders ::
    "('h, 'b) envoy \<Rightarrow> ('h, 'b, 'cfg, 'u) stream_host \<Rightarrow> nat \<Rightarrow> nat \<Rightarrow> bool \<Rightarrow>
     (('h, 'b, 'cfg, 'u) world, bool) go" where
  "encodeHeaders E H i hdrs endStream = go_bind (get_filter i) (\<lambda>F.
     if \<not> has_dynamicLib H then go_return True else
     let enc = enter_encoding F in
     go_then (on_side i True (go_modify (end_stream_update (\<lambda>_. endStream))))
    (go_bind (get_filter i) (\<lambda>F.
     let early = (fstate (side enc F) \<noteq> Done) in
     go_then (go_when early (shrinking H i enc (go_modify (drainBufferData E))))
       (go_bind (get_filter i) (\<lambda>F.
        if early \<and> isProcessingInGo (side enc F) then
          go_then (set_filter i (\<lambda>F. F\<lparr>local_reply_waiting_go := True, local_headers := Some hdrs\<rparr>))
            (go_return False)
        else
          go_then (go_when early
            (on_side i enc (go_modify (\<lambda>p. p\<lparr>doDataList := clearAll (doDataList p)\<rparr>))))
         (go_then (set_filter i (enter_encoding_update (\<lambda>_. True)))
            (doHeaders E H i True hdrs endStream)))))))"

definition encodeData ::
    "('h, 'b) envoy \<Rightarrow> ('h, 'b, 'cfg, 'u) stream_host \<Rightarrow> nat \<Rightarrow> 'b \<Rightarrow> bool \<Rightarrow>
     (('h, 'b, 'cfg, 'u) world, bool \<times> 'b) go" where
  "encodeData E H i data endStream = go_bind (get_filter i) (\<lambda>F.
     if \<not> has_dynamicLib H then go_return (True, data) else
     go_then (on_side i True (go_modify (end_stream_update (\<lambda>_. endStream))))
       (if local_reply_waiting_go F then
          go_bind (addBufferData E H i True data) (\<lambda>rest. go_return (False, rest))
        else go_bind (doData E H i True data endStream) (take_out E i (enter_encoding F))))"

definition encodeTrailers ::
    "('h, 'b) envoy \<Rightarrow> ('h, 'b, 'cfg, 'u) stream_host \<Rightarrow> nat \<Rightarrow> nat \<Rightarrow>
     (('h, 'b, 'cfg, 'u) world, bool) go" where
  "encodeTrailers E H i trailers =
     go_then (on_side i True (go_modify (seen_trailers_update (\<lambda>_. True))))
    (go_bind (get_filter i) (\<lambda>F.
       if \<not> has_dynamicLib H then go_return True
       else if local_reply_waiting_go F then
         go_then (set_filter i (local_trailers_update (\<lambda>_. Some trailers))) (go_return False)
       else doTrailer E H i True trailers))"

definition onDestroy ::
    "('h, 'b, 'cfg, 'u) stream_host \<Rightarrow> nat \<Rightarrow> (('h, 'b, 'cfg, 'u) world, unit) go" where
  "onDestroy H i = go_bind (get_filter i) (\<lambda>F.
     if has_destroyed F then go_return ()
     else go_then (set_filter i (has_destroyed_update (\<lambda>_. True)))
       (if \<not> has_dynamicLib H then go_return ()
        else (case filter_req F of
            None \<Rightarrow> go_fault AssertFailed
          | Some r \<Rightarrow> lib_moeOnHttpDestroy H r
              (if isProcessingInGo (getProcessorState F) then Terminate else Normal))))"

text \<open>A closure of the dispatcher, run on the worker thread; \<open>run_posted\<close> runs those of metadata.\<close>

definition run_closure ::
    "('h, 'b) envoy \<Rightarrow> ('h, 'b, 'cfg, 'u) stream_host \<Rightarrow> nat \<Rightarrow> posted_event \<Rightarrow>
     (('h, 'b, 'cfg, 'u) world, unit) go" where
  "run_closure E H i e = go_bind (go_gets (\<lambda>w. live_filter i (cside w))) (\<lambda>x. case x of
      None \<Rightarrow> go_return ()
    | Some F \<Rightarrow> (case e of
        PostContinue status \<Rightarrow> continueStatusInternal E H i status
      | PostLocalReply code body grpc details \<Rightarrow> sendLocalReplyInternal E H i code body grpc details
      | _ \<Rightarrow> run_posted E i e))"

end
