(* ===== verification/Stream_Runs.thy ===== *)
theory Stream_Runs
  imports Stream_Flow
begin

text \<open>
  Runs of one direction of a stream over the definitions of \<open>Stream_Flow\<close>: parts of a message that
  arrive while Go has the stream, a body that is kept until it is whole, and a body that passes
  through. Each lemma follows one filter \<open>i\<close> of the world and says what it leaves of the rest.
\<close>

subsection \<open>One filter of the world\<close>

text \<open>\<open>at i F w\<close> is the world with filter \<open>i\<close> in state \<open>F\<close>.\<close>

definition at :: "nat \<Rightarrow> 'b Filter \<Rightarrow> ('h, 'b, 'cfg, 'u) world \<Rightarrow> ('h, 'b, 'cfg, 'u) world" where
  "at i F w = w\<lparr>cside := put_filter i F (cside w)\<rparr>"

lemma at_simps [simp]:
  "filters (cside (at i F w)) i = Some F"
  "at i F (at i G w) = at i F w"
  "ustate (at i F w) = ustate w" "Requests (at i F w) = Requests w"
  "httpRequests (at i F w) = httpRequests w"
  "creqs (cside (at i F w)) = creqs (cside w)" "posted (cside (at i F w)) = posted (cside w)"
  "envoy_calls (cside (at i F w)) = envoy_calls (cside w)"
  "hm_heap (cside (at i F w)) = hm_heap (cside w)"
  by (simp_all add: at_def put_filter_def)

lemma at_self: "filters (cside w) i = Some F \<Longrightarrow> at i F w = w"
  by (simp add: at_def put_filter_def fun_upd_idem)

lemma upd_filter_at [simp]: "upd_filter i f (at i F w) = at i (f F) w"
  by (simp add: upd_filter_def at_def put_filter_def)

lemma get_filter_at [simp]: "get_filter i (at i F w) = (Ok F, at i F w)"
  by (simp add: get_filter_def)

lemma set_filter_at [simp]: "set_filter i f (at i F w) = (Ok (), at i (f F) w)"
  by (simp add: set_filter_def)

lemma on_side_at [simp]:
  "on_side i enc m (at i F w) =
     (fst (m (side enc F)), at i (set_side enc (snd (m (side enc F))) F) w)"
  by (simp add: on_side_def case_prod_unfold)

lemma side_simps [simp]:
  "side enc (set_side enc p F) = p"
  "side False (set_side True p F) = side False F" "side True (set_side False p F) = side True F"
  "set_side enc p (set_side enc p' F) = set_side enc p F"
  "filter_req (set_side enc p F) = filter_req F"
  "local_reply_waiting_go (set_side enc p F) = local_reply_waiting_go F"
  "enter_encoding (set_side enc p F) = enter_encoding F"
  "has_destroyed (set_side enc p F) = has_destroyed F"
  "trailers_ptr (set_side enc p F) = trailers_ptr F"
  "headers_ptr (set_side enc p F) = headers_ptr F"
  "local_headers (set_side enc p F) = local_headers F"
  "local_trailers (set_side enc p F) = local_trailers F"
  by (auto simp: side_def set_side_def)

lemma side_frame [simp]:
  "side enc (F\<lparr>trailers_ptr := t\<rparr>) = side enc F"
  "side enc (F\<lparr>headers_ptr := t\<rparr>) = side enc F"
  "side enc (F\<lparr>filter_req := r\<rparr>) = side enc F"
  "side enc (F\<lparr>enter_encoding := b\<rparr>) = side enc F"
  "side enc (F\<lparr>has_destroyed := b\<rparr>) = side enc F"
  "side enc (F\<lparr>local_reply_waiting_go := b\<rparr>) = side enc F"
  "side enc (F\<lparr>local_headers := t\<rparr>) = side enc F"
  "side enc (F\<lparr>local_trailers := t\<rparr>) = side enc F"
  by (simp_all add: side_def)

lemma side_eta [simp]: "set_side enc (side enc F) F = F"
  by (simp add: side_def set_side_def)

subsection \<open>Parts of a message that arrive while Go has the stream\<close>

datatype 'b envoy_input = DataIn 'b bool | TrailersIn nat

fun input ::
    "('h, 'b) envoy \<Rightarrow> ('h, 'b, 'cfg, 'u) stream_host \<Rightarrow> nat \<Rightarrow> bool \<Rightarrow> 'b envoy_input \<Rightarrow>
     (('h, 'b, 'cfg, 'u) world, bool) go" where
  "input E H i enc (DataIn d e) =
     go_bind (if enc then encodeData E H i d e else decodeData E H i d e) (\<lambda>x. go_return (fst x))"
| "input E H i enc (TrailersIn t) = (if enc then encodeTrailers E H i t else decodeTrailers E H i t)"

fun deliver ::
    "('h, 'b) envoy \<Rightarrow> ('h, 'b, 'cfg, 'u) stream_host \<Rightarrow> nat \<Rightarrow> bool \<Rightarrow> 'b envoy_input list \<Rightarrow>
     (('h, 'b, 'cfg, 'u) world, bool list) go" where
  "deliver E H i enc [] = go_return []"
| "deliver E H i enc (x # xs) =
     go_bind (input E H i enc x) (\<lambda>r. go_bind (deliver E H i enc xs) (\<lambda>rs. go_return (r # rs)))"

lemma deliver_append:
  "deliver E H i enc (xs @ ys) w =
     go_bind (deliver E H i enc xs) (\<lambda>r. go_bind (deliver E H i enc ys) (\<lambda>s. go_return (r @ s))) w"
  by (induction xs arbitrary: w) (simp_all add: go_bind_def split: prod.split outcome.split)

text \<open>A whole response: its headers, then the rest.\<close>

definition encode_message ::
    "('h, 'b) envoy \<Rightarrow> ('h, 'b, 'cfg, 'u) stream_host \<Rightarrow> nat \<Rightarrow> nat \<Rightarrow> 'b envoy_input list \<Rightarrow>
     (('h, 'b, 'cfg, 'u) world, bool list) go" where
  "encode_message E H i h xs = go_bind (encodeHeaders E H i h (xs = [])) (\<lambda>r.
     go_bind (deliver E H i True xs) (\<lambda>rs. go_return (r # rs)))"

text \<open>The rest of a message after its headers: buffers, the last of which may end it, or trailers.\<close>

inductive rest_of_message :: "'b envoy_input list \<Rightarrow> bool" where
  RestNil: "rest_of_message []"
| RestEnd: "rest_of_message [DataIn d True]"
| RestTrailers: "rest_of_message [TrailersIn t]"
| RestData: "rest_of_message xs \<Longrightarrow> rest_of_message (DataIn d False # xs)"

inductive_cases rest_of_messageE: "rest_of_message (x # xs)"

text \<open>The state of a direction that keeps what arrives.\<close>

definition old_buffer :: "('h, 'b) envoy \<Rightarrow> 'b ProcessorState \<Rightarrow> 'b" where
  "old_buffer E p = (case data_buffer p of None \<Rightarrow> bi_new E | Some b \<Rightarrow> b)"

definition keep_data :: "('h, 'b) envoy \<Rightarrow> 'b \<Rightarrow> 'b ProcessorState \<Rightarrow> 'b ProcessorState" where
  "keep_data E d p = p\<lparr>data_buffer := Some (fst (bi_move E (old_buffer E p) d))\<rparr>"

lemma keep_data_simps [simp]:
  "fstate (keep_data E d p) = fstate p" "end_stream (keep_data E d p) = end_stream p"
  "do_end_stream (keep_data E d p) = do_end_stream p"
  "seen_trailers (keep_data E d p) = seen_trailers p"
  "doDataList (keep_data E d p) = doDataList p"
  by (simp_all add: keep_data_def)

text \<open>No buffer ever crosses a watermark.\<close>

definition no_watermark :: "('h, 'b, 'w) host \<Rightarrow> bool" where
  "no_watermark H \<longleftrightarrow> (\<forall>a b. \<not> above_watermark H a b \<and> \<not> below_watermark H a b)"

lemma no_watermark_plugin [simp]: "no_watermark (with_plugin C P H) = no_watermark H"
  by (simp add: no_watermark_def with_plugin_def)

lemma shrinking_at:
  assumes "no_watermark H" "fst (m (side enc F)) = Ok x"
  shows "shrinking H i enc m (at i F w) = (Ok x, at i (set_side enc (snd (m (side enc F))) F) w)"
  using assms by (simp add: shrinking_def no_watermark_def split: option.split)

lemma addBufferData_at:
  assumes "no_watermark H"
  shows "addBufferData E H i enc d (at i F w) =
    (Ok (snd (bi_move E (old_buffer E (side enc F)) d)),
     at i (set_side enc (keep_data E d (side enc F)) F) w)"
  using assms
  by (simp add: addBufferData_def old_buffer_def keep_data_def Let_def case_prod_unfold no_watermark_def)

definition in_callback :: "FilterState \<Rightarrow> bool" where
  "in_callback s \<longleftrightarrow> s \<in> {ProcessingHeader, ProcessingData}"

lemma doData_waits:
  assumes "in_callback (fstate (side enc F))" "no_watermark H"
  shows "\<exists>d'. doData E H i enc d e (at i F w) =
    (Ok (False, d'), at i (set_side enc (keep_data E d (side enc F)) F) w)"
proof -
  note add = addBufferData_at [OF assms(2), where E = E and d = d and i = i and w = w]
  show ?thesis using assms by (auto simp: doData_def in_callback_def add)
qed

lemma doTrailer_waits:
  assumes "in_callback (fstate (side enc F))"
    and "\<not> end_stream (side enc F)" "\<not> do_end_stream (side enc F)"
  shows "doTrailer E H i enc t (at i F w) = (Ok False, at i (F\<lparr>trailers_ptr := Some t\<rparr>) w)"
  using assms by (auto simp: doTrailer_def in_callback_def)

text \<open>What \<open>input\<close> does to a filter in a callback, trailers apart.\<close>

definition after_input :: "('h, 'b) envoy \<Rightarrow> bool \<Rightarrow> 'b envoy_input \<Rightarrow> 'b Filter \<Rightarrow> 'b Filter" where
  "after_input E enc x F = (case x of
      DataIn d e \<Rightarrow> set_side enc (keep_data E d ((side enc F)\<lparr>end_stream := e\<rparr>)) F
    | TrailersIn t \<Rightarrow> (set_side enc ((side enc F)\<lparr>seen_trailers := True\<rparr>) F)\<lparr>trailers_ptr := Some t\<rparr>)"

lemma input_waits:
  assumes "in_callback (fstate (side enc F))" "\<not> local_reply_waiting_go F" "no_watermark H"
    and "\<And>t. x = TrailersIn t \<Longrightarrow> \<not> end_stream (side enc F) \<and> \<not> do_end_stream (side enc F)"
    and "has_dynamicLib H"
  shows "input E H i enc x (at i F w) = (Ok False, at i (after_input E enc x F) w)"
proof (cases x)
  case (DataIn d e)
  let ?F = "set_side enc ((side enc F)\<lparr>end_stream := e\<rparr>) F"
  obtain d' where "doData E H i enc d e (at i ?F w) =
      (Ok (False, d'), at i (set_side enc (keep_data E d (side enc ?F)) ?F) w)"
    using doData_waits [of enc ?F H E i d e w] assms(1,3) by auto
  then show ?thesis
    using assms(2,5) by (cases enc)
      (simp_all add: DataIn after_input_def encodeData_def decodeData_def take_out_def)
next
  case (TrailersIn t)
  let ?F = "set_side enc ((side enc F)\<lparr>seen_trailers := True\<rparr>) F"
  have "doTrailer E H i enc t (at i ?F w) = (Ok False, at i (?F\<lparr>trailers_ptr := Some t\<rparr>) w)"
    by (rule doTrailer_waits) (use assms TrailersIn in simp_all)
  then show ?thesis
    using assms(2,5) by (cases enc)
      (simp_all add: TrailersIn after_input_def encodeTrailers_def decodeTrailers_def)
qed

lemma after_input_frame:
  "fstate (side enc (after_input E enc x F)) = fstate (side enc F)"
  "do_end_stream (side enc (after_input E enc x F)) = do_end_stream (side enc F)"
  "local_reply_waiting_go (after_input E enc x F) = local_reply_waiting_go F"
  "enter_encoding (after_input E enc x F) = enter_encoding F"
  "filter_req (after_input E enc x F) = filter_req F"
  by (cases x; simp add: after_input_def side_def set_side_def)+

text \<open>While Go has the stream everything that arrives is kept, and Go is not called.\<close>

lemma deliver_waits:
  assumes "rest_of_message xs" "in_callback (fstate (side enc F))" "\<not> local_reply_waiting_go F"
    and "no_watermark H"
    and "\<not> end_stream (side enc F)" "\<not> do_end_stream (side enc F)" "has_dynamicLib H"
  shows "\<exists>F'. deliver E H i enc xs (at i F w) = (Ok (replicate (length xs) False), at i F' w) \<and>
    fstate (side enc F') = fstate (side enc F) \<and> enter_encoding F' = enter_encoding F"
  using assms
proof (induction xs arbitrary: F rule: rest_of_message.induct)
  case RestNil
  then show ?case by auto
next
  case (RestEnd d)
  then show ?case
    using input_waits [of enc F H "DataIn d True" E i w] by (auto simp: after_input_frame)
next
  case (RestTrailers t)
  then show ?case
    using input_waits [of enc F H "TrailersIn t" E i w] by (auto simp: after_input_frame)
next
  case (RestData xs d)
  let ?F = "after_input E enc (DataIn d False) F"
  have "\<not> end_stream (side enc ?F)" by (simp add: after_input_def)
  then obtain F' where "deliver E H i enc xs (at i ?F w) = (Ok (replicate (length xs) False), at i F' w)"
      "fstate (side enc F') = fstate (side enc F)" "enter_encoding F' = enter_encoding F"
    using RestData.IH [of ?F] RestData.prems by (auto simp: after_input_frame)
  then show ?case
    using input_waits [of enc F H "DataIn d False" E i w] RestData.prems by auto
qed

subsection \<open>Headers\<close>

lemma side_cases: "side True F = encoding_state F" "side False F = decoding_state F"
  by (simp_all add: side_def)

lemma golangStatus_of_status:
  "golangStatus (c_int 0) = GRunning" "golangStatus (c_int (status_to_u64 Continue)) = GContinue"
  "golangStatus (c_int (status_to_u64 StopAndBuffer)) = GStopAndBuffer"
  "golangStatus (c_int (status_to_u64 Running)) = GRunning"
  by (simp_all add: golangStatus_def c_int_status_to_u64) (simp_all add: c_int_def)

definition with_phase ::
    "nat \<Rightarrow> httpRequestInternal \<Rightarrow> int \<Rightarrow> ('h, 'b, 'cfg, 'u) world \<Rightarrow> ('h, 'b, 'cfg, 'u) world" where
  "with_phase r cq ph w = w\<lparr>cside := put_creq r (cq\<lparr>phase := ph\<rparr>) (cside w)\<rparr>"

lemma with_phase_simps [simp]:
  "filters (cside (with_phase r cq ph w)) = filters (cside w)"
  "posted (cside (with_phase r cq ph w)) = posted (cside w)"
  "envoy_calls (cside (with_phase r cq ph w)) = envoy_calls (cside w)"
  "hm_heap (cside (with_phase r cq ph w)) = hm_heap (cside w)"
  "creqs (cside (with_phase r cq ph w)) r = Some (cq\<lparr>phase := ph\<rparr>)"
  "Requests (with_phase r cq ph w) = Requests w"
  "httpRequests (with_phase r cq ph w) = httpRequests w"
  "ustate (with_phase r cq ph w) = ustate w"
  by (simp_all add: with_phase_def put_creq_def)

lemma with_phase_at: "with_phase r cq ph (at i F w) = at i F (with_phase r cq ph w)"
  by (simp add: with_phase_def at_def put_creq_def put_filter_def)

lemma set_phase_at:
  assumes "filter_req F = Some r" "creqs (cside w) r = Some cq"
  shows "set_phase i enc (at i F w) = (Ok r, at i F (with_phase r cq (side_phase enc F) w))"
  using assms by (simp add: set_phase_def with_phase_at [symmetric])
    (simp add: with_phase_def put_creq_def)

lemma make_req_at: "filter_req F = Some r \<Longrightarrow> make_req H i enc (at i F w) = (Ok (), at i F w)"
  by (simp add: make_req_def)

text \<open>The filter and the world that Go is called with for headers.\<close>

definition header_filter :: "bool \<Rightarrow> bool \<Rightarrow> nat \<Rightarrow> 'b Filter \<Rightarrow> 'b Filter" where
  "header_filter enc e h F = (set_side enc ((side enc F)\<lparr>fstate := ProcessingHeader,
     do_end_stream := e\<rparr>) F)\<lparr>headers_ptr := Some h\<rparr>"

definition header_phase :: "bool \<Rightarrow> int" where
  "header_phase enc = (if enc then EncodeHeaderPhase else DecodeHeaderPhase)"

lemma side_phase_header:
  "side_phase enc (set_side enc ((side enc F)\<lparr>fstate := ProcessingHeader, do_end_stream := e\<rparr>) F) =
     header_phase enc"
  by (simp add: side_phase_def set_side_def header_phase_def EncodingProcessorState_phase_def
      DecodingProcessorState_phase_def)

lemma doHeaders_at:
  assumes F: "fstate (side enc F) = WaitingHeader" "isBufferDataEmpty E (side enc F)"
    "filter_req F = Some r" and cq: "creqs (cside w) r = Some cq"
    and lib: "lib_moeOnHttpHeader H r (flag e) (hm_size E (hm_heap (cside w) h))
      (hm_byteSize E (hm_heap (cside w) h))
      (at i (header_filter enc e h F) (with_phase r cq (header_phase enc) w)) = (Ok st, w2)"
    and w2: "filters (cside w2) i = Some F2" "fstate (side enc F2) = ProcessingHeader"
  shows "doHeaders E H i enc h e (at i F w) =
    (let status = golangStatus (c_int st); p = snd (handleHeaderGolangStatus status (side enc F2));
         F3 = set_side enc p F2
     in (Ok (status = GContinue),
         at i (if status = GContinue then F3\<lparr>headers_ptr := None\<rparr> else F3) w2))"
proof -
  let ?F1 = "set_side enc ((side enc F)\<lparr>fstate := ProcessingHeader, do_end_stream := e\<rparr>) F"
  have head: "doHeadersGo E H i enc h e (at i ?F1 w) = (Ok (golangStatus (c_int st)), w2)"
    using F(3) cq lib
    by (simp add: doHeadersGo_def make_req_at set_phase_at side_phase_header header_filter_def)
  have w2': "w2 = at i F2 w2" by (rule at_self [OF w2(1), symmetric])
  have "doHeaders E H i enc h e (at i F w) =
    (go_bind (doHeadersGo E H i enc h e) (\<lambda>status.
     go_bind (on_side i enc (handleHeaderGolangStatus status)) (\<lambda>is_done.
     go_then (go_when is_done (set_filter i (headers_ptr_update (\<lambda>_. None))))
       (go_return is_done)))) (at i ?F1 w)"
    using F by (simp add: doHeaders_def processHeader_def)
  also have "\<dots> = (go_bind (on_side i enc (handleHeaderGolangStatus (golangStatus (c_int st)))) (\<lambda>is_done.
     go_then (go_when is_done (set_filter i (headers_ptr_update (\<lambda>_. None))))
       (go_return is_done))) (at i F2 w2)"
    unfolding go_bind_Ok [of "doHeadersGo E H i enc h e" "at i ?F1 w" "golangStatus (c_int st)" w2, OF head]
      w2' [symmetric] ..
  finally show ?thesis
    using w2(2) by (simp add: handleHeader_apply Let_def)
qed

text \<open>Response headers that come when the request is done.\<close>

lemma encodeHeaders_in_order:
  assumes "\<not> enter_encoding F" "fstate (side False F) = Done" "has_dynamicLib H"
  shows "encodeHeaders E H i h e (at i F w) = doHeaders E H i True h e
    (at i ((set_side True ((side True F)\<lparr>end_stream := e\<rparr>) F)\<lparr>enter_encoding := True\<rparr>) w)"
  using assms by (simp add: encodeHeaders_def Let_def)

text \<open>The filter Go is called with for such headers when a body follows, and after Go's answer.\<close>

definition first_headers :: "nat \<Rightarrow> 'b Filter \<Rightarrow> 'b Filter" where
  "first_headers h F = header_filter True False h
     ((set_side True ((side True F)\<lparr>end_stream := False\<rparr>) F)\<lparr>enter_encoding := True\<rparr>)"

definition headers_answered :: "GolangStatus \<Rightarrow> nat \<Rightarrow> 'b Filter \<Rightarrow> 'b Filter" where
  "headers_answered st h F =
     (let G = first_headers h F;
          F3 = set_side True (snd (handleHeaderGolangStatus st (side True G))) G
      in if st = GContinue then F3\<lparr>headers_ptr := None\<rparr> else F3)"

lemma first_headers_simps [simp]:
  "side True (first_headers h F) = (side True F)\<lparr>end_stream := False, fstate := ProcessingHeader,
     do_end_stream := False\<rparr>"
  "enter_encoding (first_headers h F)" "filter_req (first_headers h F) = filter_req F"
  "has_destroyed (first_headers h F) = has_destroyed F"
  "local_reply_waiting_go (first_headers h F) = local_reply_waiting_go F"
  by (simp_all add: first_headers_def header_filter_def side_def set_side_def)

lemma headers_answered_side:
  "side True (headers_answered st h F) = snd (handleHeaderGolangStatus st
     ((side True F)\<lparr>end_stream := False, fstate := ProcessingHeader, do_end_stream := False\<rparr>))"
  by (simp add: headers_answered_def Let_def)

lemma headers_answered_simps [simp]:
  "enter_encoding (headers_answered st h F)" "filter_req (headers_answered st h F) = filter_req F"
  "has_destroyed (headers_answered st h F) = has_destroyed F"
  "local_reply_waiting_go (headers_answered st h F) = local_reply_waiting_go F"
  by (simp_all add: headers_answered_def Let_def)

lemma encodeHeaders_answered:
  assumes F: "filters (cside w) i = Some F" "\<not> enter_encoding F" "filter_req F = Some r"
      "fstate (side False F) = Done" "fstate (side True F) = WaitingHeader"
      "isBufferDataEmpty E (side True F)"
    and cq: "creqs (cside w) r = Some cq"
    and lib: "lib_moeOnHttpHeader H r 0 (hm_size E (hm_heap (cside w) h))
      (hm_byteSize E (hm_heap (cside w) h))
      (at i (first_headers h F) (with_phase r cq EncodeHeaderPhase w)) = (Ok st, w2)"
      "cside w2 = cside (at i (first_headers h F) (with_phase r cq EncodeHeaderPhase w))"
      "has_dynamicLib H"
  shows "encodeHeaders E H i h False w = (Ok (golangStatus (c_int st) = GContinue),
    at i (headers_answered (golangStatus (c_int st)) h F) w2)"
proof -
  let ?F = "(set_side True ((side True F)\<lparr>end_stream := False\<rparr>) F)\<lparr>enter_encoding := True\<rparr>"
  let ?G = "header_filter True False h ?F"
  have G: "first_headers h F = ?G" by (simp add: first_headers_def)
  have w2: "filters (cside w2) i = Some ?G" "fstate (side True ?G) = ProcessingHeader"
    using lib(2) by (simp_all add: G header_filter_def)
  have "encodeHeaders E H i h False (at i F w) = doHeaders E H i True h False (at i ?F w)"
    by (rule encodeHeaders_in_order [OF F(2,4) lib(3)])
  also have "\<dots> = (let status = golangStatus (c_int st);
         p = snd (handleHeaderGolangStatus status (side True ?G)); F3 = set_side True p ?G
     in (Ok (status = GContinue),
         at i (if status = GContinue then F3\<lparr>headers_ptr := None\<rparr> else F3) w2))"
    by (rule doHeaders_at [OF _ _ _ cq _ w2])
      (use F lib(1) in \<open>simp_all add: G flag_def isBufferDataEmpty_def header_phase_def\<close>)
  finally show ?thesis
    using at_self [OF F(1)] by (simp add: headers_answered_def Let_def G)
qed

subsection \<open>Keeping a whole body\<close>

definition kept_bytes :: "('h, 'b) envoy \<Rightarrow> 'b ProcessorState \<Rightarrow> string" where
  "kept_bytes E p = (case data_buffer p of None \<Rightarrow> [] | Some b \<Rightarrow> bi_bytes E b)"

text \<open>The filter of a new stream.\<close>

lemma fresh_filter_simps [simp]:
  "filter_req Filter_new = None" "\<not> has_destroyed Filter_new" "\<not> enter_encoding Filter_new"
  "\<not> local_reply_waiting_go Filter_new" "side enc Filter_new = ProcessorState_new"
  by (simp_all add: Filter_new_def side_def)

lemma fresh_processor_simps [simp]:
  "fstate ProcessorState_new = WaitingHeader" "kept_bytes E ProcessorState_new = []"
  "queue (doDataList ProcessorState_new) = []" "\<not> seen_trailers ProcessorState_new"
  "isBufferDataEmpty E ProcessorState_new"
  by (simp_all add: ProcessorState_new_def kept_bytes_def BufferList_new_def isBufferDataEmpty_def)

lemma kept_bytes_keep:
  "buffer_laws E \<Longrightarrow> kept_bytes E (keep_data E d p) = kept_bytes E p @ bi_bytes E d"
  by (simp add: kept_bytes_def keep_data_def old_buffer_def buffer_lawsD split: option.split)

lemma isBufferDataEmpty_kept:
  assumes "buffer_laws E" "length (kept_bytes E p) < 2 ^ 64"
  shows "isBufferDataEmpty E p \<longleftrightarrow> kept_bytes E p = []"
proof (cases "data_buffer p")
  case (Some b)
  have "(of_nat (length (bi_bytes E b)) :: u64) = 0 \<longleftrightarrow> length (bi_bytes E b) = 0"
    using assms(2) Some by (auto simp: kept_bytes_def word_of_nat_eq_0_iff dest: dvd_imp_le)
  then show ?thesis using assms Some
    by (simp add: isBufferDataEmpty_def kept_bytes_def buffer_lawsD)
qed (simp add: isBufferDataEmpty_def kept_bytes_def)

lemma input_kept:
  assumes "fstate (side enc F) = WaitingAllData" "\<not> local_reply_waiting_go F" "no_watermark H"
    "has_dynamicLib H"
  shows "input E H i enc (DataIn d False) (at i F w) =
    (Ok False, at i (after_input E enc (DataIn d False) F) w)"
proof -
  let ?F = "set_side enc ((side enc F)\<lparr>end_stream := False\<rparr>) F"
  have "addBufferData E H i enc d (at i ?F w) = (Ok (snd (bi_move E (old_buffer E (side enc ?F)) d)),
      at i (set_side enc (keep_data E d (side enc ?F)) ?F) w)"
    by (rule addBufferData_at [OF assms(3)])
  then show ?thesis
    using assms by (cases enc) (simp_all add: after_input_def encodeData_def decodeData_def
        take_out_def doData_def)
qed

text \<open>Buffers that do not end the message, while the whole body is wanted.\<close>

lemma deliver_kept:
  assumes "buffer_laws E" "no_watermark H" "\<not> local_reply_waiting_go F"
    and "fstate (side enc F) = WaitingAllData" "has_dynamicLib H"
  shows "\<exists>p. deliver E H i enc (map (\<lambda>d. DataIn d False) ds) (at i F w) =
      (Ok (replicate (length ds) False), at i (set_side enc p F) w) \<and>
    fstate p = WaitingAllData \<and> doDataList p = doDataList (side enc F) \<and>
    seen_trailers p = seen_trailers (side enc F) \<and> do_end_stream p = do_end_stream (side enc F) \<and>
    (end_stream p \<longrightarrow> end_stream (side enc F)) \<and>
    kept_bytes E p = kept_bytes E (side enc F) @ concat (map (bi_bytes E) ds)"
  using assms(3,4)
proof (induction ds arbitrary: F)
  case Nil
  then show ?case by (intro exI [of _ "side enc F"]) simp
next
  case (Cons d ds)
  let ?F = "after_input E enc (DataIn d False) F"
  have in1: "input E H i enc (DataIn d False) (at i F w) = (Ok False, at i ?F w)"
    by (rule input_kept [OF Cons.prems(2,1) assms(2,5)])
  obtain p where "deliver E H i enc (map (\<lambda>d. DataIn d False) ds) (at i ?F w) =
      (Ok (replicate (length ds) False), at i (set_side enc p ?F) w)"
      "fstate p = WaitingAllData" "doDataList p = doDataList (side enc ?F)"
      "seen_trailers p = seen_trailers (side enc ?F)" "do_end_stream p = do_end_stream (side enc ?F)"
      "end_stream p \<longrightarrow> end_stream (side enc ?F)"
      "kept_bytes E p = kept_bytes E (side enc ?F) @ concat (map (bi_bytes E) ds)"
    using Cons.IH [of ?F] Cons.prems by (auto simp: after_input_frame)
  moreover have "kept_bytes E (side enc ?F) = kept_bytes E (side enc F) @ bi_bytes E d"
    using kept_bytes_keep [OF assms(1), of d "(side enc F)\<lparr>end_stream := False\<rparr>"]
    by (simp add: after_input_def kept_bytes_def)
  moreover have "doDataList (side enc ?F) = doDataList (side enc F)"
    "seen_trailers (side enc ?F) = seen_trailers (side enc F)"
    "do_end_stream (side enc ?F) = do_end_stream (side enc F)" "\<not> end_stream (side enc ?F)"
    "set_side enc p ?F = set_side enc p F"
    by (simp_all add: after_input_def)
  ultimately show ?case using in1 by (intro exI [of _ p]) simp
qed

text \<open>The state in which Go is handed data.\<close>

definition data_state ::
    "('h, 'b) envoy \<Rightarrow> u64 \<Rightarrow> 'b \<Rightarrow> bool \<Rightarrow> 'b ProcessorState \<Rightarrow> 'b ProcessorState" where
  "data_state E a d e p = p\<lparr>fstate := ProcessingData, do_end_stream := e,
     doDataList := snd (push E a d (doDataList p))\<rparr>"

definition data_phase :: "bool \<Rightarrow> int" where
  "data_phase enc = (if enc then EncodeDataPhase else DecodeDataPhase)"

lemma side_phase_data:
  "fstate p = ProcessingData \<Longrightarrow> side_phase enc (set_side enc p F) = data_phase enc"
  by (simp add: side_phase_def set_side_def data_phase_def EncodingProcessorState_phase_def
      DecodingProcessorState_phase_def)

lemma last_push: "last (queue (snd (push E a d q))) = (a, fst (bi_move E (bi_new E) d))"
  by (simp add: push_def Let_def case_prod_unfold)

lemma doDataGo_at:
  assumes F: "fstate (side enc F) = WaitingData \<or>
      fstate (side enc F) = WaitingAllData \<and> (e \<or> seen_trailers (side enc F))"
    "filter_req F = Some r" and cq: "creqs (cside w) r = Some cq"
    and a: "alloc_buf H (cside (at i (set_side enc ((side enc F)\<lparr>fstate := ProcessingData,
      do_end_stream := e\<rparr>) F) w)) = a"
    and lib: "lib_moeOnHttpData H r (flag e) a (bi_length E (fst (bi_move E (bi_new E) d)))
      (at i (set_side enc (data_state E a d e (side enc F)) F)
        (with_phase r cq (data_phase enc) w)) = (Ok st, w2)"
    and w2: "filters (cside w2) i = Some F2"
    and p: "handleDataGolangStatus E (golangStatus (c_int st)) (side enc F2) = (Ok go_on, p)"
  shows "doDataGo E H i enc False d e (at i F w) =
    (Ok (go_on, snd (bi_move E (bi_new E) d)), at i (set_side enc p F2) w2)"
proof -
  let ?D = "set_side enc (data_state E a d e (side enc F)) F"
  have ph: "side_phase enc ?D = data_phase enc" by (simp add: side_phase_data data_state_def)
  have w2': "w2 = at i F2 w2" by (rule at_self [OF w2, symmetric])
  have push: "fst (push E a d q) = snd (bi_move E (bi_new E) d)" for q
    by (simp add: push_def Let_def case_prod_unfold)
  have pdata: "processData e (side enc F) =
      (Ok (), (side enc F)\<lparr>fstate := ProcessingData, do_end_stream := e\<rparr>)"
    using F(1) by (auto simp: processData_def)
  have "doDataGo E H i enc False d e (at i F w) =
    go_bind (lib_moeOnHttpData H r (flag e) a (bi_length E (fst (bi_move E (bi_new E) d)))) (\<lambda>status.
     go_bind (on_side i enc (handleDataGolangStatus E (golangStatus (c_int status)))) (\<lambda>is_done.
       go_return (is_done, snd (bi_move E (bi_new E) d))))
     (at i ?D (with_phase r cq (data_phase enc) w))"
    unfolding doDataGo_def using F(2) cq a ph
    by (simp add: pdata push data_state_def set_phase_at last_push case_prod_unfold)
  also have "\<dots> = go_bind (on_side i enc (handleDataGolangStatus E (golangStatus (c_int st)))) (\<lambda>is_done.
       go_return (is_done, snd (bi_move E (bi_new E) d))) (at i F2 w2)"
    using lib w2' by simp
  finally show ?thesis using p by simp
qed

subsection \<open>Requests in the middle of a stream\<close>

text \<open>A request object the callbacks of a running stream find.\<close>

definition serves ::
    "('h, 'b, 'cfg, 'u) world \<Rightarrow> nat \<Rightarrow> nat \<Rightarrow> httpRequest \<Rightarrow> nat \<Rightarrow> bool" where
  "serves w r rq q bf \<longleftrightarrow> Requests w r = Some rq \<and> httpRequests w rq = Some q \<and> \<not> paniced q \<and>
     req q = r \<and> httpFilter q = Some bf"

lemma serves_cong:
  "Requests w' = Requests w \<Longrightarrow> httpRequests w' = httpRequests w \<Longrightarrow>
   serves w' r rq q bf = serves w r rq q bf"
  by (simp add: serves_def)

lemma serves_at [simp]: "serves (at i F w) r rq q bf = serves w r rq q bf"
  "serves (with_phase r cq ph w) r rq q bf = serves w r rq q bf"
  by (simp_all add: serves_def)

text \<open>What a callback that only stores something leaves of the library's world.\<close>

definition left_alone ::
    "nat \<Rightarrow> httpRequestInternal \<Rightarrow> ('h, 'b, 'cfg, 'u) world \<Rightarrow> ('h, 'b, 'cfg, 'u) world \<Rightarrow> bool" where
  "left_alone r cq w w2 \<longleftrightarrow> (\<exists>ph. creqs (cside w2) r = Some (cq\<lparr>phase := ph\<rparr>)) \<and>
     posted (cside w2) = posted (cside w) \<and> envoy_calls (cside w2) = envoy_calls (cside w) \<and>
     Requests w2 = Requests w \<and> httpRequests w2 = httpRequests w"

lemma left_alone_at [simp]: "left_alone r cq w (at i F w2) = left_alone r cq w w2"
  "left_alone r cq (at i F w) w2 = left_alone r cq w w2"
  by (simp_all add: left_alone_def)

lemma left_alone_trans:
  "left_alone r cq w w1 \<Longrightarrow> left_alone r (cq\<lparr>phase := ph\<rparr>) w1 w2 \<Longrightarrow> left_alone r cq w w2"
  by (auto simp: left_alone_def)

lemma left_alone_serves: "left_alone r cq w w2 \<Longrightarrow> serves w r rq q bf \<Longrightarrow> serves w2 r rq q bf"
  by (simp add: left_alone_def serves_def)

subsection \<open>What the rest of the filter chain gets\<close>

fun stream_data ::
    "('h, 'b) envoy \<Rightarrow> ('h, 'b, 'cfg, 'u) stream_host \<Rightarrow> nat \<Rightarrow> ('b \<times> bool) list \<Rightarrow>
     (('h, 'b, 'cfg, 'u) world, (bool \<times> 'b) list) go" where
  "stream_data E H i [] = go_return []"
| "stream_data E H i ((d, e) # xs) =
     go_bind (encodeData E H i d e) (\<lambda>x. go_bind (stream_data E H i xs) (\<lambda>rs. go_return (x # rs)))"

text \<open>A response with a body: the answer to the headers, then the answer and the data of each buffer.\<close>

definition encode_response ::
    "('h, 'b) envoy \<Rightarrow> ('h, 'b, 'cfg, 'u) stream_host \<Rightarrow> nat \<Rightarrow> nat \<Rightarrow> ('b \<times> bool) list \<Rightarrow>
     (('h, 'b, 'cfg, 'u) world, bool \<times> (bool \<times> 'b) list) go" where
  "encode_response E H i h xs = go_bind (encodeHeaders E H i h (xs = [])) (\<lambda>r.
     go_bind (stream_data E H i xs) (\<lambda>rs. go_return (r, rs)))"

definition body_of :: "'b list \<Rightarrow> 'b \<Rightarrow> ('b \<times> bool) list" where
  "body_of ds d = map (\<lambda>d. (d, False)) ds @ [(d, True)]"

text \<open>The bytes that go on: those of the buffers let through and those injected later.\<close>

fun injected :: "('h, 'b) envoy \<Rightarrow> 'b envoy_call \<Rightarrow> string" where
  "injected E (InjectCall enc d e) = bi_bytes E d"
| "injected E _ = []"

definition chain_gets ::
    "('h, 'b) envoy \<Rightarrow> (bool \<times> 'b) list \<Rightarrow> 'b envoy_call list \<Rightarrow> string" where
  "chain_gets E rs calls = concat (map (\<lambda>x. if fst x then bi_bytes E (snd x) else []) rs) @
     concat (map (injected E) calls)"

lemma deliver_stream_data:
  "deliver E H i True (map (\<lambda>x. DataIn (fst x) (snd x)) xs) w =
     go_bind (stream_data E H i xs) (\<lambda>rs. go_return (map fst rs)) w"
  by (induction xs arbitrary: w) (auto simp: go_bind_def split: prod.split outcome.split)

lemma encode_message_response:
  assumes "encode_message E H i h (map (\<lambda>x. DataIn (fst x) (snd x)) xs) w = (Ok bs, w')"
  shows "\<exists>r rs. encode_response E H i h xs w = (Ok (r, rs), w') \<and> bs = r # map fst rs"
  using assms unfolding encode_message_def encode_response_def
  by (auto simp: go_bind_def deliver_stream_data split: prod.splits outcome.splits)

subsection \<open>Pass through\<close>

lemma pass_header:
  assumes "creqs (cside w) r = Some cq" "phase cq = EncodeHeaderPhase" "serves w r rq q f"
  shows "\<exists>w2. moeOnHttpHeader C default_plugin r 0 n b w = (Ok (status_to_u64 Continue), w2) \<and>
    cside w2 = cside w \<and> Requests w2 = Requests w \<and> httpRequests w2 = httpRequests w"
  using assms
  by (simp add: moeOnHttpHeader_known header_switch_def new_headerMap_def filter_of_def serves_def
      default_plugin_def passThroughFilter_def)

lemma pass_data:
  assumes "creqs (cside w) r = Some cq" "phase cq = EncodeDataPhase" "serves w r rq q f"
  shows "\<exists>w2. moeOnHttpData C default_plugin r e a n w = (Ok (status_to_u64 Continue), w2) \<and>
    cside w2 = cside w \<and> Requests w2 = Requests w \<and> httpRequests w2 = httpRequests w"
  using assms
  by (simp add: moeOnHttpData_def getRequest_def GetReq_def new_httpBuffer_def filter_of_def
      serves_def default_plugin_def passThroughFilter_def)

lemma passed_on:
  "fstate p = ProcessingData \<Longrightarrow> \<not> seen_trailers p \<Longrightarrow> handleDataGolangStatus E GContinue p =
     (Ok True, p\<lparr>fstate := (if do_end_stream p then Done else WaitingData)\<rparr>)"
  by (simp add: handleDataGolangStatus_def see_trailers_def)

text \<open>A direction that streams: nothing is held back between two buffers.\<close>

definition streaming :: "nat \<Rightarrow> 'b Filter \<Rightarrow> bool" where
  "streaming r F \<longleftrightarrow> fstate (side True F) = WaitingData \<and> \<not> seen_trailers (side True F) \<and>
     queue (doDataList (side True F)) = [] \<and> enter_encoding F \<and> \<not> local_reply_waiting_go F \<and>
     filter_req F = Some r"

lemma pass_encodeData:
  assumes laws: "buffer_laws E" and F: "streaming r F"
    and w: "creqs (cside w) r = Some cq" "serves w r rq q f"
  shows "\<exists>d' p w2. encodeData E (with_plugin C default_plugin H) i d e (at i F w) =
      (Ok (True, d'), at i (set_side True p F) w2) \<and> bi_bytes E d' = bi_bytes E d \<and>
    (e \<or> streaming r (set_side True p F)) \<and> left_alone r cq w w2"
proof -
  let ?H = "with_plugin C default_plugin H"
  let ?F = "set_side True ((side True F)\<lparr>end_stream := e\<rparr>) F"
  let ?a = "alloc_buf H (cside (at i (set_side True ((side True ?F)\<lparr>fstate := ProcessingData,
      do_end_stream := e\<rparr>) ?F) w))"
  let ?D = "data_state E ?a d e (side True ?F)"
  let ?w = "at i (set_side True ?D ?F) (with_phase r cq (data_phase True) w)"
  let ?p = "?D\<lparr>fstate := (if do_end_stream ?D then Done else WaitingData)\<rparr>"
  let ?rest = "snd (bi_move E (bi_new E) d)"
  let ?m = "moveOut E ?rest (doDataList ?p)"
  have start: "fstate (side True ?F) = WaitingData" "filter_req ?F = Some r"
    "\<not> seen_trailers (side True ?F)" "queue (doDataList (side True ?F)) = []"
    using F by (simp_all add: streaming_def)
  have go: "creqs (cside ?w) r = Some (cq\<lparr>phase := data_phase True\<rparr>)"
      "phase (cq\<lparr>phase := data_phase True\<rparr>) = EncodeDataPhase" "serves ?w r rq q f"
    using w by (simp_all add: data_phase_def)
  obtain w2 where w2: "moeOnHttpData C default_plugin r (flag e) ?a
        (bi_length E (fst (bi_move E (bi_new E) d))) ?w = (Ok (status_to_u64 Continue), w2)"
      "cside w2 = cside ?w" "Requests w2 = Requests ?w" "httpRequests w2 = httpRequests ?w"
    using pass_data [OF go, of C "flag e" ?a] by blast
  have F2: "filters (cside w2) i = Some (set_side True ?D ?F)" using w2(2) by simp
  have D: "fstate ?D = ProcessingData" "\<not> seen_trailers ?D" "do_end_stream ?D = e"
    using start by (simp_all add: data_state_def)
  have "handleDataGolangStatus E (golangStatus (c_int (status_to_u64 Continue)))
      (side True (set_side True ?D ?F)) = (Ok True, ?p)"
    unfolding golangStatus_of_status side_simps(1) [of True ?D ?F] by (rule passed_on [OF D(1,2)])
  then have data: "doDataGo E ?H i True False d e (at i ?F w) =
      (Ok (True, ?rest), at i (set_side True ?p (set_side True ?D ?F)) w2)"
    using start w2(1) F2 w(1)
    by (intro doDataGo_at [where r = r and cq = cq and a = ?a and st = "status_to_u64 Continue"])
      (simp_all add: with_plugin_def)
  let ?q = "?p\<lparr>doDataList := snd ?m\<rparr>"
  have "encodeData E ?H i d e (at i F w) = (Ok (True, fst ?m), at i (set_side True ?q F) w2)"
    using F start(1) data
    by (simp add: encodeData_def doData_def take_out_def streaming_def case_prod_unfold)
  moreover have "bi_bytes E (fst ?m) = bi_bytes E d"
    using start(4) by (simp add: moveOut_bytes [OF laws] buffer_lawsD [OF laws] data_state_def
        push_bytes [OF laws]) (simp add: list_bytes_def)
  moreover have "e \<or> streaming r (set_side True ?q F)"
    using F D by (simp add: streaming_def moveOut_bytes [OF laws])
  moreover have "left_alone r cq w w2" using w2(2-4) by (auto simp: left_alone_def)
  ultimately show ?thesis by blast
qed

lemma left_alone_refl: "creqs (cside w) r = Some cq \<Longrightarrow> left_alone r cq w w"
  unfolding left_alone_def by (auto intro: exI [of _ "phase cq"])

lemma pass_stream:
  assumes laws: "buffer_laws E" and F: "streaming r F"
    and w: "creqs (cside w) r = Some cq" "serves w r rq q f"
  shows "\<exists>rs p w2. stream_data E (with_plugin C default_plugin H) i (body_of ds d) (at i F w) =
      (Ok rs, at i (set_side True p F) w2) \<and> map fst rs = replicate (Suc (length ds)) True \<and>
    map (\<lambda>x. bi_bytes E (snd x)) rs = map (bi_bytes E) (ds @ [d]) \<and> left_alone r cq w w2"
  using F w
proof (induction ds arbitrary: F cq w)
  case Nil
  obtain d' p w2 where "encodeData E (with_plugin C default_plugin H) i d True (at i F w) =
      (Ok (True, d'), at i (set_side True p F) w2)" "bi_bytes E d' = bi_bytes E d" "left_alone r cq w w2"
    using pass_encodeData [OF laws Nil, of C H i d True] by blast
  then show ?case by (auto simp: body_of_def)
next
  case (Cons x ds)
  obtain d' p w1 where 1: "encodeData E (with_plugin C default_plugin H) i x False (at i F w) =
      (Ok (True, d'), at i (set_side True p F) w1)" "bi_bytes E d' = bi_bytes E x"
      "streaming r (set_side True p F)" "left_alone r cq w w1"
    using pass_encodeData [OF laws Cons.prems, of C H i x False] by blast
  obtain ph where cq1: "creqs (cside w1) r = Some (cq\<lparr>phase := ph\<rparr>)"
    using 1(4) by (auto simp: left_alone_def)
  obtain rs p' w2 where 2: "stream_data E (with_plugin C default_plugin H) i (body_of ds d)
      (at i (set_side True p F) w1) = (Ok rs, at i (set_side True p' (set_side True p F)) w2)"
      "map fst rs = replicate (Suc (length ds)) True"
      "map (\<lambda>x. bi_bytes E (snd x)) rs = map (bi_bytes E) (ds @ [d])" "left_alone r (cq\<lparr>phase := ph\<rparr>) w1 w2"
    using Cons.IH [OF 1(3) cq1 left_alone_serves [OF 1(4) Cons.prems(3)]] by blast
  have "stream_data E (with_plugin C default_plugin H) i (body_of (x # ds) d) (at i F w) =
      (Ok ((True, d') # rs), at i (set_side True p' F) w2)"
    using 1(1) 2(1) by (simp add: body_of_def)
  then show ?case
    using 1(2) 2(2,3) left_alone_trans [OF 1(4) 2(4)] by (intro exI conjI) (assumption | simp)+
qed

lemma chain_gets_passed:
  assumes "map fst rs = replicate n True" "map (\<lambda>x. bi_bytes E (snd x)) rs = map (bi_bytes E) ds"
  shows "chain_gets E rs [] = concat (map (bi_bytes E) ds)"
proof -
  have "fst x" if "x \<in> set rs" for x
    using assms(1) that by (metis image_eqI in_set_replicate list.set_map)
  then have "map (\<lambda>x. if fst x then bi_bytes E (snd x) else []) rs = map (\<lambda>x. bi_bytes E (snd x)) rs"
    by simp
  then show ?thesis using assms(2) by (simp add: chain_gets_def)
qed

lemma chain_gets_stopped:
  assumes "map fst rs = replicate n False"
  shows "chain_gets E rs calls = concat (map (injected E) calls)"
proof -
  have "\<not> fst x" if "x \<in> set rs" for x
    using assms that by (metis image_eqI in_set_replicate list.set_map)
  then have "concat (map (\<lambda>x. if fst x then bi_bytes E (snd x) else []) rs) = []" by simp
  then show ?thesis by (simp add: chain_gets_def)
qed

lemma pass_response:
  assumes laws: "buffer_laws E"
    and F: "filters (cside w) i = Some F" "\<not> enter_encoding F" "filter_req F = Some r"
      "fstate (side False F) = Done" "fstate (side True F) = WaitingHeader"
      "isBufferDataEmpty E (side True F)"
      "\<not> local_reply_waiting_go F" "queue (doDataList (side True F)) = []"
      "\<not> seen_trailers (side True F)"
    and w: "creqs (cside w) r = Some cq" "serves w r rq q f"
  shows "\<exists>rs G w2. encode_response E (with_plugin C default_plugin H) i h (body_of ds d) w =
      (Ok (True, rs), at i G w2) \<and> map fst rs = replicate (Suc (length ds)) True \<and>
    map (\<lambda>x. bi_bytes E (snd x)) rs = map (bi_bytes E) (ds @ [d]) \<and> left_alone r cq w w2"
proof -
  let ?H = "with_plugin C default_plugin H"
  let ?n = "hm_size E (hm_heap (cside w) h)" and ?b = "hm_byteSize E (hm_heap (cside w) h)"
  let ?w1 = "at i (first_headers h F) (with_phase r cq EncodeHeaderPhase w)"
  let ?G = "headers_answered GContinue h F"
  have go: "creqs (cside ?w1) r = Some (cq\<lparr>phase := EncodeHeaderPhase\<rparr>)"
      "phase (cq\<lparr>phase := EncodeHeaderPhase\<rparr>) = EncodeHeaderPhase" "serves ?w1 r rq q f"
    using w by simp_all
  obtain w2 where w2: "moeOnHttpHeader C default_plugin r 0 ?n ?b ?w1 = (Ok (status_to_u64 Continue), w2)"
      "cside w2 = cside ?w1" "Requests w2 = Requests ?w1" "httpRequests w2 = httpRequests ?w1"
    using pass_header [OF go, of C ?n ?b] by blast
  have lib: "lib_moeOnHttpHeader ?H r 0 ?n ?b ?w1 = (Ok (status_to_u64 Continue), w2)"
    using w2(1) by (simp add: with_plugin_def)
  have head: "encodeHeaders E ?H i h False w = (Ok (GContinue = GContinue), at i ?G w2)"
    by (rule encodeHeaders_answered [OF F(1-6) w(1) lib w2(2), unfolded golangStatus_of_status]) simp
  have left: "left_alone r cq w w2" using w2(2-4) by (auto simp: left_alone_def)
  then obtain ph where cq1: "creqs (cside w2) r = Some (cq\<lparr>phase := ph\<rparr>)"
    by (auto simp: left_alone_def)
  have "streaming r ?G"
    using F by (simp add: streaming_def headers_answered_side handleHeader_apply)
  from pass_stream [OF laws this cq1 left_alone_serves [OF left w(2)], of C H i ds d]
  obtain rs p w3 where "stream_data E ?H i (body_of ds d) (at i ?G w2) =
      (Ok rs, at i (set_side True p ?G) w3)" "map fst rs = replicate (Suc (length ds)) True"
      "map (\<lambda>x. bi_bytes E (snd x)) rs = map (bi_bytes E) (ds @ [d])" "left_alone r (cq\<lparr>phase := ph\<rparr>) w2 w3"
    by blast
  moreover have "body_of ds d \<noteq> []" by (simp add: body_of_def)
  ultimately show ?thesis
    using head left_alone_trans [OF left] by (auto simp: encode_response_def)
qed

subsection \<open>A body that never came\<close>

text \<open>
  \<open>StopAndBuffer\<close> for a message that ended with its headers: there is no buffer to hand to Go.
\<close>

lemma continue_without_body:
  assumes "\<not> has_destroyed F" "\<not> local_reply_waiting_go F" "enter_encoding F = enc"
    and "fstate (side enc F) = ProcessingHeader" "end_stream (side enc F)"
    and "data_buffer (side enc F) = None"
  shows "\<exists>w'. run_closure E H i (PostContinue GStopAndBuffer) (at i F w) = (Fault NullPointer, w')"
proof -
  let ?F = "set_side enc ((side enc F)\<lparr>fstate := WaitingAllData\<rparr>) F"
  have "handleGolangStatus E GStopAndBuffer (side enc F) =
      (Ok False, (side enc F)\<lparr>fstate := WaitingAllData\<rparr>)"
    using assms(4) by (simp add: handleGolangStatus_def isProcessingInGo_def handleHeader_apply)
  moreover have "doBufferedData E H i enc True (at i ?F w) = (Fault NullPointer, at i ?F w)"
    using assms(6) by (simp add: doBufferedData_def)
  ultimately have "continue_state E H i enc GStopAndBuffer (at i F w) = (Fault NullPointer, at i ?F w)"
    using assms(4,5) by (simp add: continue_state_def isStreamEnd_def)
  then show ?thesis
    using assms(1-3) by (simp add: run_closure_def live_filter_def continueStatusInternal_def)
qed

lemma stop_event_eq:
  "PostContinue (golangStatus (c_int (status_to_u64 StopAndBuffer))) = PostContinue GStopAndBuffer"
  unfolding golangStatus_of_status ..

subsection \<open>A local reply while Go has the stream\<close>

lemma header_continues:
  assumes "creqs (cside w) r = Some cq" "phase cq = EncodeHeaderPhase" "serves w r rq q f"
    and "\<And>hp e. EncodeHeaders (http_filter P f) hp e = go_return Continue"
  shows "\<exists>w2. moeOnHttpHeader C P r e n b w = (Ok (status_to_u64 Continue), w2) \<and>
    cside w2 = cside w"
  using assms
  by (simp add: moeOnHttpHeader_known header_switch_def new_headerMap_def filter_of_def serves_def)

text \<open>The filter that keeps the headers of the reply until Go comes back.\<close>

definition reply_waits :: "('h, 'b) envoy \<Rightarrow> nat \<Rightarrow> bool \<Rightarrow> 'b Filter \<Rightarrow> 'b Filter" where
  "reply_waits E h e F = (set_side False (drainBufferData E (side False F))
     (set_side True ((side True F)\<lparr>end_stream := e\<rparr>) F))
     \<lparr>local_reply_waiting_go := True, local_headers := Some h\<rparr>"

lemma reply_kept:
  assumes "no_watermark H" "\<not> enter_encoding F" "isProcessingInGo (side False F)" "has_dynamicLib H"
  shows "encodeHeaders E H i h e (at i F w) = (Ok False, at i (reply_waits E h e F) w)"
proof -
  have "fstate (side False F) \<noteq> Done" using assms(3) by (auto simp: isProcessingInGo_def)
  then show ?thesis
    using assms by (simp add: encodeHeaders_def Let_def shrinking_at reply_waits_def)
qed

text \<open>The filter with which the headers of the reply are given to Go.\<close>

definition reply_turn :: "('h, 'b) envoy \<Rightarrow> nat \<Rightarrow> bool \<Rightarrow> 'b Filter \<Rightarrow> 'b Filter" where
  "reply_turn E h e F = (let G = reply_waits E h e F;
       K = set_side False ((side False G)\<lparr>doDataList := clearAll (doDataList (side False G))\<rparr>) G;
       K2 = K\<lparr>local_reply_waiting_go := False, enter_encoding := True, trailers_ptr := trailers_ptr G\<rparr>
     in set_side True ((side True K2)\<lparr>fstate := ProcessingHeader, do_end_stream := e\<rparr>) K2)"

lemma reply_waits_simps [simp]:
  "side True (reply_waits E h e F) = (side True F)\<lparr>end_stream := e\<rparr>"
  "local_reply_waiting_go (reply_waits E h e F)" "local_headers (reply_waits E h e F) = Some h"
  "enter_encoding (reply_waits E h e F) = enter_encoding F"
  "has_destroyed (reply_waits E h e F) = has_destroyed F"
  "filter_req (reply_waits E h e F) = filter_req F"
  "local_trailers (reply_waits E h e F) = local_trailers F"
  by (simp_all add: reply_waits_def side_def set_side_def)

lemma reply_turn_simps [simp]:
  "side True (reply_turn E h e F) = (side True F)\<lparr>end_stream := e, fstate := ProcessingHeader,
     do_end_stream := e\<rparr>"
  "\<not> local_reply_waiting_go (reply_turn E h e F)" "enter_encoding (reply_turn E h e F)"
  "filter_req (reply_turn E h e F) = filter_req F"
  by (simp_all add: reply_turn_def Let_def)

lemma reply_sent:
  assumes F: "\<not> has_destroyed F" "\<not> enter_encoding F" "filter_req F = Some r" "local_trailers F = None"
      "fstate (side True F) = WaitingHeader" "isBufferDataEmpty E (side True F)"
      "\<not> seen_trailers (side True F)"
    and w: "creqs (cside w) r = Some cq" "serves w r rq q f"
      "\<And>hp e. EncodeHeaders (http_filter P f) hp e = go_return Continue"
    and calm: "\<And>enc. react H (ContinueCall enc) = go_return ()"
  shows "\<exists>w2 F2. run_closure E (with_plugin C P H) i (PostContinue st) (at i (reply_waits E h e F) w) =
      (Ok (), w2) \<and> envoy_calls (cside w2) = envoy_calls (cside w) @ [ContinueCall True] \<and>
    filters (cside w2) i = Some F2 \<and> enter_encoding F2 \<and> \<not> local_reply_waiting_go F2 \<and>
    fstate (side True F2) = (if e then Done else WaitingData)"
proof -
  let ?H = "with_plugin C P H" and ?K = "reply_turn E h e F"
  let ?G = "?K\<lparr>headers_ptr := Some h\<rparr>"
  let ?w1 = "at i ?G (with_phase r cq EncodeHeaderPhase w)"
  let ?n = "hm_size E (hm_heap (cside w) h)" and ?b = "hm_byteSize E (hm_heap (cside w) h)"
  let ?p = "(side True ?G)\<lparr>fstate := (if e then Done else WaitingData)\<rparr>"
  let ?F2 = "set_side True ?p ?G"
  have go: "creqs (cside ?w1) r = Some (cq\<lparr>phase := EncodeHeaderPhase\<rparr>)"
      "phase (cq\<lparr>phase := EncodeHeaderPhase\<rparr>) = EncodeHeaderPhase" "serves ?w1 r rq q f"
    using w by simp_all
  obtain w2 where w2: "moeOnHttpHeader C P r (flag e) ?n ?b ?w1 = (Ok (status_to_u64 Continue), w2)"
      "cside w2 = cside ?w1"
    using header_continues [OF go w(3), of C "flag e" ?n ?b] by blast
  let ?w3 = "(at i ?F2 w2)\<lparr>cside := (cside (at i ?F2 w2))
      \<lparr>envoy_calls := envoy_calls (cside w) @ [ContinueCall True]\<rparr>\<rparr>"
  have at2: "w2 = at i ?G w2" by (rule at_self [symmetric]) (simp add: w2(2))
  have "isBufferDataEmpty E ((side True F)\<lparr>end_stream := e\<rparr>)"
    using F(6) by (simp add: isBufferDataEmpty_def)
  then have turn: "continueEncodeLocalReply E ?H i False (at i (reply_waits E h e F) w) =
      go_bind (doHeadersGo E ?H i True h e) (continue_state E ?H i True) (at i ?K w)"
    using F by (simp add: continueEncodeLocalReply_def processHeader_def reply_turn_def Let_def
        side_cases [symmetric])
  have "side_phase True ?K = header_phase True"
    by (simp add: side_phase_def header_phase_def EncodingProcessorState_phase_def side_cases [symmetric])
  then have phase: "side_phase True ?K = EncodeHeaderPhase" by (simp add: header_phase_def)
  have lib: "lib_moeOnHttpHeader ?H r (flag e) ?n ?b ?w1 = (Ok (status_to_u64 Continue), w2)"
    using w2(1) by (simp add: with_plugin_def)
  have head: "doHeadersGo E ?H i True h e (at i ?K w) =
      (Ok (golangStatus (c_int (status_to_u64 Continue))), w2)"
    using F(3) w(1) lib unfolding doHeadersGo_def
    by (simp add: make_req_at set_phase_at phase)
  have "handleGolangStatus E GContinue (side True ?G) = (Ok True, ?p)"
    by (simp add: handleGolangStatus_def isProcessingInGo_def handleHeader_apply)
  moreover have "react ?H (ContinueCall True) = go_return ()"
    using calm by (simp add: with_plugin_def)
  ultimately have "continue_state E ?H i True GContinue (at i ?G w2) = (Ok (), ?w3)"
    using F(6,7) w2(2)
    by (simp add: continue_state_def continueProcessing_def call_envoy_def isStreamEnd_def
        get_filter_def isBufferDataEmpty_def split: option.split)
  then have "continueEncodeLocalReply E ?H i False (at i (reply_waits E h e F) w) = (Ok (), ?w3)"
    unfolding turn go_bind_Ok [of "doHeadersGo E ?H i True h e" _ _ w2, OF head] golangStatus_of_status
    using at2 by simp
  then have "run_closure E ?H i (PostContinue st) (at i (reply_waits E h e F) w) = (Ok (), ?w3)"
    using F(1,2) by (simp add: run_closure_def live_filter_def continueStatusInternal_def)
  then show ?thesis by (intro exI [of _ "?w3"] exI [of _ ?F2]) simp
qed

end
