(* ===== verification/Stream_End.thy ===== *)
theory Stream_End
  imports Stream_Runs
begin

text \<open>
  What \<^verbatim>\<open>golang_filter.cc\<close> does at the edges of a stream besides \<^verbatim>\<open>onDestroy\<close>: the notice of a local
  reply, the callbacks that it lets pass, and the end of the stream, where it writes the time it took
  into the stream's metadata. The
  three times are fields of the filter that nothing ever writes, so they are a record of their own
  here. \<open>number\<close> gives the bytes of a protobuf number.
\<close>

subsection \<open>Local replies\<close>

text \<open>\<open>thread_safe\<close> says that the callback is on the worker's thread; the result is Envoy's \<^verbatim>\<open>Continue\<close>.\<close>

definition onLocalReply :: "bool \<Rightarrow> (('h, 'b, 'cfg, 'u) world, bool) go" where
  "onLocalReply thread_safe = go_then (c_assert (\<lambda>w. thread_safe)) (go_return True)"

subsection \<open>Callbacks that do nothing\<close>

definition encode1xxHeaders :: "nat \<Rightarrow> (('h, 'b, 'cfg, 'u) world, bool) go" where
  "encode1xxHeaders hdrs = go_return True"

definition encodeMetadata :: "(('h, 'b, 'cfg, 'u) world, bool) go" where
  "encodeMetadata = go_return True"

definition access_log :: "(('h, 'b, 'cfg, 'u) world, unit) go" where
  "access_log = go_return ()"

subsection \<open>The end of the stream\<close>

record cost_times =
  cost_time_decode :: u64
  cost_time_encode :: u64
  cost_time_mem :: u64

definition cost_times_new :: cost_times where
  "cost_times_new = \<lparr>cost_time_decode = 0, cost_time_encode = 0, cost_time_mem = 0\<rparr>"

definition addGolangMetadata ::
    "('h, 'b) envoy \<Rightarrow> (u64 \<Rightarrow> string) \<Rightarrow> nat \<Rightarrow> string \<Rightarrow> u64 \<Rightarrow> (('h, 'b, 'cfg, 'u) world, unit) go" where
  "addGolangMetadata E number i k v =
     go_modify (\<lambda>w. w\<lparr>cside := (cside w)\<lparr>dyn_meta := (dyn_meta (cside w))(i :=
       (dyn_meta (cside w) i)(''golang.extension'' \<mapsto>
         meta_set E (dyn_meta (cside w) i ''golang.extension'') k (number v)))\<rparr>\<rparr>)"

definition onStreamComplete ::
    "('h, 'b) envoy \<Rightarrow> (u64 \<Rightarrow> string) \<Rightarrow> cost_times \<Rightarrow> nat \<Rightarrow> (('h, 'b, 'cfg, 'u) world, unit) go" where
  "onStreamComplete E number t i =
     go_then (addGolangMetadata E number i ''cost_decode'' (cost_time_decode t))
    (go_then (addGolangMetadata E number i ''cost_encode'' (cost_time_encode t))
      (addGolangMetadata E number i ''cost_total''
        (cost_time_decode t + cost_time_encode t + cost_time_mem t)))"

text \<open>
  Every stream reports that it took no time at all; metadata under other names, and of other streams,
  stay as they were, and so does everything else.
\<close>

definition no_costs ::
    "('h, 'b) envoy \<Rightarrow> (u64 \<Rightarrow> string) \<Rightarrow> nat \<Rightarrow> ('h, 'b, 'cfg, 'u) world \<Rightarrow>
     ('h, 'b, 'cfg, 'u) world" where
  "no_costs E number i w = w\<lparr>cside := (cside w)\<lparr>dyn_meta := (dyn_meta (cside w))(i :=
     (dyn_meta (cside w) i)(''golang.extension'' \<mapsto>
       fold (\<lambda>k m. meta_set E (Some m) k (number 0)) [''cost_encode'', ''cost_total'']
         (meta_set E (dyn_meta (cside w) i ''golang.extension'') ''cost_decode'' (number 0))))\<rparr>\<rparr>"

lemma costs_are_zero: "onStreamComplete E number cost_times_new i w = (Ok (), no_costs E number i w)"
  by (simp add: onStreamComplete_def addGolangMetadata_def cost_times_new_def no_costs_def)

lemma no_costs_at [simp]: "no_costs E number i (at j F w) = at j F (no_costs E number i w)"
  by (simp add: no_costs_def at_def put_filter_def)

lemma onLocalReply_continues: "onLocalReply True w = (Ok True, w)"
  by (simp add: onLocalReply_def)

end
