(* ===== verification/Plugin_Config.thy ===== *)
theory Plugin_Config
  imports Stream_End
begin

text \<open>
  The configuration of a stream: the classes \<^verbatim>\<open>FilterConfig\<close>, \<^verbatim>\<open>RoutePluginConfig\<close> and
  \<^verbatim>\<open>FilterConfigPerRoute\<close> of \<^verbatim>\<open>golang_filter.cc\<close>, the factories of \<^verbatim>\<open>config.cc\<close>, and
  \<^verbatim>\<open>Filter::getMergedConfigId\<close>, which calls Go's functions of \<^verbatim>\<open>config.go\<close> through the library the
  filter was published with. \<open>serialize\<close> is \<^verbatim>\<open>SerializeToString\<close> of a message (\<open>None\<close> when it fails),
  \<open>alloc\<close> the address \<^verbatim>\<open>new\<close> returns.
\<close>

subsection \<open>Construction\<close>

definition FilterConfig_new :: "string \<Rightarrow> string \<Rightarrow> Any \<Rightarrow> FilterConfig" where
  "FilterConfig_new name so conf = \<lparr>filter_chain = [], plugin_name = name, so_id = so,
     plugin_config = conf, config_id = 0\<rparr>"

definition RoutePluginConfig_new :: "Any \<Rightarrow> RoutePluginConfig" where
  "RoutePluginConfig_new conf =
     \<lparr>route_plugin_config = conf, route_config_id = 0, merged_config_id = 0\<rparr>"

text \<open>\<^verbatim>\<open>insert\<close> leaves an entry that is there. The list is the map of the message, in its order.\<close>

fun add_plugins ::
    "(('h, 'b) cstate \<Rightarrow> nat) \<Rightarrow> (string \<times> Any) list \<Rightarrow> (string \<times> nat) list \<Rightarrow>
     (('h, 'b) cstate, (string \<times> nat) list) go" where
  "add_plugins alloc [] m = go_return m"
| "add_plugins alloc ((name, conf) # ps) m = go_bind (go_gets alloc) (\<lambda>a.
     go_then (go_modify (\<lambda>c. c\<lparr>routePlugins := (routePlugins c)(a \<mapsto> RoutePluginConfig_new conf)\<rparr>))
       (add_plugins alloc ps (if map_of m name = None then map_put name a m else m)))"

definition FilterConfigPerRoute_new ::
    "(('h, 'b) cstate \<Rightarrow> nat) \<Rightarrow> (string \<times> Any) list \<Rightarrow> (('h, 'b) cstate, FilterConfigPerRoute) go" where
  "FilterConfigPerRoute_new alloc confs =
     go_bind (add_plugins alloc confs []) (\<lambda>m. go_return \<lparr>plugins_config = m\<rparr>)"

text \<open>
  \<^verbatim>\<open>createFilterFactoryFromProtoTyped\<close> makes the shared configuration; its result, called for every
  stream, makes the filter with the library that is published at that time.
\<close>

definition createFilterFactory ::
    "(('h, 'b) cstate \<Rightarrow> nat) \<Rightarrow> string \<Rightarrow> string \<Rightarrow> Any \<Rightarrow> (('h, 'b) cstate, nat) go" where
  "createFilterFactory alloc name so conf = go_bind (go_gets alloc) (\<lambda>a.
     go_then (go_modify (\<lambda>c. c\<lparr>filterConfigs := (filterConfigs c)(a \<mapsto> FilterConfig_new name so conf)\<rparr>))
       (go_return a))"

definition FilterFactoryCb :: "nat \<Rightarrow> nat \<Rightarrow> (('h, 'b) cstate, DsoInstance option) go" where
  "FilterFactoryCb p i = (\<lambda>c. case filterConfigs c p of
      None \<Rightarrow> (Fault UseAfterFree, c)
    | Some fc \<Rightarrow> (Ok (getDsoInstanceByID (so_id fc) (dsos c)), put_filter i Filter_new c))"

subsection \<open>Identifiers of configurations\<close>

definition get_config :: "nat \<Rightarrow> (('h, 'b, 'cfg, 'u) world, FilterConfig) go" where
  "get_config p = (\<lambda>w. case filterConfigs (cside w) p of
      None \<Rightarrow> (Fault UseAfterFree, w) | Some fc \<Rightarrow> (Ok fc, w))"

definition put_fc :: "nat \<Rightarrow> FilterConfig \<Rightarrow> ('h, 'b, 'cfg, 'u) world \<Rightarrow> ('h, 'b, 'cfg, 'u) world" where
  "put_fc p fc w = w\<lparr>cside := (cside w)\<lparr>filterConfigs := (filterConfigs (cside w))(p \<mapsto> fc)\<rparr>\<rparr>"

definition get_route :: "nat \<Rightarrow> (('h, 'b, 'cfg, 'u) world, RoutePluginConfig) go" where
  "get_route p = (\<lambda>w. case routePlugins (cside w) p of
      None \<Rightarrow> (Fault UseAfterFree, w) | Some rc \<Rightarrow> (Ok rc, w))"

definition put_rc ::
    "nat \<Rightarrow> RoutePluginConfig \<Rightarrow> ('h, 'b, 'cfg, 'u) world \<Rightarrow> ('h, 'b, 'cfg, 'u) world" where
  "put_rc p rc w = w\<lparr>cside := (cside w)\<lparr>routePlugins := (routePlugins (cside w))(p \<mapsto> rc)\<rparr>\<rparr>"

definition find_dso :: "string \<Rightarrow> (('h, 'b, 'cfg, 'u) world, DsoInstance option) go" where
  "find_dso so = go_gets (\<lambda>w. getDsoInstanceByID so (dsos (cside w)))"

definition FilterConfig_getConfigId ::
    "(Any \<Rightarrow> string option) \<Rightarrow> ('h, 'b, 'cfg, 'u) world so_code \<Rightarrow> nat \<Rightarrow>
     (('h, 'b, 'cfg, 'u) world, u64) go" where
  "FilterConfig_getConfigId serialize K p = go_bind (get_config p) (\<lambda>fc.
     if config_id fc \<noteq> 0 then go_return (config_id fc)
     else go_bind (find_dso (so_id fc)) (\<lambda>dlib. case dlib of
         None \<Rightarrow> go_return 0
       | Some d \<Rightarrow> (case serialize (plugin_config fc) of
             None \<Rightarrow> go_return 0
           | Some str \<Rightarrow> go_bind (DsoInstance_moeNewHttpPluginConfig K d str) (\<lambda>n.
               go_then (go_modify (put_fc p (fc\<lparr>config_id := n\<rparr>))) (go_return n)))))"

text \<open>
  The part of \<open>getMergedConfigId\<close> that makes sure that the plugin knows the configuration of the
  route: \<open>Inl\<close> is an early return.
\<close>

definition route_own_id ::
    "(Any \<Rightarrow> string option) \<Rightarrow> ('h, 'b, 'cfg, 'u) world so_code \<Rightarrow> nat \<Rightarrow> u64 \<Rightarrow> DsoInstance \<Rightarrow>
     (('h, 'b, 'cfg, 'u) world, u64 + u64) go" where
  "route_own_id serialize K p parent_id d = go_bind (get_route p) (\<lambda>rc.
     if route_config_id rc \<noteq> 0 then go_return (Inr (route_config_id rc))
     else (case serialize (route_plugin_config rc) of
         None \<Rightarrow> go_return (Inl 0)
       | Some str \<Rightarrow> go_bind (DsoInstance_moeNewHttpPluginConfig K d str) (\<lambda>n.
           go_then (go_modify (put_rc p (rc\<lparr>route_config_id := n\<rparr>)))
             (go_return (if n = 0 then Inl parent_id else Inr n)))))"

definition RoutePluginConfig_getMergedConfigId ::
    "(Any \<Rightarrow> string option) \<Rightarrow> ('h, 'b, 'cfg, 'u) world so_code \<Rightarrow> nat \<Rightarrow> u64 \<Rightarrow> string \<Rightarrow>
     (('h, 'b, 'cfg, 'u) world, u64) go" where
  "RoutePluginConfig_getMergedConfigId serialize K p parent_id so = go_bind (get_route p) (\<lambda>rc.
     if merged_config_id rc > 0 then go_return (merged_config_id rc)
     else go_bind (find_dso so) (\<lambda>dlib. case dlib of
         None \<Rightarrow> go_return 0
       | Some d \<Rightarrow> go_bind (route_own_id serialize K p parent_id d) (\<lambda>x. case x of
             Inl r \<Rightarrow> go_return r
           | Inr n \<Rightarrow> go_bind (DsoInstance_moeMergeHttpPluginConfig K d parent_id n) (\<lambda>m.
               go_bind (get_route p) (\<lambda>rc.
               go_then (go_modify (put_rc p (rc\<lparr>merged_config_id := m\<rparr>))) (go_return m))))))"

definition FilterConfigPerRoute_getPluginConfigId ::
    "(Any \<Rightarrow> string option) \<Rightarrow> ('h, 'b, 'cfg, 'u) world so_code \<Rightarrow> FilterConfigPerRoute \<Rightarrow> u64 \<Rightarrow>
     string \<Rightarrow> string \<Rightarrow> (('h, 'b, 'cfg, 'u) world, u64) go" where
  "FilterConfigPerRoute_getPluginConfigId serialize K rc parent_id name so =
     (case map_of (plugins_config rc) name of
        Some p \<Rightarrow> RoutePluginConfig_getMergedConfigId serialize K p parent_id so
      | None \<Rightarrow> go_return parent_id)"

text \<open>
  The route configurations Envoy walks through, from the least to the most specific; one that is not of
  this filter comes out of the \<^verbatim>\<open>dynamic_cast\<close> as a null pointer.
\<close>

fun merge_routes ::
    "(Any \<Rightarrow> string option) \<Rightarrow> ('h, 'b, 'cfg, 'u) world so_code \<Rightarrow> string \<Rightarrow> string \<Rightarrow>
     FilterConfigPerRoute option list \<Rightarrow> u64 \<Rightarrow> (('h, 'b, 'cfg, 'u) world, u64) go" where
  "merge_routes serialize K name so [] n = go_return n"
| "merge_routes serialize K name so (r # rs) n = (case r of
      None \<Rightarrow> go_fault NullPointer
    | Some route_config \<Rightarrow>
        go_bind (FilterConfigPerRoute_getPluginConfigId serialize K route_config n name so)
          (merge_routes serialize K name so rs))"

definition Filter_getMergedConfigId ::
    "(Any \<Rightarrow> string option) \<Rightarrow> ('h, 'b, 'cfg, 'u) world so_code \<Rightarrow> nat \<Rightarrow>
     FilterConfigPerRoute option list \<Rightarrow> (('h, 'b, 'cfg, 'u) world, u64) go" where
  "Filter_getMergedConfigId serialize K p route_config_list =
     go_bind (FilterConfig_getConfigId serialize K p) (\<lambda>n.
     go_bind (get_config p) (\<lambda>fc.
       merge_routes serialize K (plugin_name fc) (so_id fc) route_config_list n))"

subsection \<open>The library of a filter\<close>

text \<open>What \<^verbatim>\<open>dynamicLib_\<close> points to is what the filter calls, and where its configuration comes from.\<close>

definition with_library ::
    "('h, 'b, 'cfg, 'u) world so_code \<Rightarrow> DsoInstance option \<Rightarrow> ('h, 'b, 'cfg, 'u) stream_host \<Rightarrow>
     ('h, 'b, 'cfg, 'u) stream_host" where
  "with_library K dlib H = (case dlib of
      None \<Rightarrow> H\<lparr>has_dynamicLib := False\<rparr>
    | Some d \<Rightarrow> H\<lparr>has_dynamicLib := True, lib_moeOnHttpHeader := DsoInstance_moeOnHttpHeader K d,
        lib_moeOnHttpData := DsoInstance_moeOnHttpData K d,
        lib_moeOnHttpDestroy := DsoInstance_moeOnHttpDestroy K d\<rparr>)"

definition with_config ::
    "(Any \<Rightarrow> string option) \<Rightarrow> ('h, 'b, 'cfg, 'u) world so_code \<Rightarrow> (nat \<Rightarrow> nat) \<Rightarrow>
     (nat \<Rightarrow> bool \<Rightarrow> FilterConfigPerRoute option list) \<Rightarrow> ('h, 'b, 'cfg, 'u) stream_host \<Rightarrow>
     ('h, 'b, 'cfg, 'u) stream_host" where
  "with_config serialize K config routes H =
     H\<lparr>mergedConfigId := \<lambda>i enc. Filter_getMergedConfigId serialize K (config i) (routes i enc)\<rparr>"

text \<open>The code at the addresses of an instance is that of the Go library.\<close>

definition exports ::
    "('h, 'b, 'cfg, 'u) world so_code \<Rightarrow> DsoInstance \<Rightarrow> ('h, 'b, 'cfg, 'u) world HttpCAPI \<Rightarrow>
     (('h, 'b, 'cfg, 'u) world, 'cfg) plugin \<Rightarrow> (string \<Rightarrow> 'cfg) \<Rightarrow> bool" where
  "exports K d C P unmarshal \<longleftrightarrow>
     (\<forall>p. moeNewHttpPluginConfig_ptr d = Some p \<longrightarrow>
        code_moeNewHttpPluginConfig K p = moeNewHttpPluginConfig P unmarshal) \<and>
     (\<forall>p. moeMergeHttpPluginConfig_ptr d = Some p \<longrightarrow>
        code_moeMergeHttpPluginConfig K p = moeMergeHttpPluginConfig P) \<and>
     (\<forall>p. moeOnHttpHeader_ptr d = Some p \<longrightarrow> code_moeOnHttpHeader K p = moeOnHttpHeader C P) \<and>
     (\<forall>p. moeOnHttpData_ptr d = Some p \<longrightarrow> code_moeOnHttpData K p = moeOnHttpData C P) \<and>
     (\<forall>p. moeOnHttpSemaCallback_ptr d = Some p \<longrightarrow>
        code_moeOnHttpSemaCallback K p = moeOnHttpSemaCallback C) \<and>
     (\<forall>p. moeOnHttpDestroy_ptr d = Some p \<longrightarrow> code_moeOnHttpDestroy K p = moeOnHttpDestroy C P)"

lemma exports_with_library:
  assumes "exports K d C P unmarshal" "linked L d" "resolves L (dsoName d)"
  shows "with_library K (Some d) H = with_plugin C P H"
    and "DsoInstance_moeNewHttpPluginConfig K d = moeNewHttpPluginConfig P unmarshal"
    and "DsoInstance_moeMergeHttpPluginConfig K d = moeMergeHttpPluginConfig P"
    and "DsoInstance_moeOnHttpSemaCallback K d = moeOnHttpSemaCallback C"
proof -
  obtain h where "dlopen L (dsoName d) = Some h" using assms(2) by (auto simp: linked_def)
  then obtain p1 p2 p3 p4 p5 p6 where
    "moeNewHttpPluginConfig_ptr d = Some p1" "moeMergeHttpPluginConfig_ptr d = Some p2"
    "moeOnHttpHeader_ptr d = Some p3" "moeOnHttpData_ptr d = Some p4"
    "moeOnHttpSemaCallback_ptr d = Some p5" "moeOnHttpDestroy_ptr d = Some p6"
    using assms(2,3) by (auto simp: linked_def resolves_def)
  with assms(1) show "with_library K (Some d) H = with_plugin C P H"
    "DsoInstance_moeNewHttpPluginConfig K d = moeNewHttpPluginConfig P unmarshal"
    "DsoInstance_moeMergeHttpPluginConfig K d = moeMergeHttpPluginConfig P"
    "DsoInstance_moeOnHttpSemaCallback K d = moeOnHttpSemaCallback C"
    by (simp_all add: with_library_def with_plugin_def exports_def fun_eq_iff call_symbol_def
        DsoInstance_moeNewHttpPluginConfig_def DsoInstance_moeMergeHttpPluginConfig_def
        DsoInstance_moeOnHttpHeader_def DsoInstance_moeOnHttpData_def
        DsoInstance_moeOnHttpSemaCallback_def DsoInstance_moeOnHttpDestroy_def)
qed

subsection \<open>The configuration a stream should get\<close>

text \<open>
  A plugin whose \<open>Merge\<close> neither panics nor touches the state; without a parser the child replaces
  its parent.
\<close>

definition merges_purely :: "('w, 'cfg) plugin \<Rightarrow> ('cfg \<Rightarrow> 'cfg \<Rightarrow> 'cfg) \<Rightarrow> bool" where
  "merges_purely P merge \<longleftrightarrow> (case httpFilterConfigParser P of
      None \<Rightarrow> merge = (\<lambda>a b. b)
    | Some parser \<Rightarrow> (\<forall>a b w. Merge parser (Some a) (Some b) w = (Ok (Some (merge a b)), w)))"

text \<open>What a message means to the plugin.\<close>

definition meaning ::
    "(Any \<Rightarrow> string option) \<Rightarrow> (string \<Rightarrow> 'cfg) \<Rightarrow> ('cfg \<Rightarrow> 'cfg) \<Rightarrow> Any \<Rightarrow> 'cfg" where
  "meaning serialize unmarshal parse conf = parse (unmarshal (the (serialize conf)))"

text \<open>The addresses of the configurations of one plugin in a list of route configurations.\<close>

fun route_ptrs :: "string \<Rightarrow> FilterConfigPerRoute option list \<Rightarrow> nat list" where
  "route_ptrs name [] = []"
| "route_ptrs name (None # rs) = route_ptrs name rs"
| "route_ptrs name (Some r # rs) = (case map_of (plugins_config r) name of
      None \<Rightarrow> route_ptrs name rs | Some p \<Rightarrow> p # route_ptrs name rs)"

text \<open>The messages at these addresses, merged one after the other; \<open>v\<close> is their meaning.\<close>

definition route_value ::
    "(Any \<Rightarrow> 'cfg) \<Rightarrow> (nat \<Rightarrow> RoutePluginConfig option) \<Rightarrow> nat \<Rightarrow> 'cfg" where
  "route_value v R p = v (route_plugin_config (the (R p)))"

definition effective_config ::
    "(Any \<Rightarrow> 'cfg) \<Rightarrow> ('cfg \<Rightarrow> 'cfg \<Rightarrow> 'cfg) \<Rightarrow> (nat \<Rightarrow> RoutePluginConfig option) \<Rightarrow> nat list \<Rightarrow>
     'cfg \<Rightarrow> 'cfg" where
  "effective_config v merge R ps c = foldl (\<lambda>c p. merge c (route_value v R p)) c ps"

text \<open>\<open>par p\<close> is the configuration that the one at \<open>p\<close> is always merged into.\<close>

fun parents_are ::
    "(Any \<Rightarrow> 'cfg) \<Rightarrow> ('cfg \<Rightarrow> 'cfg \<Rightarrow> 'cfg) \<Rightarrow> (nat \<Rightarrow> RoutePluginConfig option) \<Rightarrow> (nat \<Rightarrow> 'cfg) \<Rightarrow>
     nat list \<Rightarrow> 'cfg \<Rightarrow> bool" where
  "parents_are v merge R par [] c = True"
| "parents_are v merge R par (p # ps) c \<longleftrightarrow>
     par p = c \<and> parents_are v merge R par ps (merge c (route_value v R p))"

subsection \<open>What the caches hold\<close>

definition ids_used :: "('h, 'b, 'cfg, 'u) world \<Rightarrow> bool" where
  "ids_used w \<longleftrightarrow> (\<forall>n. configCache w n \<noteq> None \<longrightarrow> n \<noteq> 0 \<and> n \<le> configNumGenerator w)"

text \<open>Both caches of identifiers point to what they should, in the cache of the plugin.\<close>

definition configs_ok ::
    "(Any \<Rightarrow> 'cfg) \<Rightarrow> ('cfg \<Rightarrow> 'cfg \<Rightarrow> 'cfg) \<Rightarrow> (nat \<Rightarrow> 'cfg) \<Rightarrow> ('h, 'b, 'cfg, 'u) world \<Rightarrow> bool" where
  "configs_ok v merge par w \<longleftrightarrow> ids_used w \<and>
     (\<forall>p fc. filterConfigs (cside w) p = Some fc \<and> config_id fc \<noteq> 0 \<longrightarrow>
        configCache w (config_id fc) = Some (v (plugin_config fc))) \<and>
     (\<forall>p rc. routePlugins (cside w) p = Some rc \<longrightarrow>
        (route_config_id rc \<noteq> 0 \<longrightarrow>
           configCache w (route_config_id rc) = Some (v (route_plugin_config rc))) \<and>
        (merged_config_id rc \<noteq> 0 \<longrightarrow> configCache w (merged_config_id rc) =
           Some (merge (par p) (v (route_plugin_config rc)))))"

text \<open>\<open>w'\<close> is \<open>w\<close> after Go has given out at most \<open>k\<close> identifiers.\<close>

definition grows :: "nat \<Rightarrow> ('h, 'b, 'cfg, 'u) world \<Rightarrow> ('h, 'b, 'cfg, 'u) world \<Rightarrow> bool" where
  "grows k w w' \<longleftrightarrow> ids_used w' \<and> (\<forall>n c. configCache w n = Some c \<longrightarrow> configCache w' n = Some c) \<and>
     unat (configNumGenerator w') \<le> unat (configNumGenerator w) + k"

lemma grows_refl: "ids_used w \<Longrightarrow> grows k w w"
  by (simp add: grows_def)

lemma grows_trans: "grows j w w' \<Longrightarrow> grows k w' w'' \<Longrightarrow> grows (j + k) w w''"
  by (auto simp: grows_def)

lemma grows_mono: "grows j w w' \<Longrightarrow> j \<le> k \<Longrightarrow> grows k w w'"
  by (auto simp: grows_def)

lemma put_config_grows:
  assumes "ids_used w" "unat (configNumGenerator w) + 1 < 2 ^ 64"
  shows "grows 1 w (put_config (configNumGenerator w + 1) c
    (w\<lparr>configNumGenerator := configNumGenerator w + 1\<rparr>))" (is "grows 1 w ?w")
    and "configNumGenerator w + 1 \<noteq> 0"
proof -
  let ?g = "configNumGenerator w"
  have suc: "unat (?g + 1) = unat ?g + 1"
    using assms(2) by (simp add: unat_word_ariths)
  then show "?g + 1 \<noteq> 0" by (metis add_is_0 one_neq_zero unat_0)
  have lt: "\<And>n. n \<le> ?g \<Longrightarrow> n \<noteq> ?g + 1 \<and> n \<le> ?g + 1"
    using suc by (auto simp: word_le_nat_alt)
  show "grows 1 w ?w"
    using assms(1) lt \<open>?g + 1 \<noteq> 0\<close> suc
    by (auto simp: grows_def ids_used_def put_config_def)
qed

lemma new_config:
  assumes "parses_purely P parse" "ids_used w" "unat (configNumGenerator w) + 1 < 2 ^ 64"
  obtains n w' where "moeNewHttpPluginConfig P unmarshal buf w = (Ok n, w')" "n \<noteq> 0"
    "configCache w' n = Some (parse (unmarshal buf))" "grows 1 w w'" "cside w' = cside w"
proof -
  let ?w = "put_config (configNumGenerator w + 1) (parse (unmarshal buf))
      (w\<lparr>configNumGenerator := configNumGenerator w + 1\<rparr>)"
  show thesis
    by (rule that [of "configNumGenerator w + 1" ?w])
      (use put_config_grows [OF assms(2,3)] in
        \<open>simp_all add: moeNewHttpPluginConfig_pure [OF assms(1)] put_config_def\<close>)
qed

lemma merge_configs:
  assumes "merges_purely P merge" "ids_used w" "unat (configNumGenerator w) + 1 < 2 ^ 64"
    and "configCache w a = Some x" "configCache w b = Some y"
  obtains n w' where "moeMergeHttpPluginConfig P a b w = (Ok n, w')" "n \<noteq> 0"
    "configCache w' n = Some (merge x y)" "grows 1 w w'" "cside w' = cside w"
proof (cases "httpFilterConfigParser P")
  case None
  show thesis
    by (rule that [of b w])
      (use assms None in \<open>auto simp: moeMergeHttpPluginConfig_def merges_purely_def ids_used_def
        intro: grows_refl\<close>)
next
  case (Some parser)
  let ?w = "put_config (configNumGenerator w + 1) (merge x y)
      (w\<lparr>configNumGenerator := configNumGenerator w + 1\<rparr>)"
  have "Merge parser (configCache w a) (configCache w b) w = (Ok (Some (merge x y)), w)"
    using assms Some by (simp add: merges_purely_def)
  then show thesis
    by (intro that [of "configNumGenerator w + 1" ?w])
      (use put_config_grows [OF assms(2,3)] in
        \<open>simp_all add: moeMergeHttpPluginConfig_parser [OF Some] put_config_def\<close>)
qed

subsection \<open>One route configuration\<close>

lemma put_simps [simp]:
  "configCache (put_rc p rc w) = configCache w" "configCache (put_fc p fc w) = configCache w"
  "configNumGenerator (put_rc p rc w) = configNumGenerator w"
  "configNumGenerator (put_fc p fc w) = configNumGenerator w"
  "routePlugins (cside (put_rc p rc w)) = (routePlugins (cside w))(p \<mapsto> rc)"
  "filterConfigs (cside (put_rc p rc w)) = filterConfigs (cside w)"
  "filterConfigs (cside (put_fc p fc w)) = (filterConfigs (cside w))(p \<mapsto> fc)"
  "routePlugins (cside (put_fc p fc w)) = routePlugins (cside w)"
  "dsos (cside (put_rc p rc w)) = dsos (cside w)" "dsos (cside (put_fc p fc w)) = dsos (cside w)"
  "ids_used (put_rc p rc w) = ids_used w" "ids_used (put_fc p fc w) = ids_used w"
  "grows k w' (put_rc p rc w) = grows k w' w" "grows k w' (put_fc p fc w) = grows k w' w"
  by (simp_all add: put_rc_def put_fc_def ids_used_def grows_def)

lemma configs_ok_grows:
  "configs_ok v merge par w \<Longrightarrow> grows k w w' \<Longrightarrow> cside w' = cside w \<Longrightarrow> configs_ok v merge par w'"
  by (auto simp: configs_ok_def grows_def)

lemma configs_ok_put_rc:
  assumes "configs_ok v merge par w"
    and "route_config_id rc \<noteq> 0 \<Longrightarrow>
      configCache w (route_config_id rc) = Some (v (route_plugin_config rc))"
    and "merged_config_id rc \<noteq> 0 \<Longrightarrow>
      configCache w (merged_config_id rc) = Some (merge (par p) (v (route_plugin_config rc)))"
  shows "configs_ok v merge par (put_rc p rc w)"
  using assms by (auto simp: configs_ok_def)

text \<open>What the calls leave of the C++ objects: the messages, and the identifiers once they are set.\<close>

definition rc_step :: "RoutePluginConfig \<Rightarrow> RoutePluginConfig \<Rightarrow> bool" where
  "rc_step rc rc' \<longleftrightarrow> route_plugin_config rc' = route_plugin_config rc \<and>
     (merged_config_id rc \<noteq> 0 \<longrightarrow> merged_config_id rc' = merged_config_id rc)"

definition fc_step :: "FilterConfig \<Rightarrow> FilterConfig \<Rightarrow> bool" where
  "fc_step fc fc' \<longleftrightarrow> plugin_name fc' = plugin_name fc \<and> so_id fc' = so_id fc \<and>
     plugin_config fc' = plugin_config fc \<and> (config_id fc \<noteq> 0 \<longrightarrow> config_id fc' = config_id fc)"

definition same_configs :: "('h, 'b, 'cfg, 'u) world \<Rightarrow> ('h, 'b, 'cfg, 'u) world \<Rightarrow> bool" where
  "same_configs w w' \<longleftrightarrow> dsos (cside w') = dsos (cside w) \<and>
     (\<forall>p. rel_option rc_step (routePlugins (cside w) p) (routePlugins (cside w') p)) \<and>
     (\<forall>p. rel_option fc_step (filterConfigs (cside w) p) (filterConfigs (cside w') p))"

lemma step_refl [simp]: "rc_step rc rc" "fc_step fc fc"
  by (simp_all add: rc_step_def fc_step_def)

lemma rel_step_refl [simp]: "rel_option rc_step x x" "rel_option fc_step y y"
  by (cases x; simp) (cases y; simp)

lemma rel_option_trans:
  assumes "\<And>a b c. R a b \<Longrightarrow> R b c \<Longrightarrow> R a c" "rel_option R u v" "rel_option R v w"
  shows "rel_option R u w"
  using assms(2,3) by (cases u; cases v; cases w) (auto intro: assms(1))

lemma same_configs_refl: "cside w' = cside w \<Longrightarrow> same_configs w w'"
  by (simp add: same_configs_def)

lemma step_trans:
  "rc_step a b \<Longrightarrow> rc_step b c \<Longrightarrow> rc_step a c" "fc_step x y \<Longrightarrow> fc_step y z \<Longrightarrow> fc_step x z"
  by (auto simp: rc_step_def fc_step_def)

lemma same_configs_trans:
  assumes "same_configs w w'" "same_configs w' w''"
  shows "same_configs w w''"
proof -
  have "rel_option rc_step (routePlugins (cside w) p) (routePlugins (cside w'') p)" for p
    by (rule rel_option_trans [OF step_trans(1), where v = "routePlugins (cside w') p"])
      (use assms in \<open>simp_all add: same_configs_def\<close>)
  moreover have "rel_option fc_step (filterConfigs (cside w) p) (filterConfigs (cside w'') p)" for p
    by (rule rel_option_trans [OF step_trans(2), where v = "filterConfigs (cside w') p"])
      (use assms in \<open>simp_all add: same_configs_def\<close>)
  ultimately show ?thesis using assms by (simp add: same_configs_def)
qed

lemma same_configs_put:
  assumes "same_configs w w'"
  shows "routePlugins (cside w') p = Some rc \<Longrightarrow> rc_step rc rc' \<Longrightarrow> same_configs w (put_rc p rc' w')"
    and "filterConfigs (cside w') p = Some fc \<Longrightarrow> fc_step fc fc' \<Longrightarrow> same_configs w (put_fc p fc' w')"
  by (rule same_configs_trans [OF assms]; simp add: same_configs_def)+

lemma same_configsD:
  assumes "same_configs w w'"
  shows same_dsos: "dsos (cside w') = dsos (cside w)"
    and same_route: "routePlugins (cside w) p = Some rc \<Longrightarrow>
      \<exists>rc'. routePlugins (cside w') p = Some rc' \<and> rc_step rc rc'"
    and same_filter: "filterConfigs (cside w) p = Some fc \<Longrightarrow>
      \<exists>fc'. filterConfigs (cside w') p = Some fc' \<and> fc_step fc fc'"
proof -
  have "rel_option rc_step (routePlugins (cside w) p) (routePlugins (cside w') p)"
    "rel_option fc_step (filterConfigs (cside w) p) (filterConfigs (cside w') p)"
    using assms by (simp_all add: same_configs_def)
  then show "dsos (cside w') = dsos (cside w)"
    "routePlugins (cside w) p = Some rc \<Longrightarrow> \<exists>rc'. routePlugins (cside w') p = Some rc' \<and> rc_step rc rc'"
    "filterConfigs (cside w) p = Some fc \<Longrightarrow> \<exists>fc'. filterConfigs (cside w') p = Some fc' \<and> fc_step fc fc'"
    using assms by (auto simp: same_configs_def elim: option.rel_cases)
qed

lemma same_route_value:
  assumes "same_configs w w'" "routePlugins (cside w) p \<noteq> None"
  shows "route_value v (routePlugins (cside w')) p = route_value v (routePlugins (cside w)) p"
  using same_configsD(2) [OF assms(1), of p] assms(2) by (auto simp: route_value_def rc_step_def)

text \<open>\<open>w'\<close> is \<open>w\<close> after calls of the configuration code, which touch nothing else on the C++ side.\<close>

definition evolves :: "('h, 'b, 'cfg, 'u) world \<Rightarrow> ('h, 'b, 'cfg, 'u) world \<Rightarrow> bool" where
  "evolves w w' \<longleftrightarrow> same_configs w w' \<and> hm_heap (cside w') = hm_heap (cside w) \<and>
     filters (cside w') = filters (cside w) \<and> creqs (cside w') = creqs (cside w) \<and>
     posted (cside w') = posted (cside w) \<and> envoy_calls (cside w') = envoy_calls (cside w)"

lemma evolves_refl: "cside w' = cside w \<Longrightarrow> evolves w w'"
  by (simp add: evolves_def same_configs_refl)

lemma evolves_trans: "evolves w w' \<Longrightarrow> evolves w' w'' \<Longrightarrow> evolves w w''"
  using same_configs_trans [of w w' w''] by (simp add: evolves_def)

lemma evolves_put:
  assumes "evolves w w'"
  shows "routePlugins (cside w') p = Some rc \<Longrightarrow> rc_step rc rc' \<Longrightarrow> evolves w (put_rc p rc' w')"
    and "filterConfigs (cside w') p = Some fc \<Longrightarrow> fc_step fc fc' \<Longrightarrow> evolves w (put_fc p fc' w')"
  using same_configs_put [of w w'] assms by (simp_all add: evolves_def put_rc_def put_fc_def)

lemma evolvesD:
  assumes "evolves w w'"
  shows evolves_same: "same_configs w w'"
    and "creqs (cside w') = creqs (cside w)" "filters (cside w') = filters (cside w)"
    "envoy_calls (cside w') = envoy_calls (cside w)" "posted (cside w') = posted (cside w)"
  using assms by (simp_all add: evolves_def)

text \<open>The library as the configuration code uses it.\<close>

definition config_lib ::
    "('h, 'b, 'cfg, 'u) world so_code \<Rightarrow> (('h, 'b, 'cfg, 'u) world, 'cfg) plugin \<Rightarrow> (string \<Rightarrow> 'cfg) \<Rightarrow>
     string \<Rightarrow> ('h, 'b, 'cfg, 'u) world \<Rightarrow> bool" where
  "config_lib K P unmarshal so w \<longleftrightarrow> (\<exists>d. getDsoInstanceByID so (dsos (cside w)) = Some d \<and>
     DsoInstance_moeNewHttpPluginConfig K d = moeNewHttpPluginConfig P unmarshal \<and>
     DsoInstance_moeMergeHttpPluginConfig K d = moeMergeHttpPluginConfig P)"

text \<open>A plugin that parses and merges without effects, and messages that can be serialised.\<close>

definition pure_plugin ::
    "(Any \<Rightarrow> string option) \<Rightarrow> (string \<Rightarrow> 'cfg) \<Rightarrow> ('w, 'cfg) plugin \<Rightarrow> (Any \<Rightarrow> 'cfg) \<Rightarrow>
     ('cfg \<Rightarrow> 'cfg \<Rightarrow> 'cfg) \<Rightarrow> bool" where
  "pure_plugin serialize unmarshal P v merge \<longleftrightarrow> (\<forall>conf. serialize conf \<noteq> None) \<and>
     merges_purely P merge \<and> (\<exists>parse. parses_purely P parse \<and> v = meaning serialize unmarshal parse)"

lemma pure_new_config:
  assumes "pure_plugin serialize unmarshal P v merge" "ids_used w"
    and "unat (configNumGenerator w) + 1 < 2 ^ 64"
  obtains str n w' where "serialize conf = Some str"
    "moeNewHttpPluginConfig P unmarshal str w = (Ok n, w')" "n \<noteq> 0"
    "configCache w' n = Some (v conf)" "grows 1 w w'" "cside w' = cside w"
proof -
  obtain parse where parse: "parses_purely P parse" "v = meaning serialize unmarshal parse"
    using assms(1) by (auto simp: pure_plugin_def)
  obtain str where "serialize conf = Some str" using assms(1) by (auto simp: pure_plugin_def)
  moreover obtain n w' where "moeNewHttpPluginConfig P unmarshal str w = (Ok n, w')" "n \<noteq> 0"
    "configCache w' n = Some (parse (unmarshal str))" "grows 1 w w'" "cside w' = cside w"
    by (rule new_config [OF parse(1) assms(2,3)])
  ultimately show thesis using that by (simp add: parse(2) meaning_def)
qed

text \<open>The configuration of the route itself is known to the plugin afterwards.\<close>

lemma route_own_step:
  assumes plugin: "pure_plugin serialize unmarshal P v merge"
    and d: "DsoInstance_moeNewHttpPluginConfig K d = moeNewHttpPluginConfig P unmarshal"
    and inv: "configs_ok v merge par w" and rc: "routePlugins (cside w) p = Some rc"
    and room: "unat (configNumGenerator w) + 1 < 2 ^ 64"
  obtains n w' rc' where "route_own_id serialize K p parent d w = (Ok (Inr n), w')"
    "configCache w' n = Some (v (route_plugin_config rc))" "configs_ok v merge par w'" "grows 1 w w'"
    "evolves w w'" "routePlugins (cside w') p = Some rc'"
    "route_plugin_config rc' = route_plugin_config rc" "merged_config_id rc' = merged_config_id rc"
proof (cases "route_config_id rc = 0")
  case False
  show thesis
    by (rule that [of "route_config_id rc" w rc])
      (use False inv rc in \<open>auto simp: route_own_id_def get_route_def configs_ok_def
        intro: grows_refl evolves_refl\<close>)
next
  case True
  have used: "ids_used w" using inv by (simp add: configs_ok_def)
  obtain str n w' where n: "serialize (route_plugin_config rc) = Some str"
    "moeNewHttpPluginConfig P unmarshal str w = (Ok n, w')" "n \<noteq> 0"
    "configCache w' n = Some (v (route_plugin_config rc))" "grows 1 w w'" "cside w' = cside w"
    by (rule pure_new_config [OF plugin used room, where conf = "route_plugin_config rc"])
  let ?rc = "rc\<lparr>route_config_id := n\<rparr>"
  have inv': "configs_ok v merge par w'" using configs_ok_grows [OF inv n(5,6)] .
  show thesis
  proof (rule that [of n "put_rc p ?rc w'" ?rc])
    show "route_own_id serialize K p parent d w = (Ok (Inr n), put_rc p ?rc w')"
      using True rc n by (simp add: route_own_id_def get_route_def d)
    show "configs_ok v merge par (put_rc p ?rc w')"
      by (rule configs_ok_put_rc [OF inv'])
        (use inv' rc n(4,6) in \<open>auto simp: configs_ok_def\<close>)
    show "evolves w (put_rc p ?rc w')"
      by (rule evolves_put(1) [OF evolves_refl [OF n(6)], where rc = rc])
        (use rc n(6) in \<open>simp_all add: rc_step_def\<close>)
  qed (use n rc in simp_all)
qed

lemma route_step:
  assumes plugin: "pure_plugin serialize unmarshal P v merge" and lib: "config_lib K P unmarshal so w"
    and inv: "configs_ok v merge par w" and rc: "routePlugins (cside w) p = Some rc"
    and parent: "configCache w n = Some (par p)"
    and room: "unat (configNumGenerator w) + 2 < 2 ^ 64"
  obtains m w' rc' where "RoutePluginConfig_getMergedConfigId serialize K p n so w = (Ok m, w')"
    "m \<noteq> 0" "configCache w' m = Some (merge (par p) (v (route_plugin_config rc)))"
    "configs_ok v merge par w'" "grows 2 w w'" "evolves w w'"
    "routePlugins (cside w') p = Some rc'" "merged_config_id rc' = m"
proof (cases "merged_config_id rc > 0")
  case True
  have used: "ids_used w" using inv by (simp add: configs_ok_def)
  show thesis
  proof (rule that [of "merged_config_id rc" w rc])
    show "configCache w (merged_config_id rc) = Some (merge (par p) (v (route_plugin_config rc)))"
      using inv rc True by (auto simp: configs_ok_def word_gt_0)
  qed (use True rc inv used in \<open>simp_all add: RoutePluginConfig_getMergedConfigId_def get_route_def
      grows_refl evolves_refl word_gt_0\<close>)
next
  case False
  obtain d where d: "getDsoInstanceByID so (dsos (cside w)) = Some d"
    "DsoInstance_moeNewHttpPluginConfig K d = moeNewHttpPluginConfig P unmarshal"
    "DsoInstance_moeMergeHttpPluginConfig K d = moeMergeHttpPluginConfig P"
    using lib by (auto simp: config_lib_def)
  have room1: "unat (configNumGenerator w) + 1 < 2 ^ 64" using room by simp
  obtain k w1 rc1 where own: "route_own_id serialize K p n d w = (Ok (Inr k), w1)"
    "configCache w1 k = Some (v (route_plugin_config rc))" "configs_ok v merge par w1" "grows 1 w w1"
    "evolves w w1" "routePlugins (cside w1) p = Some rc1"
    "route_plugin_config rc1 = route_plugin_config rc" "merged_config_id rc1 = merged_config_id rc"
    by (rule route_own_step [OF plugin d(2) inv rc room1, where parent = n])
  have parent1: "configCache w1 n = Some (par p)" using own(4) parent by (simp add: grows_def)
  have used1: "ids_used w1" using own(3) by (simp add: configs_ok_def)
  have room2: "unat (configNumGenerator w1) + 1 < 2 ^ 64" using own(4) room by (simp add: grows_def)
  have pure: "merges_purely P merge" using plugin by (simp add: pure_plugin_def)
  obtain m w2 where m: "moeMergeHttpPluginConfig P n k w1 = (Ok m, w2)" "m \<noteq> 0"
    "configCache w2 m = Some (merge (par p) (v (route_plugin_config rc)))" "grows 1 w1 w2"
    "cside w2 = cside w1"
    by (rule merge_configs [OF pure used1 room2 parent1 own(2)])
  let ?rc = "rc1\<lparr>merged_config_id := m\<rparr>"
  have inv2: "configs_ok v merge par w2" by (rule configs_ok_grows [OF own(3) m(4,5)])
  have zero: "merged_config_id rc = 0" using False by (simp add: word_gt_0)
  show thesis
  proof (rule that [of m "put_rc p ?rc w2" ?rc])
    show "RoutePluginConfig_getMergedConfigId serialize K p n so w = (Ok m, put_rc p ?rc w2)"
      using zero rc d own(1,6) m(1,5)
      by (simp add: RoutePluginConfig_getMergedConfigId_def get_route_def find_dso_def)
    show "configs_ok v merge par (put_rc p ?rc w2)"
      by (rule configs_ok_put_rc [OF inv2])
        (use inv2 own(6,7) m(3,5) in \<open>auto simp: configs_ok_def\<close>)
    show "grows 2 w (put_rc p ?rc w2)"
      using grows_trans [OF own(4) m(4)] by (simp add: numeral_2_eq_2)
    show "evolves w (put_rc p ?rc w2)"
      by (rule evolves_put(1) [OF evolves_trans [OF own(5) evolves_refl [OF m(5)]],
            where rc = rc1])
        (use own(6,8) zero m(5) in \<open>simp_all add: rc_step_def\<close>)
  qed (use m own in simp_all)
qed

text \<open>What is cached is returned, whatever the parent.\<close>

lemma route_cached:
  assumes "routePlugins (cside w) p = Some rc" "merged_config_id rc \<noteq> 0"
  shows "RoutePluginConfig_getMergedConfigId serialize K p n so w = (Ok (merged_config_id rc), w)"
  using assms by (simp add: RoutePluginConfig_getMergedConfigId_def get_route_def word_gt_0)

subsection \<open>All route configurations of a stream\<close>

text \<open>Every step of the loop in one list of addresses.\<close>

fun merge_ptrs ::
    "(Any \<Rightarrow> string option) \<Rightarrow> ('h, 'b, 'cfg, 'u) world so_code \<Rightarrow> string \<Rightarrow> nat list \<Rightarrow> u64 \<Rightarrow>
     (('h, 'b, 'cfg, 'u) world, u64) go" where
  "merge_ptrs serialize K so [] n = go_return n"
| "merge_ptrs serialize K so (p # ps) n =
     go_bind (RoutePluginConfig_getMergedConfigId serialize K p n so) (merge_ptrs serialize K so ps)"

lemma merge_routes_ptrs:
  "None \<notin> set rs \<Longrightarrow> merge_routes serialize K name so rs = merge_ptrs serialize K so (route_ptrs name rs)"
  by (induction name rs rule: route_ptrs.induct; rule ext)
    (auto simp: FilterConfigPerRoute_getPluginConfigId_def go_bind_return_left simp del: go_bind_apply
      split: option.split)

text \<open>A second run finds everything in the caches.\<close>

definition rerun_same ::
    "(Any \<Rightarrow> string option) \<Rightarrow> ('h, 'b, 'cfg, 'u) world so_code \<Rightarrow> string \<Rightarrow> nat list \<Rightarrow> u64 \<Rightarrow> u64 \<Rightarrow>
     ('h, 'b, 'cfg, 'u) world \<Rightarrow> bool" where
  "rerun_same serialize K so ps n m w \<longleftrightarrow>
     (\<forall>w'. same_configs w w' \<longrightarrow> merge_ptrs serialize K so ps n w' = (Ok m, w'))"

lemma effective_config_Cons:
  "effective_config v merge R (p # ps) c = effective_config v merge R ps (merge c (route_value v R p))"
  by (simp add: effective_config_def)

lemma parents_are_cong:
  "(\<And>p. p \<in> set ps \<Longrightarrow> route_value v R p = route_value v R' p) \<Longrightarrow>
   parents_are v merge R par ps c = parents_are v merge R' par ps c"
  by (induction ps arbitrary: c) auto

lemma effective_config_cong:
  "(\<And>p. p \<in> set ps \<Longrightarrow> route_value v R p = route_value v R' p) \<Longrightarrow>
   effective_config v merge R ps c = effective_config v merge R' ps c"
  by (induction ps arbitrary: c) (auto simp: effective_config_def)

lemma config_lib_same: "config_lib K P unmarshal so w \<Longrightarrow> same_configs w w' \<Longrightarrow> config_lib K P unmarshal so w'"
  by (simp add: config_lib_def same_configs_def)

lemma merge_ptrs_run:
  assumes plugin: "pure_plugin serialize unmarshal P v merge"
  shows "config_lib K P unmarshal so w \<Longrightarrow> configs_ok v merge par w \<Longrightarrow>
    \<forall>p \<in> set ps. routePlugins (cside w) p \<noteq> None \<Longrightarrow>
    parents_are v merge (routePlugins (cside w)) par ps c \<Longrightarrow>
    n \<noteq> 0 \<Longrightarrow> configCache w n = Some c \<Longrightarrow>
    unat (configNumGenerator w) + 2 * length ps < 2 ^ 64 \<Longrightarrow>
    \<exists>m w'. merge_ptrs serialize K so ps n w = (Ok m, w') \<and> m \<noteq> 0 \<and>
      configCache w' m = Some (effective_config v merge (routePlugins (cside w)) ps c) \<and>
      configs_ok v merge par w' \<and> evolves w w' \<and> grows (2 * length ps) w w' \<and>
      rerun_same serialize K so ps n m w'"
proof (induction ps arbitrary: w n c)
  case Nil
  then have "grows 0 w w" by (simp add: configs_ok_def grows_refl)
  with Nil show ?case
    by (intro exI [of _ n] exI [of _ w])
      (simp add: effective_config_def evolves_refl rerun_same_def)
next
  case (Cons p ps)
  let ?R = "routePlugins (cside w)"
  obtain rc where rc: "?R p = Some rc" using Cons.prems(3) by auto
  have par: "par p = c" "parents_are v merge ?R par ps (merge c (route_value v ?R p))"
    using Cons.prems(4) by simp_all
  have cache: "configCache w n = Some (par p)" using par Cons.prems(6) by simp
  have room: "unat (configNumGenerator w) + 2 < 2 ^ 64" using Cons.prems(7) by simp
  obtain m1 w1 rc1 where m1: "RoutePluginConfig_getMergedConfigId serialize K p n so w = (Ok m1, w1)"
    "m1 \<noteq> 0" "configCache w1 m1 = Some (merge (par p) (v (route_plugin_config rc)))"
    "configs_ok v merge par w1" "grows 2 w w1" "evolves w w1"
    "routePlugins (cside w1) p = Some rc1" "merged_config_id rc1 = m1"
    by (rule route_step [OF plugin Cons.prems(1,2) rc cache room])
  let ?R1 = "routePlugins (cside w1)"
  have same_v: "route_value v ?R1 q = route_value v ?R q" if "q \<in> set ps" for q
    by (rule same_route_value [OF evolves_same [OF m1(6)]]) (use that Cons.prems(3) in simp)
  let ?c = "merge c (route_value v ?R p)"
  have "\<forall>q \<in> set ps. ?R1 q \<noteq> None"
    using same_configsD(2) [OF evolves_same [OF m1(6)]] Cons.prems(3) by fastforce
  moreover have "parents_are v merge ?R1 par ps ?c"
    using par(2) parents_are_cong [of ps v ?R1 ?R] same_v by simp
  moreover have "configCache w1 m1 = Some ?c"
    using m1(3) par(1) rc by (simp add: route_value_def)
  moreover have "unat (configNumGenerator w1) + 2 * length ps < 2 ^ 64"
    using Cons.prems(7) m1(5) by (simp add: grows_def)
  ultimately obtain m w' where m: "merge_ptrs serialize K so ps m1 w1 = (Ok m, w')" "m \<noteq> 0"
      "configCache w' m = Some (effective_config v merge ?R1 ps ?c)" "configs_ok v merge par w'"
      "evolves w1 w'" "grows (2 * length ps) w1 w'" "rerun_same serialize K so ps m1 m w'"
    using Cons.IH [OF config_lib_same [OF Cons.prems(1) evolves_same [OF m1(6)]] m1(4) _ _ m1(2)] by blast
  have "rerun_same serialize K so (p # ps) n m w'"
    unfolding rerun_same_def
  proof (intro allI impI)
    fix w'' assume same: "same_configs w' w''"
    obtain rc2 where "routePlugins (cside w'') p = Some rc2" "rc_step rc1 rc2"
      using same_configsD(2) [OF same_configs_trans [OF evolves_same [OF m(5)] same] m1(7)] by blast
    then have "RoutePluginConfig_getMergedConfigId serialize K p n so w'' = (Ok m1, w'')"
      using route_cached [of w'' p rc2] m1(2,8) by (simp add: rc_step_def)
    then show "merge_ptrs serialize K so (p # ps) n w'' = (Ok m, w'')"
      using m(7) same by (simp add: rerun_same_def)
  qed
  moreover have "effective_config v merge ?R1 ps ?c = effective_config v merge ?R ps ?c"
    by (rule effective_config_cong) (rule same_v)
  ultimately show ?case
    using m m1(1) evolves_trans [OF m1(6) m(5)] grows_trans [OF m1(5) m(6)]
    by (intro exI [of _ m] exI [of _ w']) (simp add: effective_config_Cons)
qed

subsection \<open>The identifier of a stream\<close>

lemma base_step:
  assumes plugin: "pure_plugin serialize unmarshal P v merge"
    and fc: "filterConfigs (cside w) p = Some fc" and lib: "config_lib K P unmarshal (so_id fc) w"
    and inv: "configs_ok v merge par w" and room: "unat (configNumGenerator w) + 1 < 2 ^ 64"
  obtains n w' where "FilterConfig_getConfigId serialize K p w = (Ok n, w')" "n \<noteq> 0"
    "configCache w' n = Some (v (plugin_config fc))" "configs_ok v merge par w'" "grows 1 w w'"
    "evolves w w'" "routePlugins (cside w') = routePlugins (cside w)"
    "filterConfigs (cside w') p = Some (fc\<lparr>config_id := n\<rparr>)"
proof (cases "config_id fc = 0")
  case False
  show thesis
    by (rule that [of "config_id fc" w])
      (use False fc inv in \<open>auto simp: FilterConfig_getConfigId_def get_config_def configs_ok_def
        intro: grows_refl evolves_refl\<close>)
next
  case True
  have used: "ids_used w" using inv by (simp add: configs_ok_def)
  obtain d where d: "getDsoInstanceByID (so_id fc) (dsos (cside w)) = Some d"
    "DsoInstance_moeNewHttpPluginConfig K d = moeNewHttpPluginConfig P unmarshal"
    using lib by (auto simp: config_lib_def)
  obtain str n w' where n: "serialize (plugin_config fc) = Some str"
    "moeNewHttpPluginConfig P unmarshal str w = (Ok n, w')" "n \<noteq> 0"
    "configCache w' n = Some (v (plugin_config fc))" "grows 1 w w'" "cside w' = cside w"
    by (rule pure_new_config [OF plugin used room, where conf = "plugin_config fc"])
  let ?fc = "fc\<lparr>config_id := n\<rparr>"
  have inv': "configs_ok v merge par w'" using configs_ok_grows [OF inv n(5,6)] .
  show thesis
  proof (rule that [of n "put_fc p ?fc w'"])
    show "FilterConfig_getConfigId serialize K p w = (Ok n, put_fc p ?fc w')"
      using True fc n d by (simp add: FilterConfig_getConfigId_def get_config_def find_dso_def)
    show "configs_ok v merge par (put_fc p ?fc w')"
      using inv' n(4) by (auto simp: configs_ok_def)
    show "evolves w (put_fc p ?fc w')"
      by (rule evolves_put(2) [OF evolves_refl [OF n(6)], where fc = fc])
        (use True fc n(6) in \<open>simp_all add: fc_step_def\<close>)
  qed (use n in simp_all)
qed

text \<open>The configurations of one stream: its filter's, and the routes'.\<close>

definition stream_config ::
    "(Any \<Rightarrow> 'cfg) \<Rightarrow> ('cfg \<Rightarrow> 'cfg \<Rightarrow> 'cfg) \<Rightarrow> ('h, 'b, 'cfg, 'u) world \<Rightarrow> FilterConfig \<Rightarrow>
     FilterConfigPerRoute option list \<Rightarrow> 'cfg" where
  "stream_config v merge w fc rs = effective_config v merge (routePlugins (cside w))
     (route_ptrs (plugin_name fc) rs) (v (plugin_config fc))"

definition routes_ok ::
    "(Any \<Rightarrow> 'cfg) \<Rightarrow> ('cfg \<Rightarrow> 'cfg \<Rightarrow> 'cfg) \<Rightarrow> (nat \<Rightarrow> 'cfg) \<Rightarrow> ('h, 'b, 'cfg, 'u) world \<Rightarrow>
     FilterConfig \<Rightarrow> FilterConfigPerRoute option list \<Rightarrow> bool" where
  "routes_ok v merge par w fc rs \<longleftrightarrow> None \<notin> set rs \<and>
     (\<forall>p \<in> set (route_ptrs (plugin_name fc) rs). routePlugins (cside w) p \<noteq> None) \<and>
     parents_are v merge (routePlugins (cside w)) par (route_ptrs (plugin_name fc) rs)
       (v (plugin_config fc))"

lemma length_route_ptrs: "length (route_ptrs name rs) \<le> length rs"
  by (induction name rs rule: route_ptrs.induct) (auto split: option.split)

lemma merged_config_run:
  assumes plugin: "pure_plugin serialize unmarshal P v merge"
    and fc: "filterConfigs (cside w) p = Some fc" and lib: "config_lib K P unmarshal (so_id fc) w"
    and inv: "configs_ok v merge par w" and routes: "routes_ok v merge par w fc rs"
    and room: "unat (configNumGenerator w) + 2 * length rs + 1 < 2 ^ 64"
  obtains m w' where "Filter_getMergedConfigId serialize K p rs w = (Ok m, w')" "m \<noteq> 0"
    "configCache w' m = Some (stream_config v merge w fc rs)" "configs_ok v merge par w'"
    "evolves w w'" "grows (2 * length rs + 1) w w'"
    "\<forall>w''. same_configs w' w'' \<longrightarrow> Filter_getMergedConfigId serialize K p rs w'' = (Ok m, w'')"
proof -
  let ?ps = "route_ptrs (plugin_name fc) rs"
  have len: "2 * length ?ps \<le> 2 * length rs" using length_route_ptrs by simp
  have room1: "unat (configNumGenerator w) + 1 < 2 ^ 64" using room by simp
  obtain n w1 where n: "FilterConfig_getConfigId serialize K p w = (Ok n, w1)" "n \<noteq> 0"
    "configCache w1 n = Some (v (plugin_config fc))" "configs_ok v merge par w1" "grows 1 w w1"
    "evolves w w1" "routePlugins (cside w1) = routePlugins (cside w)"
    "filterConfigs (cside w1) p = Some (fc\<lparr>config_id := n\<rparr>)"
    by (rule base_step [OF plugin fc lib inv room1])
  have "\<forall>q \<in> set ?ps. routePlugins (cside w1) q \<noteq> None"
    "parents_are v merge (routePlugins (cside w1)) par ?ps (v (plugin_config fc))"
    "unat (configNumGenerator w1) + 2 * length ?ps < 2 ^ 64"
    using routes n(5,7) room len by (simp_all add: routes_ok_def grows_def)
  then obtain m w2 where m: "merge_ptrs serialize K (so_id fc) ?ps n w1 = (Ok m, w2)" "m \<noteq> 0"
      "configCache w2 m = Some (stream_config v merge w fc rs)" "configs_ok v merge par w2"
      "evolves w1 w2" "grows (2 * length ?ps) w1 w2"
      "rerun_same serialize K (so_id fc) ?ps n m w2"
    using merge_ptrs_run [OF plugin config_lib_same [OF lib evolves_same [OF n(6)]] n(4) _ _ n(2,3), of ?ps]
    unfolding stream_config_def n(7) by blast
  have loop: "merge_routes serialize K (plugin_name fc) (so_id fc) rs =
      merge_ptrs serialize K (so_id fc) ?ps"
    using routes by (simp add: merge_routes_ptrs routes_ok_def)
  show thesis
  proof (rule that [of m w2])
    show "Filter_getMergedConfigId serialize K p rs w = (Ok m, w2)"
      using n(1,8) m(1) loop by (simp add: Filter_getMergedConfigId_def get_config_def)
    show "evolves w w2" by (rule evolves_trans [OF n(6) m(5)])
    show "grows (2 * length rs + 1) w w2"
      by (rule grows_mono [OF grows_trans [OF n(5) m(6)]]) (use len in simp)
    show "\<forall>w3. same_configs w2 w3 \<longrightarrow> Filter_getMergedConfigId serialize K p rs w3 = (Ok m, w3)"
    proof (intro allI impI)
      fix w3 assume same: "same_configs w2 w3"
      obtain fc' where "filterConfigs (cside w3) p = Some fc'" "fc_step (fc\<lparr>config_id := n\<rparr>) fc'"
        using same_configsD(3) [OF same_configs_trans [OF evolves_same [OF m(5)] same] n(8)] by blast
      moreover have "merge_ptrs serialize K (so_id fc) ?ps n w3 = (Ok m, w3)"
        using m(7) same by (simp add: rerun_same_def)
      ultimately show "Filter_getMergedConfigId serialize K p rs w3 = (Ok m, w3)"
        using loop n(2)
        by (simp add: Filter_getMergedConfigId_def FilterConfig_getConfigId_def get_config_def fc_step_def)
    qed
  qed (rule m(2) m(3) m(4))+
qed

subsection \<open>The request object of a stream\<close>

text \<open>A change of the requests or filters is of no concern to the configuration code.\<close>

lemma configs_frame:
  assumes "configCache w' = configCache w" "configNumGenerator w' = configNumGenerator w"
    and "filterConfigs (cside w') = filterConfigs (cside w)"
    and "routePlugins (cside w') = routePlugins (cside w)" "dsos (cside w') = dsos (cside w)"
  shows "configs_ok v merge par w' = configs_ok v merge par w"
    and "config_lib K P unmarshal so w' = config_lib K P unmarshal so w"
    and "routes_ok v merge par w' fc rs = routes_ok v merge par w fc rs"
    and "stream_config v merge w' fc rs = stream_config v merge w fc rs"
    and "same_configs u w' = same_configs u w" "same_configs w' u = same_configs w u"
  using assms by (simp_all add: configs_ok_def ids_used_def config_lib_def routes_ok_def
      stream_config_def same_configs_def)

lemma make_req_config:
  assumes plugin: "pure_plugin serialize unmarshal P v merge"
    and F: "filters (cside w) i = Some F" "filter_req F = None"
    and fc: "filterConfigs (cside w) (conf i) = Some fc" and lib: "config_lib K P unmarshal (so_id fc) w"
    and inv: "configs_ok v merge par w" and routes: "routes_ok v merge par w fc (rs i enc)"
    and room: "unat (configNumGenerator w) + 2 * length (rs i enc) + 1 < 2 ^ 64"
  shows "\<exists>q w'. make_req (with_config serialize K conf rs H) i enc w = (Ok (), w') \<and>
    filters (cside w') i = Some (F\<lparr>filter_req := Some (alloc_req H (cside w))\<rparr>) \<and>
    creqs (cside w') (alloc_req H (cside w)) = Some q \<and> weakFilter q = i \<and> configId q \<noteq> 0 \<and>
    configCache w' (configId q) = Some (stream_config v merge w fc (rs i enc)) \<and>
    configs_ok v merge par w' \<and>
    (\<forall>w''. same_configs w' w'' \<longrightarrow>
       Filter_getMergedConfigId serialize K (conf i) (rs i enc) w'' = (Ok (configId q), w''))"
proof -
  let ?r = "alloc_req H (cside w)"
  let ?F = "F\<lparr>filter_req := Some ?r\<rparr>" and ?q = "httpRequestInternal_new i"
  let ?w = "at i ?F (w\<lparr>cside := put_creq ?r ?q (cside w)\<rparr>)"
  have w: "configCache ?w = configCache w" "configNumGenerator ?w = configNumGenerator w"
      "filterConfigs (cside ?w) = filterConfigs (cside w)"
      "routePlugins (cside ?w) = routePlugins (cside w)" "dsos (cside ?w) = dsos (cside w)"
    by (simp_all add: at_def put_creq_def put_filter_def)
  note same = configs_frame [OF w]
  have pre: "filterConfigs (cside ?w) (conf i) = Some fc" "config_lib K P unmarshal (so_id fc) ?w"
      "configs_ok v merge par ?w" "routes_ok v merge par ?w fc (rs i enc)"
      "unat (configNumGenerator ?w) + 2 * length (rs i enc) + 1 < 2 ^ 64"
    using fc lib inv routes room by (simp_all only: same w)
  obtain m w1 where m: "Filter_getMergedConfigId serialize K (conf i) (rs i enc) ?w = (Ok m, w1)" "m \<noteq> 0"
    "configCache w1 m = Some (stream_config v merge ?w fc (rs i enc))" "configs_ok v merge par w1"
    "evolves ?w w1" "grows (2 * length (rs i enc) + 1) ?w w1"
    "\<forall>w''. same_configs w1 w'' \<longrightarrow>
      Filter_getMergedConfigId serialize K (conf i) (rs i enc) w'' = (Ok m, w'')"
    by (rule merged_config_run [OF plugin pre])
  let ?w2 = "w1\<lparr>cside := (cside w1)\<lparr>creqs := (creqs (cside w1))
      (?r := map_option (configId_update (\<lambda>_. m)) (creqs (cside w1) ?r))\<rparr>\<rparr>"
  have req: "creqs (cside ?w2) ?r = Some (?q\<lparr>configId := m\<rparr>)"
    using evolvesD(2) [OF m(5)] by (simp add: put_creq_def)
  have w2: "configCache ?w2 = configCache w1" "configNumGenerator ?w2 = configNumGenerator w1"
      "filterConfigs (cside ?w2) = filterConfigs (cside w1)"
      "routePlugins (cside ?w2) = routePlugins (cside w1)" "dsos (cside ?w2) = dsos (cside w1)"
    by simp_all
  have start: "make_req (with_config serialize K conf rs H) i enc w = (Ok (), ?w2)"
    using F m(1) by (simp add: make_req_def get_filter_def with_config_def set_filter_def upd_filter_def
        at_def put_filter_def put_creq_def)
  have "filters (cside ?w2) i = Some ?F" using evolvesD(3) [OF m(5)] by simp
  then show ?thesis
    using start req m(2-4,7) configs_frame(1,6) [OF w2] same(4)
    by (intro exI [of _ "?q\<lparr>configId := m\<rparr>"] exI [of _ ?w2])
      (simp add: httpRequestInternal_new_def)
qed

subsection \<open>One route configuration under two filter configurations\<close>

lemma single_route:
  assumes "map_of (plugins_config r) (plugin_name fc) = Some q"
    and "FilterConfig_getConfigId serialize K p w = (Ok n, w1)"
    and "filterConfigs (cside w1) p = Some (fc\<lparr>config_id := n\<rparr>)"
  shows "Filter_getMergedConfigId serialize K p [Some r] w =
    RoutePluginConfig_getMergedConfigId serialize K q n (so_id fc) w1"
  using assms by (simp add: Filter_getMergedConfigId_def get_config_def
      FilterConfigPerRoute_getPluginConfigId_def go_bind_return_right [unfolded go_return_def]
      split: outcome.split prod.split)

lemma shared_route_config:
  assumes plugin: "pure_plugin serialize unmarshal P v merge"
    and fc1: "filterConfigs (cside w) p1 = Some fc1" and fc2: "filterConfigs (cside w) p2 = Some fc2"
    and same: "plugin_name fc2 = plugin_name fc1" "so_id fc2 = so_id fc1"
    and lib: "config_lib K P unmarshal (so_id fc1) w"
    and inv: "configs_ok v merge par w" and q: "map_of (plugins_config r) (plugin_name fc1) = Some q"
    and rc: "routePlugins (cside w) q = Some rc" and par: "par q = v (plugin_config fc1)"
    and room: "unat (configNumGenerator w) + 4 < 2 ^ 64"
  obtains m w1 w2 where "Filter_getMergedConfigId serialize K p1 [Some r] w = (Ok m, w1)"
    "Filter_getMergedConfigId serialize K p2 [Some r] w1 = (Ok m, w2)"
    "configCache w2 m = Some (merge (v (plugin_config fc1)) (v (route_plugin_config rc)))"
proof -
  have room1: "unat (configNumGenerator w) + 1 < 2 ^ 64" using room by simp
  obtain n wa where n: "FilterConfig_getConfigId serialize K p1 w = (Ok n, wa)" "n \<noteq> 0"
    "configCache wa n = Some (v (plugin_config fc1))" "configs_ok v merge par wa" "grows 1 w wa"
    "evolves w wa" "routePlugins (cside wa) = routePlugins (cside w)"
    "filterConfigs (cside wa) p1 = Some (fc1\<lparr>config_id := n\<rparr>)"
    by (rule base_step [OF plugin fc1 lib inv room1])
  have liba: "config_lib K P unmarshal (so_id fc1) wa"
    by (rule config_lib_same [OF lib evolves_same [OF n(6)]])
  have rca: "routePlugins (cside wa) q = Some rc" and para: "configCache wa n = Some (par q)"
    using rc par n(3,7) by simp_all
  have room2: "unat (configNumGenerator wa) + 2 < 2 ^ 64" using n(5) room by (simp add: grows_def)
  obtain m wb rcb where m: "RoutePluginConfig_getMergedConfigId serialize K q n (so_id fc1) wa = (Ok m, wb)"
    "m \<noteq> 0" "configCache wb m = Some (merge (par q) (v (route_plugin_config rc)))"
    "configs_ok v merge par wb" "grows 2 wa wb" "evolves wa wb"
    "routePlugins (cside wb) q = Some rcb" "merged_config_id rcb = m"
    by (rule route_step [OF plugin liba n(4) rca para room2])
  have same_b: "same_configs w wb" by (rule evolves_same [OF evolves_trans [OF n(6) m(6)]])
  obtain fcb where fcb: "filterConfigs (cside wb) p2 = Some fcb" "fc_step fc2 fcb"
    using same_configsD(3) [OF same_b fc2] by blast
  have libb: "config_lib K P unmarshal (so_id fcb) wb"
    using config_lib_same [OF lib same_b] fcb(2) same by (simp add: fc_step_def)
  have room3: "unat (configNumGenerator wb) + 1 < 2 ^ 64"
    using n(5) m(5) room by (simp add: grows_def)
  obtain k wc where k: "FilterConfig_getConfigId serialize K p2 wb = (Ok k, wc)" "k \<noteq> 0"
    "configCache wc k = Some (v (plugin_config fcb))" "configs_ok v merge par wc" "grows 1 wb wc"
    "evolves wb wc" "routePlugins (cside wc) = routePlugins (cside wb)"
    "filterConfigs (cside wc) p2 = Some (fcb\<lparr>config_id := k\<rparr>)"
    by (rule base_step [OF plugin fcb(1) libb m(4) room3])
  show thesis
  proof (rule that [of m wb wc])
    show "Filter_getMergedConfigId serialize K p1 [Some r] w = (Ok m, wb)"
      using single_route [OF q n(1,8)] m(1) by simp
    have qb: "map_of (plugins_config r) (plugin_name fcb) = Some q"
      using q fcb(2) same by (simp add: fc_step_def)
    show "Filter_getMergedConfigId serialize K p2 [Some r] wb = (Ok m, wc)"
      using single_route [OF qb k(1,8)] route_cached [of wc q rcb] m(2,7,8) k(7) by simp
    show "configCache wc m = Some (merge (v (plugin_config fc1)) (v (route_plugin_config rc)))"
      using m(3) k(5) par by (simp add: grows_def)
  qed
qed

subsection \<open>No library\<close>

text \<open>A library unpublished before the configuration was made: Go is asked for configuration 0.\<close>

lemma unpublished_merge:
  assumes "getDsoInstanceByID so (dsos (cside w)) = None"
    and "\<forall>p \<in> set ps. \<exists>rc. routePlugins (cside w) p = Some rc \<and> merged_config_id rc = 0"
  shows "merge_ptrs serialize K so ps 0 w = (Ok 0, w)"
  using assms by (induction ps)
    (auto simp: RoutePluginConfig_getMergedConfigId_def get_route_def find_dso_def)

lemma unpublished_config:
  assumes "filterConfigs (cside w) p = Some fc" "config_id fc = 0" "None \<notin> set rs"
    and "getDsoInstanceByID (so_id fc) (dsos (cside w)) = None" "ids_used w"
    and "\<forall>q \<in> set (route_ptrs (plugin_name fc) rs).
      \<exists>rc. routePlugins (cside w) q = Some rc \<and> merged_config_id rc = 0"
  shows "Filter_getMergedConfigId serialize K p rs w = (Ok 0, w)"
    and "getOrCreateHttpFilterFactory P 0 w = httpFilterConfigFactory P None w"
proof -
  show "Filter_getMergedConfigId serialize K p rs w = (Ok 0, w)"
    using assms unpublished_merge [of "so_id fc" w]
    by (simp add: Filter_getMergedConfigId_def FilterConfig_getConfigId_def get_config_def find_dso_def
        merge_routes_ptrs)
  have "configCache w 0 = None" using assms(5) by (metis ids_used_def)
  then show "getOrCreateHttpFilterFactory P 0 w = httpFilterConfigFactory P None w"
    by (simp add: getOrCreateHttpFilterFactory_def configCache_Load_def)
qed

text \<open>
  The callbacks Envoy makes on a filter, all on the worker's thread; the result is whether it goes on,
  with the data left. The times of a filter are those it was made with.
\<close>

datatype 'b callback =
    CbDecodeHeaders nat bool | CbDecodeData 'b bool | CbDecodeTrailers nat
  | CbEncodeHeaders nat bool | CbEncodeData 'b bool | CbEncodeTrailers nat
  | CbEncode1xxHeaders nat | CbEncodeMetadata | CbLocalReply | CbLog | CbStreamComplete | CbDestroy

fun run_callback ::
    "('h, 'b) envoy \<Rightarrow> (u64 \<Rightarrow> string) \<Rightarrow> ('h, 'b, 'cfg, 'u) stream_host \<Rightarrow> nat \<Rightarrow> 'b callback \<Rightarrow>
     (('h, 'b, 'cfg, 'u) world, bool \<times> 'b option) go" where
  "run_callback E number H i (CbDecodeHeaders h e) =
     go_bind (decodeHeaders E H i h e) (\<lambda>r. go_return (r, None))"
| "run_callback E number H i (CbDecodeData d e) =
     go_bind (decodeData E H i d e) (\<lambda>(r, d'). go_return (r, Some d'))"
| "run_callback E number H i (CbDecodeTrailers t) =
     go_bind (decodeTrailers E H i t) (\<lambda>r. go_return (r, None))"
| "run_callback E number H i (CbEncodeHeaders h e) =
     go_bind (encodeHeaders E H i h e) (\<lambda>r. go_return (r, None))"
| "run_callback E number H i (CbEncodeData d e) =
     go_bind (encodeData E H i d e) (\<lambda>(r, d'). go_return (r, Some d'))"
| "run_callback E number H i (CbEncodeTrailers t) =
     go_bind (encodeTrailers E H i t) (\<lambda>r. go_return (r, None))"
| "run_callback E number H i (CbEncode1xxHeaders h) =
     go_bind (encode1xxHeaders h) (\<lambda>r. go_return (r, None))"
| "run_callback E number H i CbEncodeMetadata = go_bind encodeMetadata (\<lambda>r. go_return (r, None))"
| "run_callback E number H i CbLocalReply = go_bind (onLocalReply True) (\<lambda>r. go_return (r, None))"
| "run_callback E number H i CbLog = go_then access_log (go_return (True, None))"
| "run_callback E number H i CbStreamComplete =
     go_then (onStreamComplete E number cost_times_new i) (go_return (True, None))"
| "run_callback E number H i CbDestroy = go_then (onDestroy H i) (go_return (True, None))"

fun run_callbacks ::
    "('h, 'b) envoy \<Rightarrow> (u64 \<Rightarrow> string) \<Rightarrow> ('h, 'b, 'cfg, 'u) stream_host \<Rightarrow> nat \<Rightarrow>
     'b callback list \<Rightarrow> (('h, 'b, 'cfg, 'u) world, (bool \<times> 'b option) list) go" where
  "run_callbacks E number H i [] = go_return []"
| "run_callbacks E number H i (x # xs) = go_bind (run_callback E number H i x) (\<lambda>r.
     go_bind (run_callbacks E number H i xs) (\<lambda>rs. go_return (r # rs)))"

fun untouched :: "'b callback \<Rightarrow> bool \<times> 'b option" where
  "untouched (CbDecodeData d e) = (True, Some d)"
| "untouched (CbEncodeData d e) = (True, Some d)"
| "untouched _ = (True, None)"

text \<open>Every end of the stream that Envoy announces leaves its note in the metadata.\<close>

definition with_notes ::
    "('h, 'b) envoy \<Rightarrow> (u64 \<Rightarrow> string) \<Rightarrow> nat \<Rightarrow> 'b callback list \<Rightarrow> ('h, 'b, 'cfg, 'u) world \<Rightarrow>
     ('h, 'b, 'cfg, 'u) world" where
  "with_notes E number i xs =
     fold (\<lambda>x. if x = CbStreamComplete then no_costs E number i else id) xs"

lemma callback_without_library:
  assumes "\<not> has_dynamicLib H"
  shows "\<exists>G. run_callback E number H i x (at i F w) =
    (Ok (untouched x), at i G (with_notes E number i [x] w))"
proof (cases x)
  case CbStreamComplete
  then show ?thesis by (auto simp: costs_are_zero with_notes_def)
qed (use assms in \<open>auto simp: decodeHeaders_def decodeData_def decodeTrailers_def encodeHeaders_def
    encodeData_def encodeTrailers_def onDestroy_def encode1xxHeaders_def encodeMetadata_def
    onLocalReply_continues access_log_def with_notes_def\<close>)

lemma callbacks_without_library:
  assumes "\<not> has_dynamicLib H"
  shows "\<exists>G. run_callbacks E number H i xs (at i F w) =
    (Ok (map untouched xs), at i G (with_notes E number i xs w))"
proof (induction xs arbitrary: F w)
  case (Cons x xs)
  let ?w = "with_notes E number i [x] w"
  obtain G where "run_callback E number H i x (at i F w) = (Ok (untouched x), at i G ?w)"
    using callback_without_library [OF assms] by blast
  moreover obtain G' where "run_callbacks E number H i xs (at i G ?w) =
      (Ok (map untouched xs), at i G' (with_notes E number i xs ?w))"
    using Cons by blast
  moreover have "with_notes E number i xs ?w = with_notes E number i (x # xs) w"
    by (simp add: with_notes_def)
  ultimately show ?case by auto
qed (auto simp: with_notes_def)

subsection \<open>A published library\<close>

lemma published_filter:
  assumes "published L (dsos c)" "filterConfigs c p = Some fc"
    and "FilterFactoryCb p i c = (Ok (Some d), c')" "exports K d C P unmarshal"
  shows "with_library K (Some d) H = with_plugin C P H"
    and "cside w = c' \<Longrightarrow> config_lib K P unmarshal (so_id fc) w"
proof -
  have d: "getDsoInstanceByID (so_id fc) (dsos c) = Some d" and c': "dsos c' = dsos c"
    using assms(2,3) by (auto simp: FilterFactoryCb_def put_filter_def)
  have "linked L d" "resolves L (dsoName d)" using assms(1) d by (auto simp: published_def)
  note lib = exports_with_library [OF assms(4) this]
  show "with_library K (Some d) H = with_plugin C P H" by (rule lib(1))
  show "cside w = c' \<Longrightarrow> config_lib K P unmarshal (so_id fc) w"
    using d c' lib(2,3) by (simp add: config_lib_def)
qed

end
