(* ===== verification/Api_Interfaces.thy ===== *)
theory Api_Interfaces
  imports Api_Types
begin

text \<open>
  The interfaces of \<^verbatim>\<open>pkg/api/type.go\<close> and \<^verbatim>\<open>pkg/api/filter.go\<close>, as records of methods: an interface
  value is the record of the methods of its type, bound to the object it points to. An embedded
  interface is the parent of a record extension, so a method that takes any \<open>HeaderMap\<close> takes those
  of its extensions as well. An interface that only embeds another one is a synonym.
\<close>

subsection \<open>Header maps\<close>

record 'w HeaderMap =
  map_Get :: "string \<Rightarrow> ('w, string \<times> bool) go"
  map_Values :: "string \<Rightarrow> ('w, string list) go"
  map_Set :: "string \<Rightarrow> string \<Rightarrow> ('w, unit) go"
  map_Add :: "string \<Rightarrow> string \<Rightarrow> ('w, unit) go"
  map_Del :: "string \<Rightarrow> ('w, unit) go"
  map_Range :: "(string \<Rightarrow> string \<Rightarrow> ('w, bool) go) \<Rightarrow> ('w, unit) go"
  map_ByteSize :: "('w, u64) go"

record 'w RequestHeaderMap = "'w HeaderMap" +
  map_Protocol :: "('w, string) go"
  map_Scheme :: "('w, string) go"
  map_Method :: "('w, string) go"
  map_Host :: "('w, string) go"
  map_Path :: "('w, string) go"
  request_GetRaw :: "string \<Rightarrow> ('w, string) go"

type_synonym 'w RequestTrailerMap = "'w HeaderMap"

record 'w ResponseHeaderMap = "'w HeaderMap" +
  map_Status :: "('w, int) go"
  response_GetRaw :: "string \<Rightarrow> ('w, string) go"

type_synonym 'w ResponseTrailerMap = "'w HeaderMap"

subsection \<open>Buffers\<close>

text \<open>The errors are always nil, so a method that returns one returns nothing here.\<close>

record 'w DataBufferBase =
  data_Write :: "string \<Rightarrow> ('w, nat) go"
  data_WriteString :: "string \<Rightarrow> ('w, nat) go"
  data_WriteByte :: "8 word \<Rightarrow> ('w, unit) go"
  data_WriteUint16 :: "16 word \<Rightarrow> ('w, unit) go"
  data_WriteUint32 :: "u32 \<Rightarrow> ('w, unit) go"
  data_WriteUint64 :: "u64 \<Rightarrow> ('w, unit) go"
  data_Peek :: "int \<Rightarrow> ('w, string) go"
  data_Bytes :: "('w, string) go"
  data_Drain :: "int \<Rightarrow> ('w, unit) go"
  data_Len :: "('w, int) go"
  data_Reset :: "('w, unit) go"
  data_String :: "('w, string) go"
  data_Append :: "string \<Rightarrow> ('w, unit) go"

record 'w BufferInstance = "'w DataBufferBase" +
  data_Set :: "string \<Rightarrow> ('w, unit) go"
  data_SetString :: "string \<Rightarrow> ('w, unit) go"
  data_Prepend :: "string \<Rightarrow> ('w, unit) go"
  data_PrependString :: "string \<Rightarrow> ('w, unit) go"
  data_AppendString :: "string \<Rightarrow> ('w, unit) go"

subsection \<open>Callbacks\<close>

text \<open>
  \<open>'p\<close> is what a call of \<^verbatim>\<open>DynamicMetadata.Get\<close> starts: the goroutine blocks in it, so it is not a
  computation of its own. \<open>'v\<close> is the type of metadata values. \<^verbatim>\<open>RecoverPanic\<close> takes what \<^verbatim>\<open>recover()\<close>
  returns.
\<close>

record ('w, 'p, 'v) DynamicMetadata =
  metadata_Get :: "string \<Rightarrow> 'p"
  metadata_Set :: "string \<Rightarrow> string \<Rightarrow> 'v \<Rightarrow> ('w, unit) go"

record ('w, 'p, 'v) StreamInfo =
  info_GetRouteName :: "('w, string) go"
  info_DynamicMetadata :: "('w, 'p, 'v) DynamicMetadata"

record ('w, 'p, 'v) StreamFilterCallbacks =
  callbacks_StreamInfo :: "('w, 'p, 'v) StreamInfo"

record ('w, 'p, 'v) FilterCallbacks = "('w, 'p, 'v) StreamFilterCallbacks" +
  callbacks_Continue :: "StatusType \<Rightarrow> ('w, unit) go"
  callbacks_SendLocalReply ::
    "int \<Rightarrow> string \<Rightarrow> (string \<times> string) list \<Rightarrow> int \<Rightarrow> string \<Rightarrow> ('w, unit) go"
  callbacks_RecoverPanic :: "panic_value \<Rightarrow> ('w, unit) go"

type_synonym ('w, 'p, 'v) FilterCallbackHandler = "('w, 'p, 'v) FilterCallbacks"

subsection \<open>Filters\<close>

record 'w HttpDecoderFilter =
  decoder_Headers :: "'w RequestHeaderMap \<Rightarrow> bool \<Rightarrow> ('w, StatusType) go"
  decoder_Data :: "'w BufferInstance \<Rightarrow> bool \<Rightarrow> ('w, StatusType) go"
  decoder_Trailers :: "'w RequestTrailerMap \<Rightarrow> ('w, StatusType) go"

record 'w StreamEncoderFilter =
  encoder_Headers :: "'w ResponseHeaderMap \<Rightarrow> bool \<Rightarrow> ('w, StatusType) go"
  encoder_Data :: "'w BufferInstance \<Rightarrow> bool \<Rightarrow> ('w, StatusType) go"
  encoder_Trailers :: "'w ResponseTrailerMap \<Rightarrow> ('w, StatusType) go"

end
