(* ===== verification/Header_Interface.thy ===== *)
theory Header_Interface
  imports Api_Interfaces Header_Refine Http_Buffer
begin

text \<open>
  The header maps, trailer maps and buffers of \<^verbatim>\<open>pkg/http/type.go\<close> as values of the API's interfaces,
  and the contract of \<^verbatim>\<open>api.HeaderMap\<close> as a locale: what a filter that knows the interface only can
  rely on. Request and response headers provide it once they have been read; trailers do not. A
  filter's code is any finite tree of calls (\<open>header_client\<close>), so the contract speaks about every
  filter that works on headers.
\<close>

subsection \<open>The implementations\<close>

text \<open>
  \<^verbatim>\<open>requestHeaderMapImpl\<close> and \<^verbatim>\<open>responseHeaderMapImpl\<close> embed \<^verbatim>\<open>headerMapImpl\<close>: its methods are promoted,
  but for \<^verbatim>\<open>Del\<close> of response headers, which is overridden.
\<close>

definition requestHeaderMapImpl ::
    "('h, 'b, 'cfg, 'u) world HttpCAPI \<Rightarrow> (gomap \<Rightarrow> string list) \<Rightarrow> nat \<Rightarrow>
     ('h, 'b, 'cfg, 'u) world RequestHeaderMap" where
  "requestHeaderMapImpl C order h = \<lparr>
     map_Get = headerMapImpl_Get C h,
     map_Values = headerMapImpl_Values C h,
     map_Set = headerMapImpl_Set C h,
     map_Add = headerMapImpl_Add C h,
     map_Del = headerMapImpl_Del C h,
     map_Range = headerMapImpl_Range C h order,
     map_ByteSize = headerMapImpl_ByteSize h,
     map_Protocol = requestHeaderMapImpl_Protocol C h,
     map_Scheme = requestHeaderMapImpl_Scheme C h,
     map_Method = requestHeaderMapImpl_Method C h,
     map_Host = requestHeaderMapImpl_Host C h,
     map_Path = requestHeaderMapImpl_Path C h,
     request_GetRaw = requestHeaderMapImpl_GetRaw C h\<rparr>"

definition responseHeaderMapImpl ::
    "('h, 'b, 'cfg, 'u) world HttpCAPI \<Rightarrow> (gomap \<Rightarrow> string list) \<Rightarrow> nat \<Rightarrow>
     ('h, 'b, 'cfg, 'u) world ResponseHeaderMap" where
  "responseHeaderMapImpl C order h = \<lparr>
     map_Get = headerMapImpl_Get C h,
     map_Values = headerMapImpl_Values C h,
     map_Set = headerMapImpl_Set C h,
     map_Add = headerMapImpl_Add C h,
     map_Del = responseHeaderMapImpl_Del C h,
     map_Range = headerMapImpl_Range C h order,
     map_ByteSize = headerMapImpl_ByteSize h,
     map_Status = responseHeaderMapImpl_Status C h,
     response_GetRaw = responseHeaderMapImpl_GetRaw C h\<rparr>"

definition requestTrailerMapImpl ::
    "('h, 'b, 'cfg, 'u) world HttpCAPI \<Rightarrow> nat \<Rightarrow> ('h, 'b, 'cfg, 'u) world RequestTrailerMap" where
  "requestTrailerMapImpl C h = \<lparr>
     map_Get = headerTrailerMapImpl_Get C h,
     map_Values = headerTrailerMapImpl_Values C h,
     map_Set = headerTrailerMapImpl_Set C h,
     map_Add = headerTrailerMapImpl_Add h,
     map_Del = headerTrailerMapImpl_Del h,
     map_Range = headerTrailerMapImpl_Range h,
     map_ByteSize = headerTrailerMapImpl_ByteSize h\<rparr>"

definition responseTrailerMapImpl ::
    "('h, 'b, 'cfg, 'u) world HttpCAPI \<Rightarrow> nat \<Rightarrow> ('h, 'b, 'cfg, 'u) world ResponseTrailerMap" where
  "responseTrailerMapImpl C h = \<lparr>
     map_Get = headerTrailerMapImpl_Get C h,
     map_Values = headerTrailerMapImpl_Values C h,
     map_Set = headerTrailerMapImpl_Set C h,
     map_Add = headerTrailerMapImpl_Add h,
     map_Del = headerTrailerMapImpl_Del h,
     map_Range = headerTrailerMapImpl_Range h,
     map_ByteSize = headerTrailerMapImpl_ByteSize h\<rparr>"

definition httpBuffer_methods ::
    "('h, 'b, 'cfg, 'u) world HttpCAPI \<Rightarrow> nat \<Rightarrow> ('h, 'b, 'cfg, 'u) world BufferInstance" where
  "httpBuffer_methods C b = \<lparr>
     data_Write = httpBuffer_Write C b,
     data_WriteString = httpBuffer_WriteString C b,
     data_WriteByte = httpBuffer_WriteByte C b,
     data_WriteUint16 = httpBuffer_WriteUint16 C b,
     data_WriteUint32 = httpBuffer_WriteUint32 C b,
     data_WriteUint64 = httpBuffer_WriteUint64 C b,
     data_Peek = httpBuffer_Peek b,
     data_Bytes = httpBuffer_Bytes C b,
     data_Drain = httpBuffer_Drain b,
     data_Len = httpBuffer_Len b,
     data_Reset = httpBuffer_Reset b,
     data_String = httpBuffer_String C b,
     data_Append = httpBuffer_Append C b,
     data_Set = httpBuffer_Set C b,
     data_SetString = httpBuffer_SetString C b,
     data_Prepend = httpBuffer_Prepend C b,
     data_PrependString = httpBuffer_PrependString C b,
     data_AppendString = httpBuffer_AppendString C b\<rparr>"

subsection \<open>Code over the interface\<close>

text \<open>
  A filter's code: it makes a call, goes on with the result, and ends with a status. \<open>run_client\<close>
  runs it on an interface value, \<open>spec_client\<close> on a multimap. \<open>proper_client\<close> says that the calls it
  makes there are within the contract.
\<close>

datatype header_client =
    Answer StatusType
  | Call header_op "header_result \<Rightarrow> header_client"

fun call_method :: "('w, 'z) HeaderMap_scheme \<Rightarrow> header_op \<Rightarrow> ('w, header_result) go" where
  "call_method M (OpGet k) = go_bind (map_Get M k) (\<lambda>(v, ok). go_return (ResGet v ok))"
| "call_method M (OpValues k) = go_bind (map_Values M k) (\<lambda>vs. go_return (ResValues vs))"
| "call_method M (OpSet k v) = go_then (map_Set M k v) (go_return ResUnit)"
| "call_method M (OpAdd k v) = go_then (map_Add M k v) (go_return ResUnit)"
| "call_method M (OpDel k) = go_then (map_Del M k) (go_return ResUnit)"

primrec run_client ::
    "('w, 'z) HeaderMap_scheme \<Rightarrow> header_client \<Rightarrow> ('w, StatusType) go" where
  "run_client M (Answer s) = go_return s"
| "run_client M (Call x k) = go_bind (call_method M x) (\<lambda>r. run_client M (k r))"

primrec spec_client :: "header_client \<Rightarrow> multimap \<Rightarrow> StatusType \<times> multimap" where
  "spec_client (Answer s) = (\<lambda>A. (s, A))"
| "spec_client (Call x k) = (\<lambda>A. spec_client (k (fst (spec_op A x))) (snd (spec_op A x)))"

definition within :: "(string \<Rightarrow> bool) \<Rightarrow> (string \<Rightarrow> bool) \<Rightarrow> header_op \<Rightarrow> bool" where
  "within plain appends x \<longleftrightarrow> plain (op_key x) \<and> (case x of OpAdd k v \<Rightarrow> appends k | _ \<Rightarrow> True)"

primrec proper_client ::
    "(string \<Rightarrow> bool) \<Rightarrow> (string \<Rightarrow> bool) \<Rightarrow> header_client \<Rightarrow> multimap \<Rightarrow> bool" where
  "proper_client plain appends (Answer s) = (\<lambda>A. True)"
| "proper_client plain appends (Call x k) = (\<lambda>A. within plain appends x \<and>
     proper_client plain appends (k (fst (spec_op A x))) (snd (spec_op A x)))"

fun first_read :: "header_client \<Rightarrow> bool" where
  "first_read (Answer s) = True"
| "first_read (Call x k) = is_read x"

subsection \<open>The contract of \<open>api.HeaderMap\<close>\<close>

text \<open>
  \<open>holds A w\<close>: in state \<open>w\<close> the object holds the multimap \<open>A\<close>. \<open>plain\<close> are the names the contract is
  about, \<open>appends\<close> those to which a value can be added.
\<close>

locale header_map =
  fixes M :: "('w, 'z) HeaderMap_scheme"
    and holds :: "multimap \<Rightarrow> 'w \<Rightarrow> bool"
    and plain :: "string \<Rightarrow> bool"
    and appends :: "string \<Rightarrow> bool"
  assumes Get_holds: "holds A w \<Longrightarrow> plain k \<Longrightarrow>
        map_Get M k w = (Ok (case A k of [] \<Rightarrow> ([], False) | v # _ \<Rightarrow> (v, True)), w)"
    and Values_holds: "holds A w \<Longrightarrow> plain k \<Longrightarrow> map_Values M k w = (Ok (A k), w)"
    and Set_holds: "holds A w \<Longrightarrow> plain k \<Longrightarrow>
        \<exists>w'. map_Set M k v w = (Ok (), w') \<and> holds (A(k := [v])) w'"
    and Add_holds: "holds A w \<Longrightarrow> plain k \<Longrightarrow> appends k \<Longrightarrow>
        \<exists>w'. map_Add M k v w = (Ok (), w') \<and> holds (A(k := A k @ [v])) w'"
    and Del_holds: "holds A w \<Longrightarrow> plain k \<Longrightarrow>
        \<exists>w'. map_Del M k w = (Ok (), w') \<and> holds (A(k := [])) w'"
begin

lemma call_holds:
  assumes "holds A w" "within plain appends x"
  shows "\<exists>w'. call_method M x w = (Ok (fst (spec_op A x)), w') \<and> holds (snd (spec_op A x)) w'"
  using assms
proof (cases x)
  case (OpGet k)
  then show ?thesis using assms Get_holds [of A w k]
    by (auto simp: within_def split: list.split)
next
  case (OpValues k)
  then show ?thesis using assms Values_holds [of A w k] by (auto simp: within_def)
next
  case (OpSet k v)
  then show ?thesis using assms Set_holds [of A w k v] by (auto simp: within_def)
next
  case (OpAdd k v)
  then show ?thesis using assms Add_holds [of A w k v] by (auto simp: within_def)
next
  case (OpDel k)
  then show ?thesis using assms Del_holds [of A w k] by (auto simp: within_def)
qed

lemma client_holds:
  "holds A w \<Longrightarrow> proper_client plain appends c A \<Longrightarrow>
   \<exists>w'. run_client M c w = (Ok (fst (spec_client c A)), w') \<and> holds (snd (spec_client c A)) w'"
proof (induction c arbitrary: A w)
  case (Call x k)
  obtain w1 where 1: "call_method M x w = (Ok (fst (spec_op A x)), w1)" "holds (snd (spec_op A x)) w1"
    using call_holds [of A w x] Call.prems by auto
  have "proper_client plain appends (k (fst (spec_op A x))) (snd (spec_op A x))"
    using Call.prems(2) by simp
  from Call.IH [OF rangeI 1(2) this] 1(1) show ?case by auto
qed auto

text \<open>What two calls in a row promise, as the comments of the interface put it.\<close>

lemma Set_replaces:
  assumes "holds A w" "plain k"
  shows "\<exists>w'. go_then (map_Set M k v) (map_Values M k) w = (Ok [v], w')"
  using Set_holds [OF assms, of v] Values_holds [OF _ assms(2)] by force

lemma Add_keeps:
  assumes "holds A w" "plain k" "appends k"
  shows "\<exists>w'. go_then (map_Add M k v) (map_Values M k) w = (Ok (A k @ [v]), w')"
  using Add_holds [OF assms, of v] Values_holds [OF _ assms(2)] by force

end


subsection \<open>What the calls leave alone\<close>

definition outside_c where
  "outside_c c = (filters c, creqs c, posted c, envoy_calls c)"

definition outside where
  "outside w = (outside_c (cside w), httpRequests w, Requests w, ustate w)"

lemma outside_views:
  assumes "outside w' = outside w"
  shows "filters (cside w') = filters (cside w)" "creqs (cside w') = creqs (cside w)"
    "posted (cside w') = posted (cside w)" "envoy_calls (cside w') = envoy_calls (cside w)"
    "httpRequests w' = httpRequests w" "Requests w' = Requests w" "ustate w' = ustate w"
  using assms by (simp_all add: outside_def outside_c_def)

lemma outside_c_upd_hm [simp]: "outside_c (upd_hm a f c) = outside_c c"
  by (simp add: outside_c_def upd_hm_def)

lemma outside_upd_headerMap [simp]: "outside (upd_headerMap h f w) = outside w"
  by (simp add: outside_def upd_headerMap_def)

lemma keeps_wrapper:
  "(\<And>i F. keeps I (f i F)) \<Longrightarrow> keeps I (moeHandlerWrapper ret r f)"
  unfolding moeHandlerWrapper_def keeps_def by (auto split: option.split)

lemma keeps_guard: "keeps I (body i F) \<Longrightarrow> keeps I (inGoGuard ret body i F)"
  unfolding inGoGuard_def by (intro go_inv)

lemma keeps_outside_on_c:
  fixes m :: "(('h, 'b) cstate, 'a) go"
  assumes "\<And>y. keeps (\<lambda>c. outside_c c = y) m"
  shows "keeps (\<lambda>w. outside w = z) (on_c m :: (('h, 'b, 'cfg, 'u) world, 'a) go)"
proof (rule keepsI)
  fix w :: "('h, 'b, 'cfg, 'u) world" assume "outside w = z"
  moreover have "outside_c (snd (m (cside w))) = outside_c (cside w)"
    using assms [of "outside_c (cside w)"] by (simp add: keeps_def)
  ultimately show "outside (snd (on_c m w)) = z"
    by (simp add: on_c_def outside_def case_prod_unfold)
qed

lemma keeps_outside_c_call:
  "(\<And>p y. keeps (\<lambda>c. outside_c c = y) (f p)) \<Longrightarrow> keeps (\<lambda>w. outside w = z) (c_call r f)"
  unfolding c_call_def by (intro go_inv keeps_outside_on_c) auto

lemma keeps_handleCApiStatus: "keeps I (handleCApiStatus st)"
  unfolding handleCApiStatus_def by (intro go_inv)

lemma keeps_header_calls:
  "keeps (\<lambda>c. outside_c c = y) (moeHttpCopyHeaders E p mem)"
  "keeps (\<lambda>c. outside_c c = y) (moeHttpSetHeaderHelper E p key v act)"
  "keeps (\<lambda>c. outside_c c = y) (moeHttpRemoveHeader E p key)"
  unfolding moeHttpCopyHeaders_def copyHeaders_def moeHttpSetHeaderHelper_def setHeader_def
    moeHttpRemoveHeader_def removeHeader_def
  by (intro keeps_wrapper keeps_guard go_inv; simp)+

lemma keeps_header_methods:
  "keeps (\<lambda>w. outside w = z) (load_headers (httpCApiImpl E) h)"
  "keeps (\<lambda>w. outside w = z) (headerMapImpl_Set (httpCApiImpl E) h k v)"
  "keeps (\<lambda>w. outside w = z) (headerMapImpl_Add (httpCApiImpl E) h k v)"
  "keeps (\<lambda>w. outside w = z) (headerMapImpl_Del (httpCApiImpl E) h k)"
  unfolding load_headers_def headerMapImpl_Set_def headerMapImpl_Add_def headerMapImpl_Del_def
    httpCApiImpl_simps impl_HttpCopyHeaders_def copy_to_map_def impl_HttpSetHeader_def
    impl_HttpRemoveHeader_def upd_cache_def Let_def
  by (intro go_inv keeps_outside_c_call keeps_header_calls keeps_handleCApiStatus; simp)+

subsection \<open>Headers provide the contract\<close>

text \<open>A header object that has been read, with the request it belongs to.\<close>

definition header_holds ::
    "('h, 'b) envoy \<Rightarrow> nat \<Rightarrow> nat \<Rightarrow> _ \<Rightarrow> multimap \<Rightarrow> ('h, 'b, 'cfg, 'u) world \<Rightarrow> bool" where
  "header_holds E h r z A w \<longleftrightarrow> header_laws E \<and> tracks E header_view h r A w \<and> outside w = z"

lemma header_holdsI:
  assumes "m w = (Ok (), w')" "tracks E header_view h r A' w'" "header_holds E h r z A w"
    and "\<And>z. keeps (\<lambda>w. outside w = z) m"
  shows "\<exists>w'. m w = (Ok (), w') \<and> header_holds E h r z A' w'"
  using assms keepsD2 [OF assms(4) _ assms(1)] by (auto simp: header_holds_def)

lemma header_reads:
  assumes "header_holds E h r z A w" "env_lower E k = k"
  shows "headerMapImpl_Get C h k w = (Ok (case A k of [] \<Rightarrow> ([], False) | v # _ \<Rightarrow> (v, True)), w)"
    and "headerMapImpl_Values C h k w = (Ok (A k), w)"
proof -
  obtain o' m c where o': "headerMaps w h = Some o'" "headers o' = Some c"
    and c: "coherent E m c" "represents E m A"
    using assms(1) by (auto simp: header_holds_def elim: tracksE)
  note look = coherent_lookup [OF c assms(2)]
  show "headerMapImpl_Get C h k w = (Ok (case A k of [] \<Rightarrow> ([], False) | v # _ \<Rightarrow> (v, True)), w)"
    "headerMapImpl_Values C h k w = (Ok (A k), w)"
    using o' look
    by (auto simp: headerMapImpl_Get_def headerMapImpl_Values_def load_headers_cached
        split: list.splits)
qed

lemma header_writes:
  assumes "header_holds E h r z A w" "env_lower E k = k"
  shows "\<exists>w'. headerMapImpl_Set (httpCApiImpl E) h k v w = (Ok (), w') \<and>
      header_holds E h r z (A(k := [v])) w'"
    and "hm_appends E k \<Longrightarrow> \<exists>w'. headerMapImpl_Add (httpCApiImpl E) h k v w = (Ok (), w') \<and>
      header_holds E h r z (A(k := A k @ [v])) w'"
    and "\<exists>w'. headerMapImpl_Del (httpCApiImpl E) h k w = (Ok (), w') \<and>
      header_holds E h r z (A(k := [])) w'"
proof -
  have t: "header_laws E" "tracks E header_view h r A w" using assms(1) by (auto simp: header_holds_def)
  show "\<exists>w'. headerMapImpl_Set (httpCApiImpl E) h k v w = (Ok (), w') \<and>
      header_holds E h r z (A(k := [v])) w'"
    using capi.set_step [OF t assms(2), of v] header_holdsI [OF _ _ assms(1) keeps_header_methods(2)]
    by blast
  show "\<exists>w'. headerMapImpl_Add (httpCApiImpl E) h k v w = (Ok (), w') \<and>
      header_holds E h r z (A(k := A k @ [v])) w'" if "hm_appends E k"
    using capi.add_step [OF t assms(2) that, of v] header_holdsI [OF _ _ assms(1) keeps_header_methods(3)]
    by blast
  show "\<exists>w'. headerMapImpl_Del (httpCApiImpl E) h k w = (Ok (), w') \<and>
      header_holds E h r z (A(k := [])) w'"
    using capi.del_step [OF t assms(2)] header_holdsI [OF _ _ assms(1) keeps_header_methods(4)]
    by blast
qed

lemma response_Del_eq: "responseHeaderMapImpl_Del C h k = headerMapImpl_Del C h k"
  by (simp add: responseHeaderMapImpl_Del_def headerMapImpl_Del_def)

interpretation request_headers: header_map "requestHeaderMapImpl (httpCApiImpl E) order h"
    "header_holds E h r z" "\<lambda>k. env_lower E k = k" "hm_appends E" for E order h r z
  by unfold_locales (simp_all add: requestHeaderMapImpl_def header_reads header_writes)

interpretation response_headers: header_map "responseHeaderMapImpl (httpCApiImpl E) order h"
    "header_holds E h r z" "\<lambda>k. env_lower E k = k" "hm_appends E" for E order h r z
  by unfold_locales
    (simp_all add: responseHeaderMapImpl_def response_Del_eq header_reads header_writes)


subsection \<open>From a fresh handle\<close>

lemma call_request: "call_method (requestHeaderMapImpl C order h) x = impl_op C h x"
  by (cases x) (simp_all add: requestHeaderMapImpl_def)

lemma call_response: "call_method (responseHeaderMapImpl C order h) x = impl_op C h x"
  by (cases x) (simp_all add: responseHeaderMapImpl_def response_Del_eq)

lemma run_client_cong:
  assumes "\<And>x. call_method M x = call_method N x"
  shows "run_client M c = run_client N c"
  by (induction c) (simp_all add: assms)

lemma response_client:
  "run_client (responseHeaderMapImpl C order h) c = run_client (requestHeaderMapImpl C order' h) c"
  by (rule run_client_cong) (simp add: call_request call_response)

text \<open>Code whose first call reads runs as on a multimap, on a handle as the callbacks make it.\<close>

lemma fresh_client:
  assumes laws: "header_laws E"
    and o': "headerMaps w h = Some o'" "header_view w (request o') = Ok m" "fresh_handle E m o'"
    and c: "first_read c" "proper_client (\<lambda>k. env_lower E k = k) (hm_appends E) c A" "represents E m A"
  shows "\<exists>w' m'. run_client (requestHeaderMapImpl (httpCApiImpl E) order h) c w =
      (Ok (fst (spec_client c A)), w') \<and> header_view w' (request o') = Ok m' \<and>
    represents E m' (snd (spec_client c A)) \<and> outside w' = outside w"
proof (cases c)
  case (Answer st)
  then show ?thesis using o'(2) c(3) by auto
next
  case (Call x k)
  let ?M = "requestHeaderMapImpl (httpCApiImpl E) order h"
  have x: "is_read x" using c(1) Call by simp
  obtain w1 where w1: "load_headers (httpCApiImpl E) h w = (Ok (go_map (hm_iterate E m)), w1)"
    "headerMaps w1 h = Some (o'\<lparr>headers := Some (go_map (hm_iterate E m))\<rparr>)"
    "tracks E header_view h (request o') A w1"
    using capi.load_fresh [OF o'(1) refl o'(2,3)] c(3) by blast
  have "load_headers (httpCApiImpl E) h w1 = (Ok (go_map (hm_iterate E m)), w1)"
    using w1(2) by (simp add: load_headers_cached)
  then have "call_method ?M x w = call_method ?M x w1"
    using w1(1) by (simp add: call_request impl_read [OF x])
  then have run: "run_client ?M c w = run_client ?M c w1" using Call by simp
  have same: "outside w1 = outside w" using keepsD2 [OF keeps_header_methods(1) refl w1(1)] by simp
  have "header_holds E h (request o') (outside w) A w1"
    using laws w1(3) same by (simp add: header_holds_def)
  from request_headers.client_holds [OF this c(2), of order]
  show ?thesis unfolding run by (auto simp: header_holds_def elim!: tracksE)
qed

subsection \<open>Iteration\<close>

text \<open>The calls of \<open>Range\<close> as a list of pairs, until the function returns false.\<close>

fun each_header ::
    "(string \<Rightarrow> string \<Rightarrow> ('w, bool) go) \<Rightarrow> (string \<times> string) list \<Rightarrow> ('w, unit) go" where
  "each_header f [] = go_return ()"
| "each_header f ((k, v) # es) =
     go_bind (f k v) (\<lambda>more. if more then each_header f es else go_return ())"

lemma range_headers_each:
  assumes f: "\<And>k v w. headerMaps (snd (f k v w)) h = headerMaps w h"
    and c: "\<And>k vs. c k = Some vs \<Longrightarrow> vs \<noteq> []"
  shows "headers_now w h = c \<Longrightarrow> set ks \<subseteq> dom c \<Longrightarrow>
    range_headers h ks f w = each_header f (map (\<lambda>k. (k, hd (the (c k)))) ks) w"
proof (induction ks arbitrary: w)
  case (Cons k ks)
  then obtain vs where vs: "c k = Some vs" by auto
  then obtain v vs' where v: "vs = v # vs'" using c by (cases vs) auto
  show ?case
  proof (cases "f k v w")
    case (Pair r w1)
    have "headers_now w1 h = c" using f [of k v w] Cons.prems(1) Pair by (simp add: headers_now_def)
    then have "range_headers h ks f w1 = each_header f (map (\<lambda>k. (k, hd (the (c k)))) ks) w1"
      using Cons by simp
    then show ?thesis using Pair vs v Cons.prems(1) by (cases r) auto
  qed
qed auto

lemma fresh_Range:
  assumes o': "headerMaps w h = Some o'" "header_view w (request o') = Ok m" "fresh_handle E m o'"
    and f: "\<And>k v w. headerMaps (snd (f k v w)) h = headerMaps w h"
    and order: "set (order (go_map (hm_iterate E m))) = fst ` set (hm_iterate E m)"
  shows "\<exists>w1. headerMapImpl_Range (httpCApiImpl E) h order f w =
    each_header f (map (\<lambda>k. (k, hd (vals k (hm_iterate E m)))) (order (go_map (hm_iterate E m)))) w1 \<and>
    outside w1 = outside w"
proof -
  let ?es = "hm_iterate E m"
  obtain w1 where w1: "load_headers (httpCApiImpl E) h w = (Ok (go_map ?es), w1)"
    "headerMaps w1 h = Some (o'\<lparr>headers := Some (go_map ?es)\<rparr>)"
    using capi.load_fresh [OF o'(1) refl o'(2,3)] by blast
  have c: "vs = vals k ?es" "vs \<noteq> []" if "go_map ?es k = Some vs" for k vs
    using that by (auto simp: go_map_vals split: list.splits)
  have dom: "dom (go_map ?es) = fst ` set ?es"
    using go_map_None_iff [of ?es] vals_eq_Nil_iff [of _ ?es] by (simp add: set_eq_iff domIff)
  have "range_headers h (order (go_map ?es)) f w1 =
    each_header f (map (\<lambda>k. (k, hd (the (go_map ?es k)))) (order (go_map ?es))) w1"
    by (rule range_headers_each [OF f c(2)]) (use w1(2) order dom in \<open>simp_all add: headers_now_def\<close>)
  also have "map (\<lambda>k. (k, hd (the (go_map ?es k)))) (order (go_map ?es)) =
      map (\<lambda>k. (k, hd (vals k ?es))) (order (go_map ?es))"
  proof (rule map_cong [OF refl])
    fix k assume "k \<in> set (order (go_map ?es))"
    then have "k \<in> dom (go_map ?es)" using order dom by simp
    then show "(k, hd (the (go_map ?es k))) = (k, hd (vals k ?es))" using c(1) by force
  qed
  finally show ?thesis
    using w1(1) keepsD2 [OF keeps_header_methods(1) refl w1(1)]
    by (auto simp: headerMapImpl_Range_def)
qed

subsection \<open>Trailers do not provide it\<close>

text \<open>Whatever the object is said to hold: a value that was added is not there, and \<open>Del\<close> panics.\<close>

lemma trailers_are_no_header_map:
  assumes "header_map (requestTrailerMapImpl C h) holds plain appends" "holds A w" "plain k"
  shows False
  using header_map.Del_holds [OF assms] by (simp add: requestTrailerMapImpl_def
      headerTrailerMapImpl_Del_def)

lemma trailer_Add_is_lost:
  "map_Add (requestTrailerMapImpl C h) k v w = (Ok (), w)"
  "map_Add (responseTrailerMapImpl C h) k v w = (Ok (), w)"
  by (simp_all add: requestTrailerMapImpl_def responseTrailerMapImpl_def headerTrailerMapImpl_Add_def)

end
