(* ===== verification/Filter_Interface.thy ===== *)
theory Filter_Interface
  imports Plugin_Config Header_Interface
begin

text \<open>
  Requests as \<^verbatim>\<open>api.FilterCallbacks\<close>, filters that are written against the interfaces, and what the
  headers of a request become when such a filter is called with them: from Envoy's callback through
  the creation of the request and the filter's own code back to Envoy.
\<close>

subsection \<open>Requests as callbacks\<close>

definition dynamicMetadata ::
    "('h, 'b) envoy \<Rightarrow> ('v \<Rightarrow> string + string) \<Rightarrow> bool \<Rightarrow> nat \<Rightarrow>
     (('h, 'b, 'cfg, 'u) world, meta_pc, 'v) DynamicMetadata" where
  "dynamicMetadata E marshal worker d = \<lparr>
     metadata_Get = dynamicMetadata_Get d,
     metadata_Set = dynamicMetadata_Set E marshal worker d\<rparr>"

definition streamInfo ::
    "('h, 'b) envoy \<Rightarrow> ('v \<Rightarrow> string + string) \<Rightarrow> bool \<Rightarrow> nat \<Rightarrow>
     (('h, 'b, 'cfg, 'u) world, meta_pc, 'v) StreamInfo" where
  "streamInfo E marshal worker s = \<lparr>
     info_GetRouteName = streamInfo_GetRouteName (httpCApiImpl E) s,
     info_DynamicMetadata = dynamicMetadata E marshal worker (streamInfo_DynamicMetadata s)\<rparr>"

definition httpRequest_callbacks ::
    "('h, 'b) envoy \<Rightarrow> ('v \<Rightarrow> string + string) \<Rightarrow> bool \<Rightarrow> nat \<Rightarrow>
     (('h, 'b, 'cfg, 'u) world, meta_pc, 'v) FilterCallbackHandler" where
  "httpRequest_callbacks E marshal worker r = \<lparr>
     callbacks_StreamInfo = streamInfo E marshal worker (httpRequest_StreamInfo r),
     callbacks_Continue = httpRequest_Continue (httpCApiImpl E) r,
     callbacks_SendLocalReply = httpRequest_SendLocalReply (httpCApiImpl E) r,
     callbacks_RecoverPanic = RecoverPanic (httpCApiImpl E) recover_fuel r\<rparr>"

text \<open>Once the gate of the request is closed, none of its callbacks does anything but panic.\<close>

lemma closed_callbacks:
  assumes "api_gate w r = Panic p"
  shows "callbacks_Continue (httpRequest_callbacks E marshal worker r) Continue w = (Panic p, w)"
    and "info_GetRouteName (callbacks_StreamInfo (httpRequest_callbacks E marshal worker r)) w =
      (Panic p, w)"
    and "callbacks_SendLocalReply (httpRequest_callbacks E marshal worker r) code body hdrs grpc details w =
      (Panic p, w)"
  using assms
  by (simp_all add: httpRequest_callbacks_def streamInfo_def httpRequest_Continue_def
      httpRequest_StreamInfo_def streamInfo_GetRouteName_def httpRequest_SendLocalReply_def
      impl_HttpContinue_eq impl_HttpSendLocalReply_eq impl_HttpGetRouteName_closed)


subsection \<open>Filters over the interfaces\<close>

text \<open>
  The callbacks hand a filter interface values: a struct of the package's types is converted where it
  is passed.
\<close>

definition interface_filter ::
    "('h, 'b, 'cfg, 'u) world HttpCAPI \<Rightarrow> (gomap \<Rightarrow> string list) \<Rightarrow>
     ('h, 'b, 'cfg, 'u) world HttpDecoderFilter \<Rightarrow> ('h, 'b, 'cfg, 'u) world StreamEncoderFilter \<Rightarrow>
     (int \<Rightarrow> (('h, 'b, 'cfg, 'u) world, unit) go) \<Rightarrow> ('h, 'b, 'cfg, 'u) world HttpFilter" where
  "interface_filter C order d e destroy = \<lparr>
     DecodeHeaders = (\<lambda>h. decoder_Headers d (requestHeaderMapImpl C order h)),
     DecodeData = (\<lambda>b. decoder_Data d (httpBuffer_methods C b)),
     DecodeTrailers = (\<lambda>t. decoder_Trailers d (requestTrailerMapImpl C t)),
     EncodeHeaders = (\<lambda>h. encoder_Headers e (responseHeaderMapImpl C order h)),
     EncodeData = (\<lambda>b. encoder_Data e (httpBuffer_methods C b)),
     EncodeTrailers = (\<lambda>t. encoder_Trailers e (responseTrailerMapImpl C t)),
     OnDestroy = destroy\<rparr>"

text \<open>
  A plugin whose filters work on request headers: for every configuration the factory makes a filter
  over the interfaces whose \<^verbatim>\<open>DecodeHeaders\<close> is the code \<open>code cfg endStream\<close>.
\<close>

definition edits_requests ::
    "('h, 'b, 'cfg, 'u) world HttpCAPI \<Rightarrow> (('h, 'b, 'cfg, 'u) world, 'cfg) plugin \<Rightarrow>
     ('cfg option \<Rightarrow> bool \<Rightarrow> header_client) \<Rightarrow> bool" where
  "edits_requests C P code \<longleftrightarrow> (\<forall>cfg. \<exists>ff. (\<forall>w. httpFilterConfigFactory P cfg w = (Ok (Some ff), w)) \<and>
     (\<forall>rq. \<exists>f order d e destroy. (\<forall>w. ff rq w = (Ok (Some f), w)) \<and>
        http_filter P f = interface_filter C order d e destroy \<and>
        decoder_Headers d = (\<lambda>M eos. run_client M (code cfg eos))))"

text \<open>The sizes Envoy announces with a map are those of its entries, and within a copy's limits.\<close>

definition sized :: "('h, 'b) envoy \<Rightarrow> 'h \<Rightarrow> bool" where
  "sized E m \<longleftrightarrow> unat (hm_size E m) = length (hm_iterate E m) \<and>
     entries_bytes (hm_iterate E m) \<le> unat (hm_byteSize E m) \<and>
     copy_room (hm_size E m) (hm_byteSize E m)"

lemma sized_handle: "sized E m \<Longrightarrow> fresh_handle E m (header_struct rq (hm_size E m) (hm_byteSize E m))"
  by (simp add: sized_def fresh_handle_def header_struct_def)

subsection \<open>The callback for request headers\<close>

lemma createRequest_edits:
  assumes "edits_requests C P code" "Requests w r = None" "creqs (cside w) r = Some cq"
  shows "\<exists>wc f order d e destroy q. createRequest P r w = (Ok (next_ptr w), wc) \<and> cside wc = cside w \<and>
    httpRequests wc (next_ptr w) = Some q \<and> httpFilter q = Some f \<and> \<not> paniced q \<and> req q = r \<and>
    Requests wc = (Requests w)(r \<mapsto> next_ptr w) \<and>
    http_filter P f = interface_filter C order d e destroy \<and>
    decoder_Headers d = (\<lambda>M eos. run_client M (code (configCache w (configId cq)) eos))"
proof -
  obtain ff where ff: "\<And>w'. httpFilterConfigFactory P (configCache w (configId cq)) w' = (Ok (Some ff), w')"
    "\<And>rq. \<exists>f order d e destroy. (\<forall>w. ff rq w = (Ok (Some f), w)) \<and>
        http_filter P f = interface_filter C order d e destroy \<and>
        decoder_Headers d = (\<lambda>M eos. run_client M (code (configCache w (configId cq)) eos))"
    using assms(1) unfolding edits_requests_def by meson
  obtain f order d e destroy where f: "\<And>w'. ff (next_ptr w) w' = (Ok (Some f), w')"
    "http_filter P f = interface_filter C order d e destroy"
    "decoder_Headers d = (\<lambda>M eos. run_client M (code (configCache w (configId cq)) eos))"
    using ff(2) [of "next_ptr w"] by blast
  have "configCache (created r w) = configCache w" "cside (created r w) = cside w"
    "httpRequests (created r w) (next_ptr w) = Some ((httpRequest_new r)\<lparr>finalizer := True\<rparr>)"
    by (simp_all add: created_def put_req_def)
  then show ?thesis
    using assms(2,3) f created_views(4) [of r w]
    by (auto simp: createRequest_after getOrCreateHttpFilterFactory_def configCache_Load_def ff(1)
        httpRequest_new_def)
qed

lemma moeOnHttpHeader_edits:
  assumes laws: "header_laws E" and P: "edits_requests (httpCApiImpl E) P code"
    and r: "Requests w r = None" "creqs (cside w) r = Some cq" "phase cq = DecodeHeaderPhase"
      "weakFilter cq = i"
    and F: "filters (cside w) i = Some F" "headers_ptr F = Some h" "\<not> has_destroyed F"
      "isProcessingInGo (getProcessorState F)"
    and m: "hm_heap (cside w) h = m" "sized E m"
    and c: "c = code (configCache w (configId cq)) e" "first_read c"
      "proper_client (\<lambda>k. env_lower E k = k) (hm_appends E) c (\<lambda>k. vals k (hm_iterate E m))"
      "spec_client c (\<lambda>k. vals k (hm_iterate E m)) = (st, A)"
  shows "\<exists>w2. moeOnHttpHeader (httpCApiImpl E) P r (flag e) (hm_size E m) (hm_byteSize E m) w =
      (Ok (status_to_u64 st), w2) \<and> outside_c (cside w2) = outside_c (cside w) \<and>
    Requests w2 = (Requests w)(r \<mapsto> next_ptr w) \<and> represents E (hm_heap (cside w2) h) A"
proof -
  let ?C = "httpCApiImpl E" and ?rq = "next_ptr w"
  obtain wc f order d e' destroy q where wc: "createRequest P r w = (Ok ?rq, wc)" "cside wc = cside w"
    "httpRequests wc ?rq = Some q" "httpFilter q = Some f" "\<not> paniced q" "req q = r"
    "Requests wc = (Requests w)(r \<mapsto> ?rq)" "http_filter P f = interface_filter ?C order d e' destroy"
    "decoder_Headers d = (\<lambda>M eos. run_client M (code (configCache w (configId cq)) eos))"
    using createRequest_edits [OF P r(1,2)] by metis
  let ?o = "header_struct ?rq (hm_size E m) (hm_byteSize E m)" and ?h = "next_ptr wc"
  obtain w3 where w3: "new_headerMap ?o wc = (Ok ?h, w3)" "headerMaps w3 ?h = Some ?o"
    "cside w3 = cside wc" "httpRequests w3 = httpRequests wc" "Requests w3 = Requests wc"
    by (simp add: new_headerMap_def)
  have o: "request ?o = ?rq" by (simp add: header_struct_def)
  have gate: "api_gate w3 ?rq = Ok (i, F)"
    using wc w3 r F by (simp add: api_gate_def)
  have view: "header_view w3 (request ?o) = Ok m"
    using gate F(2) m(1) w3(3) wc(2) by (simp add: header_view_def o)
  have "represents E m (\<lambda>k. vals k (hm_iterate E m))" by (simp add: represents_def)
  from fresh_client [OF laws w3(2) view sized_handle [OF m(2)] c(2,3) this, of order]
  obtain w4 m' where w4: "run_client (requestHeaderMapImpl ?C order ?h) c w3 = (Ok st, w4)"
    "header_view w4 ?rq = Ok m'" "represents E m' A" "outside w4 = outside w3"
    by (auto simp: c(4) o)
  note out = outside_views [OF w4(4)]
  have "hm_heap (cside w4) h = m'"
  proof -
    have "api_gate w4 ?rq = Ok (i, F)"
      using gate api_gate_cong [OF _ out(2,1), of ?rq] out(5) by simp
    then show ?thesis using w4(2) F(2) by (simp add: header_view_def)
  qed
  moreover have "header_switch P DecodeHeaderPhase ?rq (flag e) (hm_size E m) (hm_byteSize E m) wc =
      (Ok st, w4)"
    using w3(1,4) wc(3,4,8,9) w4(1) c(1)
    by (cases e) (simp_all add: header_switch_def filter_of_def interface_filter_def flag_def)
  moreover have "outside_c (cside w4) = outside_c (cside w)"
    using out wc(2) w3(3) by (simp add: outside_c_def)
  ultimately show ?thesis
    using r(2,3) wc(1,3,5,7) w3(5) w4(3) out(6)
    by (auto simp: moeOnHttpHeader_def)
qed


subsection \<open>The first headers of a stream\<close>

text \<open>The C struct of a new stream.\<close>

definition with_creq ::
    "nat \<Rightarrow> nat \<Rightarrow> u64 \<Rightarrow> ('h, 'b, 'cfg, 'u) world \<Rightarrow> ('h, 'b, 'cfg, 'u) world" where
  "with_creq r i n w = w\<lparr>cside := put_creq r ((httpRequestInternal_new i)\<lparr>configId := n\<rparr>) (cside w)\<rparr>"

lemma with_creq_views [simp]:
  "creqs (cside (with_creq r i n w)) r = Some ((httpRequestInternal_new i)\<lparr>configId := n\<rparr>)"
  "hm_heap (cside (with_creq r i n w)) = hm_heap (cside w)"
  "Requests (with_creq r i n w) = Requests w" "configCache (with_creq r i n w) = configCache w"
  "posted (cside (with_creq r i n w)) = posted (cside w)"
  "envoy_calls (cside (with_creq r i n w)) = envoy_calls (cside w)"
  by (simp_all add: with_creq_def put_creq_def)

lemma same_configs_at:
  "same_configs w (at i F w')" if "same_configs w w'"
  using that by (simp add: same_configs_def at_def put_filter_def)

lemma make_req_first:
  assumes "filter_req F = None" and r: "r = alloc_req H (cside (at i F w))"
    and conf: "\<And>w'. same_configs w w' \<Longrightarrow> mergedConfigId H i enc w' = (Ok n, w')"
  shows "make_req H i enc (at i F w) = (Ok (), at i (F\<lparr>filter_req := Some r\<rparr>) (with_creq r i n w))"
proof -
  let ?G = "F\<lparr>filter_req := Some r\<rparr>"
  let ?w = "w\<lparr>cside := put_creq r (httpRequestInternal_new i) (cside w)\<rparr>"
  have swap: "(at i F w)\<lparr>cside := put_creq r (httpRequestInternal_new i) (cside (at i F w))\<rparr> = at i F ?w"
    by (simp add: at_def put_creq_def put_filter_def)
  have "same_configs w (at i ?G ?w)"
    by (rule same_configs_at) (simp add: same_configs_def put_creq_def)
  then have merged: "mergedConfigId H i enc (at i ?G ?w) = (Ok n, at i ?G ?w)" by (rule conf)
  have upd: "(at i ?G ?w)\<lparr>cside := (cside (at i ?G ?w))\<lparr>creqs := (creqs (cside (at i ?G ?w)))
      (r := map_option (configId_update (\<lambda>_. n)) (creqs (cside (at i ?G ?w)) r))\<rparr>\<rparr> =
      at i ?G (with_creq r i n w)"
    by (simp add: at_def put_filter_def with_creq_def put_creq_def)
  show ?thesis
    unfolding make_req_def go_bind_apply get_filter_at
    using assms(1) swap merged upd by (simp add: r [symmetric])
qed

lemma doHeaders_first:
  assumes r: "r = alloc_req H (cside (at i (set_side enc
      ((side enc F)\<lparr>fstate := ProcessingHeader, do_end_stream := e\<rparr>) F) w))"
    and F: "fstate (side enc F) = WaitingHeader" "isBufferDataEmpty E (side enc F)"
    "filter_req F = None"
    and conf: "\<And>w'. same_configs w w' \<Longrightarrow> mergedConfigId H i enc w' = (Ok n, w')"
  shows "doHeaders E H i enc h e (at i F w) =
    doHeaders E H i enc h e (at i (F\<lparr>filter_req := Some r\<rparr>) (with_creq r i n w))"
proof -
  let ?p = "(side enc F)\<lparr>fstate := ProcessingHeader, do_end_stream := e\<rparr>"
  let ?F = "set_side enc ?p F"
  have req: "set_side enc ?p (F\<lparr>filter_req := Some r\<rparr>) = ?F\<lparr>filter_req := Some r\<rparr>"
    by (simp add: set_side_def)
  have "make_req H i enc (at i ?F w) = (Ok (), at i (?F\<lparr>filter_req := Some r\<rparr>) (with_creq r i n w))"
    by (rule make_req_first [OF _ r conf]) (simp add: F(3))
  moreover have "make_req H i enc (at i (?F\<lparr>filter_req := Some r\<rparr>) (with_creq r i n w)) =
      (Ok (), at i (?F\<lparr>filter_req := Some r\<rparr>) (with_creq r i n w))"
    by (rule make_req_at) simp
  ultimately have "doHeadersGo E H i enc h e (at i ?F w) =
      doHeadersGo E H i enc h e (at i (?F\<lparr>filter_req := Some r\<rparr>) (with_creq r i n w))"
    by (simp add: doHeadersGo_def)
  then show ?thesis
    using F by (simp add: doHeaders_def processHeader_def req isBufferDataEmpty_def)
qed


text \<open>The state in which Go meets the first headers of a stream, and what \<open>decodeHeaders\<close> makes of its answer.\<close>

definition first_request :: "bool \<Rightarrow> nat \<Rightarrow> nat \<Rightarrow> 'b Filter \<Rightarrow> 'b Filter" where
  "first_request e h r F = header_filter False e h
     ((set_side False ((side False F)\<lparr>end_stream := e\<rparr>) F)\<lparr>filter_req := Some r\<rparr>)"

definition first_id ::
    "('h, 'b, 'cfg, 'u) stream_host \<Rightarrow> nat \<Rightarrow> bool \<Rightarrow> 'b Filter \<Rightarrow> ('h, 'b, 'cfg, 'u) world \<Rightarrow> nat" where
  "first_id H i e F w = alloc_req H (cside (at i (set_side False ((side False F)
     \<lparr>end_stream := e, fstate := ProcessingHeader, do_end_stream := e\<rparr>) F) w))"

lemma first_id_plugin [simp]: "first_id (with_plugin C P H) i e F w = first_id H i e F w"
  by (simp add: first_id_def with_plugin_def)

lemma first_id_new: "\<forall>c. Requests w (alloc_req H c) = None \<Longrightarrow> Requests w (first_id H i e F w) = None"
  by (simp add: first_id_def)

lemma first_request_simps [simp]:
  "side False (first_request e h r F) =
     (side False F)\<lparr>end_stream := e, fstate := ProcessingHeader, do_end_stream := e\<rparr>"
  "side True (first_request e h r F) = side True F"
  "filter_req (first_request e h r F) = Some r" "headers_ptr (first_request e h r F) = Some h"
  "has_destroyed (first_request e h r F) = has_destroyed F"
  "enter_encoding (first_request e h r F) = enter_encoding F"
  "local_reply_waiting_go (first_request e h r F) = local_reply_waiting_go F"
  by (simp_all add: first_request_def header_filter_def side_def set_side_def)

lemma decodeHeaders_first:
  assumes F: "filters (cside w) i = Some F" "filter_req F = None"
      "fstate (side False F) = WaitingHeader" "isBufferDataEmpty E (side False F)" "has_dynamicLib H"
    and conf: "\<And>w'. same_configs w w' \<Longrightarrow> mergedConfigId H i False w' = (Ok n, w')"
    and r: "r = first_id H i e F w" and q: "q = (httpRequestInternal_new i)\<lparr>configId := n\<rparr>"
    and lib: "lib_moeOnHttpHeader H r (flag e) (hm_size E (hm_heap (cside w) h))
      (hm_byteSize E (hm_heap (cside w) h))
      (at i (first_request e h r F) (with_phase r q DecodeHeaderPhase (with_creq r i n w))) = (Ok st, w3)"
      "filters (cside w3) i = Some (first_request e h r F)"
  shows "decodeHeaders E H i h e w =
    (let status = golangStatus (c_int st); G = first_request e h r F;
         G' = set_side False (snd (handleHeaderGolangStatus status (side False G))) G
     in (Ok (status = GContinue), at i (if status = GContinue then G'\<lparr>headers_ptr := None\<rparr> else G') w3))"
proof -
  define F0 where "F0 = set_side False ((side False F)\<lparr>end_stream := e\<rparr>) F"
  define F1 where "F1 = F0\<lparr>filter_req := Some r\<rparr>"
  define w1 where "w1 = with_creq r i n w"
  have G: "first_request e h r F = header_filter False e h F1"
    by (simp add: first_request_def F1_def F0_def)
  have F0: "fstate (side False F0) = WaitingHeader" "isBufferDataEmpty E (side False F0)"
    "filter_req F0 = None"
    using F by (simp_all add: F0_def isBufferDataEmpty_def)
  have "decodeHeaders E H i h e (at i F w) = doHeaders E H i False h e (at i F0 w)"
    using F(5) by (simp add: decodeHeaders_def F0_def)
  also have "\<dots> = doHeaders E H i False h e (at i F1 w1)"
    unfolding F1_def w1_def
    by (rule doHeaders_first [OF _ F0 conf]) (simp_all add: r first_id_def F0_def)
  finally have run: "decodeHeaders E H i h e w = doHeaders E H i False h e (at i F1 w1)"
    by (simp add: at_self [OF F(1)])
  have F1: "fstate (side False F1) = WaitingHeader" "isBufferDataEmpty E (side False F1)"
    "filter_req F1 = Some r"
    using F0 by (simp_all add: F1_def)
  have cq: "creqs (cside w1) r = Some q" by (simp add: w1_def q)
  have lib': "lib_moeOnHttpHeader H r (flag e) (hm_size E (hm_heap (cside w1) h))
      (hm_byteSize E (hm_heap (cside w1) h))
      (at i (header_filter False e h F1) (with_phase r q (header_phase False) w1)) = (Ok st, w3)"
    using lib(1) by (simp add: w1_def G header_phase_def)
  have w3: "filters (cside w3) i = Some (header_filter False e h F1)"
    "fstate (side False (header_filter False e h F1)) = ProcessingHeader"
    using lib(2) by (simp_all add: G header_filter_def)
  show ?thesis
    unfolding run doHeaders_at [OF F1 cq lib' w3] by (simp add: G Let_def)
qed

lemma edited_headers:
  assumes laws: "header_laws E" and P: "edits_requests (httpCApiImpl E) P code"
    and F: "filters (cside w) i = Some F" "filter_req F = None" "\<not> has_destroyed F"
      "\<not> enter_encoding F" "fstate (side False F) = WaitingHeader" "isBufferDataEmpty E (side False F)"
    and conf: "\<forall>w'. same_configs w w' \<longrightarrow> mergedConfigId H i False w' = (Ok n, w')"
    and new: "\<forall>c. Requests w (alloc_req H c) = None"
    and m: "sized E (hm_heap (cside w) h)"
    and c: "c = code (configCache w n) e" "first_read c"
      "proper_client (\<lambda>k. env_lower E k = k) (hm_appends E) c
        (\<lambda>k. vals k (hm_iterate E (hm_heap (cside w) h)))"
      "spec_client c (\<lambda>k. vals k (hm_iterate E (hm_heap (cside w) h))) = (st, A)"
  shows "\<exists>w'. decodeHeaders E (with_plugin (httpCApiImpl E) P H) i h e w =
      (Ok (golangStatus (c_int (status_to_u64 st)) = GContinue), w') \<and>
    represents E (hm_heap (cside w') h) A \<and> posted (cside w') = posted (cside w) \<and>
    envoy_calls (cside w') = envoy_calls (cside w)"
proof -
  let ?H = "with_plugin (httpCApiImpl E) P H" and ?m = "hm_heap (cside w) h"
  define r where "r = first_id ?H i e F w"
  define q where "q = (httpRequestInternal_new i)\<lparr>configId := n\<rparr>"
  define G where "G = first_request e h r F"
  let ?w2 = "at i G (with_phase r q DecodeHeaderPhase (with_creq r i n w))"
  have G: "headers_ptr G = Some h" "\<not> has_destroyed G" "isProcessingInGo (getProcessorState G)"
    using F(3,4) by (simp_all add: G_def isProcessingInGo_def getProcessorState_def
        side_cases [symmetric])
  have Q: "phase (q\<lparr>phase := DecodeHeaderPhase\<rparr>) = DecodeHeaderPhase"
    "weakFilter (q\<lparr>phase := DecodeHeaderPhase\<rparr>) = i" "configId (q\<lparr>phase := DecodeHeaderPhase\<rparr>) = n"
    by (simp_all add: q_def httpRequestInternal_new_def)
  have w2: "Requests ?w2 r = None" "hm_heap (cside ?w2) h = ?m" "configCache ?w2 n = configCache w n"
    "posted (cside ?w2) = posted (cside w)" "envoy_calls (cside ?w2) = envoy_calls (cside w)"
    "creqs (cside ?w2) r = Some (q\<lparr>phase := DecodeHeaderPhase\<rparr>)" "filters (cside ?w2) i = Some G"
    using new by (simp_all add: r_def first_id_new) (simp add: at_def with_phase_def with_creq_def)
  obtain w3 where w3: "moeOnHttpHeader (httpCApiImpl E) P r (flag e) (hm_size E ?m) (hm_byteSize E ?m) ?w2 =
      (Ok (status_to_u64 st), w3)" "outside_c (cside w3) = outside_c (cside ?w2)"
    "represents E (hm_heap (cside w3) h) A"
    using moeOnHttpHeader_edits [OF laws P w2(1,6) Q(1,2) w2(7) G w2(2) m _ c(2-4)] c(1) Q(3) w2(3)
    by auto
  have G3: "filters (cside w3) i = Some G" "posted (cside w3) = posted (cside w)"
    "envoy_calls (cside w3) = envoy_calls (cside w)"
    using w3(2) w2(4,5,7) by (simp_all add: outside_c_def)
  have "decodeHeaders E ?H i h e w =
    (let status = golangStatus (c_int (status_to_u64 st)); G = first_request e h r F;
         G' = set_side False (snd (handleHeaderGolangStatus status (side False G))) G
     in (Ok (status = GContinue), at i (if status = GContinue then G'\<lparr>headers_ptr := None\<rparr> else G') w3))"
    by (rule decodeHeaders_first [OF F(1,2,5,6) _ _ r_def q_def])
      (use conf w3(1) G3(1) in \<open>simp_all add: with_plugin_def G_def\<close>)
  then show ?thesis using w3(3) G3 by (simp add: Let_def)
qed

end
