(* ===== verification/Stream_Continue.thy ===== *)
theory Stream_Continue
  imports Stream_Runs
begin

text \<open>
  What a posted continuation leads to, for any plugin: the buffer of the filter itself is handed to Go,
  or the data that Go has let go is injected into the filter chain.
\<close>

subsection \<open>The buffer of the filter itself\<close>

text \<open>What \<open>doDataGo\<close> does with \<^verbatim>\<open>data_buffer_\<close>.\<close>

definition own_state ::
    "('h, 'b) envoy \<Rightarrow> u64 \<Rightarrow> 'b \<Rightarrow> bool \<Rightarrow> 'b ProcessorState \<Rightarrow> 'b ProcessorState" where
  "own_state E a d e p = (data_state E a d e p)\<lparr>data_buffer := Some (snd (bi_move E (bi_new E) d))\<rparr>"

lemma own_state_simps [simp]:
  "fstate (own_state E a d e p) = ProcessingData" "seen_trailers (own_state E a d e p) = seen_trailers p"
  "end_stream (own_state E a d e p) = end_stream p" "do_end_stream (own_state E a d e p) = e"
  "doDataList (own_state E a d e p) = snd (push E a d (doDataList p))"
  by (simp_all add: own_state_def data_state_def)

lemma own_state_empty: "buffer_laws E \<Longrightarrow> isBufferDataEmpty E (own_state E a d e p)"
  by (simp add: own_state_def isBufferDataEmpty_def buffer_lawsD)

lemma doBufferedData_at:
  assumes quiet: "no_watermark H"
    and F: "fstate (side enc F) = WaitingData \<or>
      fstate (side enc F) = WaitingAllData \<and> (e \<or> seen_trailers (side enc F))"
      "data_buffer (side enc F) = Some d" "filter_req F = Some r"
    and cq: "creqs (cside w) r = Some cq"
    and a: "alloc_buf H (cside (at i (set_side enc ((side enc F)\<lparr>fstate := ProcessingData,
      do_end_stream := e\<rparr>) F) w)) = a"
    and lib: "lib_moeOnHttpData H r (flag e) a (bi_length E (fst (bi_move E (bi_new E) d)))
      (at i (set_side enc (own_state E a d e (side enc F)) F) (with_phase r cq (data_phase enc) w)) =
      (Ok st, w2)"
    and w2: "filters (cside w2) i = Some F2"
    and p: "handleDataGolangStatus E (golangStatus (c_int st)) (side enc F2) = (Ok go_on, p)"
  shows "doBufferedData E H i enc e (at i F w) = (Ok go_on, at i (set_side enc p F2) w2)"
proof -
  let ?D = "set_side enc (own_state E a d e (side enc F)) F"
  have ph: "side_phase enc ?D = data_phase enc" by (simp add: side_phase_data own_state_def data_state_def)
  have w2': "w2 = at i F2 w2" by (rule at_self [OF w2, symmetric])
  have push: "fst (push E a d q) = snd (bi_move E (bi_new E) d)" for q
    by (simp add: push_def Let_def case_prod_unfold)
  have pdata: "processData e (side enc F) =
      (Ok (), (side enc F)\<lparr>fstate := ProcessingData, do_end_stream := e\<rparr>)"
    using F(1) by (auto simp: processData_def)
  have "doDataGo E H i enc True d e (at i F w) =
    go_bind (lib_moeOnHttpData H r (flag e) a (bi_length E (fst (bi_move E (bi_new E) d)))) (\<lambda>status.
     go_bind (on_side i enc (handleDataGolangStatus E (golangStatus (c_int status)))) (\<lambda>is_done.
       go_return (is_done, snd (bi_move E (bi_new E) d))))
     (at i ?D (with_phase r cq (data_phase enc) w))"
    unfolding doDataGo_def using F(3) cq a ph
    by (simp add: pdata push own_state_def data_state_def set_phase_at last_push case_prod_unfold
        shrinking_at [OF quiet])
  also have "\<dots> = go_bind (on_side i enc (handleDataGolangStatus E (golangStatus (c_int st)))) (\<lambda>is_done.
       go_return (is_done, snd (bi_move E (bi_new E) d))) (at i F2 w2)"
    using lib w2' by simp
  finally show ?thesis using p F(2) by (simp add: doBufferedData_def)
qed

lemma running_keeps:
  "fstate p = ProcessingData \<Longrightarrow> handleDataGolangStatus E GRunning p = (Ok False, p)"
  by (simp add: handleDataGolangStatus_def)

subsection \<open>The continuation\<close>

text \<open>An Envoy that does not call the filter back when it is handed data.\<close>

definition takes_data :: "('h, 'b, 'w) host \<Rightarrow> bool" where
  "takes_data H \<longleftrightarrow> (\<forall>enc d e. react H (InjectCall enc d e) = go_return ())"

definition calling :: "'b envoy_call \<Rightarrow> ('h, 'b, 'cfg, 'u) world \<Rightarrow> ('h, 'b, 'cfg, 'u) world" where
  "calling c w = w\<lparr>cside := (cside w)\<lparr>envoy_calls := envoy_calls (cside w) @ [c]\<rparr>\<rparr>"

lemma calling_simps [simp]:
  "envoy_calls (cside (calling c w)) = envoy_calls (cside w) @ [c]"
  "posted (cside (calling c w)) = posted (cside w)" "creqs (cside (calling c w)) = creqs (cside w)"
  "filters (cside (calling c w)) = filters (cside w)" "hm_heap (cside (calling c w)) = hm_heap (cside w)"
  "Requests (calling c w) = Requests w" "httpRequests (calling c w) = httpRequests w"
  "ustate (calling c w) = ustate w"
  by (simp_all add: calling_def)

lemma calling_at: "calling c (at i F w) = at i F (calling c w)"
  by (simp add: calling_def at_def put_filter_def)

lemma continue_injects:
  assumes laws: "buffer_laws E" and quiet: "takes_data H"
    and F: "\<not> has_destroyed F" "\<not> local_reply_waiting_go F" "enter_encoding F = enc"
      "fstate (side enc F) = ProcessingData" "do_end_stream (side enc F)"
      "end_stream (side enc F)" "\<not> seen_trailers (side enc F)"
  shows "\<exists>d p. run_closure E H i (PostContinue GContinue) (at i F w) =
      (Ok (), at i (set_side enc p F) (calling (InjectCall enc d True) w)) \<and>
    bi_bytes E d = list_bytes E (doDataList (side enc F)) \<and> fstate p = Done"
proof -
  let ?p = "(side enc F)\<lparr>fstate := Done\<rparr>"
  let ?m = "moveOut E (bi_new E) (doDataList (side enc F))"
  let ?p' = "?p\<lparr>doDataList := snd ?m\<rparr>"
  let ?w' = "at i (set_side enc ?p' F) (calling (InjectCall enc (fst ?m) True) w)"
  have handle: "handleGolangStatus E GContinue (side enc F) = (Ok True, ?p)"
    using F by (simp add: handleGolangStatus_def isProcessingInGo_def handleDataGolangStatus_def
        see_trailers_def)
  have data: "continue_data E H i enc (at i (set_side enc ?p F) w) = (Ok (), ?w')"
    using F quiet by (simp add: continue_data_def continueDoData_def case_prod_unfold Let_def
        call_envoy_def takes_data_def calling_at [symmetric]) (simp add: calling_def)
  have "continue_state E H i enc GContinue (at i F w) = (Ok (), ?w')"
    unfolding continue_state_def using F by (simp add: handle data split: option.split)
  then have "run_closure E H i (PostContinue GContinue) (at i F w) = (Ok (), ?w')"
    using F by (simp add: run_closure_def live_filter_def continueStatusInternal_def)
  moreover have "bi_bytes E (fst ?m) = list_bytes E (doDataList (side enc F))"
    by (simp add: moveOut_bytes [OF laws] buffer_lawsD [OF laws])
  ultimately show ?thesis
    by (intro exI [of _ "fst ?m"] exI [of _ ?p']) simp
qed

lemma post_at: "(at i F w)\<lparr>cside := post j e (cside (at i F w))\<rparr> = at i F (w\<lparr>cside := post j e (cside w)\<rparr>)"
  by (simp add: at_def put_filter_def post_def)

lemma continue_event_eq: "continue_event = PostContinue GContinue"
  unfolding continue_event_def golangStatus_of_status ..

end
