(* ===== verification/Buffered.thy ===== *)
theory Buffered
  imports Lifecycle
begin

text \<open>
  \<^verbatim>\<open>pkg/http/buffered\<close>: an adapter that keeps headers and body back until the message is complete
  and then runs a user's filter on the whole message in a goroutine of its own. The adapter is a
  plugin like any other; its objects and the goroutines it has started live in the users' part of
  the state. The locale \<open>buffering\<close> is the contract both directions follow. The sample filter of
  \<^verbatim>\<open>samples/buffered\<close> is the user's filter of one of the properties.
\<close>

subsection \<open>The interfaces of a buffered filter\<close>

record 'w buffered_HttpFilter =
  Decode :: "nat option \<Rightarrow> nat option \<Rightarrow> nat option \<Rightarrow> ('w, unit) go"
  Encode :: "nat option \<Rightarrow> nat option \<Rightarrow> nat option \<Rightarrow> ('w, unit) go"

record ('w, 'cfg) buffered_user =
  buffered_httpFilterConfigFactory :: "'cfg option \<Rightarrow> ('w, 'w HttpFilterFactory option) go"
  buffered_filter :: "nat \<Rightarrow> 'w buffered_HttpFilter"

subsection \<open>The adapter\<close>

text \<open>The field \<^verbatim>\<open>config\<close> of the struct is never set. A nil interface is \<open>None\<close>.\<close>

record bufferedFilter =
  bf_callbacks :: nat
  reqHeader :: "nat option"
  reqData :: "nat option"
  rspHeader :: "nat option"
  rspData :: "nat option"
  bf_filter :: "nat option"

text \<open>A goroutine that was started, with the variables its function captured.\<close>

datatype goroutine =
    RunDecode nat "nat option" "nat option" "nat option"
  | RunEncode nat "nat option" "nat option" "nat option"

record 'v buffered_state =
  bufferedFilters :: "nat \<Rightarrow> bufferedFilter option"
  goroutines :: "goroutine list"
  user_state :: 'v

type_synonym ('h, 'b, 'cfg, 'v) bworld = "('h, 'b, 'cfg, 'v buffered_state) world"

definition buffered_objs :: "('h, 'b, 'cfg, 'v) bworld \<Rightarrow> nat \<Rightarrow> bufferedFilter option" where
  "buffered_objs w = bufferedFilters (ustate w)"

definition on_buf ::
    "(bufferedFilter \<Rightarrow> bufferedFilter) \<Rightarrow> nat \<Rightarrow> (('h, 'b, 'cfg, 'v) bworld, unit) go" where
  "on_buf f bf = go_bind (deref buffered_objs bf) (\<lambda>o'. go_modify (\<lambda>w. w\<lparr>ustate := (ustate w)
     \<lparr>bufferedFilters := (bufferedFilters (ustate w))(bf \<mapsto> f o')\<rparr>\<rparr>))"

definition go_stmt :: "goroutine \<Rightarrow> (('h, 'b, 'cfg, 'v) bworld, unit) go" where
  "go_stmt t = go_modify (\<lambda>w. w\<lparr>ustate := (ustate w)\<lparr>goroutines := goroutines (ustate w) @ [t]\<rparr>\<rparr>)"

definition runDecode ::
    "nat \<Rightarrow> nat option \<Rightarrow> nat option \<Rightarrow> nat option \<Rightarrow> (('h, 'b, 'cfg, 'v) bworld, unit) go" where
  "runDecode f header data trailer = go_stmt (RunDecode f header data trailer)"

definition runEncode ::
    "nat \<Rightarrow> nat option \<Rightarrow> nat option \<Rightarrow> nat option \<Rightarrow> (('h, 'b, 'cfg, 'v) bworld, unit) go" where
  "runEncode f header data trailer = go_stmt (RunEncode f header data trailer)"

definition bufferedFilter_DecodeHeaders ::
    "nat \<Rightarrow> nat \<Rightarrow> bool \<Rightarrow> (('h, 'b, 'cfg, 'v) bworld, StatusType) go" where
  "bufferedFilter_DecodeHeaders f header endStream =
     (if endStream then go_then (runDecode f (Some header) None None) (go_return Running)
      else go_then (on_buf (reqHeader_update (\<lambda>_. Some header)) f) (go_return StopAndBuffer))"

definition bufferedFilter_DecodeData ::
    "nat \<Rightarrow> nat \<Rightarrow> bool \<Rightarrow> (('h, 'b, 'cfg, 'v) bworld, StatusType) go" where
  "bufferedFilter_DecodeData f buffer endStream =
     (if endStream then
        go_bind (deref buffered_objs f) (\<lambda>o'. go_then (runDecode f (reqHeader o') (Some buffer) None)
          (go_return Running))
      else go_then (on_buf (reqData_update (\<lambda>_. Some buffer)) f) (go_return StopAndBuffer))"

definition bufferedFilter_DecodeTrailers ::
    "nat \<Rightarrow> nat \<Rightarrow> (('h, 'b, 'cfg, 'v) bworld, StatusType) go" where
  "bufferedFilter_DecodeTrailers f trailers =
     go_bind (deref buffered_objs f) (\<lambda>o'. go_then (runDecode f (reqHeader o') (reqData o') (Some trailers))
       (go_return Running))"

definition bufferedFilter_EncodeHeaders ::
    "nat \<Rightarrow> nat \<Rightarrow> bool \<Rightarrow> (('h, 'b, 'cfg, 'v) bworld, StatusType) go" where
  "bufferedFilter_EncodeHeaders f header endStream =
     (if endStream then go_then (runEncode f (Some header) None None) (go_return Running)
      else go_then (on_buf (rspHeader_update (\<lambda>_. Some header)) f) (go_return StopAndBuffer))"

definition bufferedFilter_EncodeData ::
    "nat \<Rightarrow> nat \<Rightarrow> bool \<Rightarrow> (('h, 'b, 'cfg, 'v) bworld, StatusType) go" where
  "bufferedFilter_EncodeData f buffer endStream =
     (if endStream then
        go_bind (deref buffered_objs f) (\<lambda>o'. go_then (runEncode f (rspHeader o') (Some buffer) None)
          (go_return Running))
      else go_then (on_buf (rspData_update (\<lambda>_. Some buffer)) f) (go_return StopAndBuffer))"

definition bufferedFilter_EncodeTrailers ::
    "nat \<Rightarrow> nat \<Rightarrow> (('h, 'b, 'cfg, 'v) bworld, StatusType) go" where
  "bufferedFilter_EncodeTrailers f trailers =
     go_bind (deref buffered_objs f) (\<lambda>o'. go_then (runEncode f (rspHeader o') (rspData o') (Some trailers))
       (go_return Running))"

definition bufferedFilter_OnDestroy :: "nat \<Rightarrow> int \<Rightarrow> (('h, 'b, 'cfg, 'v) bworld, unit) go" where
  "bufferedFilter_OnDestroy f reason = go_return ()"

definition bufferedFilter_methods :: "nat \<Rightarrow> ('h, 'b, 'cfg, 'v) bworld HttpFilter" where
  "bufferedFilter_methods f = \<lparr>
     DecodeHeaders = bufferedFilter_DecodeHeaders f,
     DecodeData = bufferedFilter_DecodeData f,
     DecodeTrailers = bufferedFilter_DecodeTrailers f,
     EncodeHeaders = bufferedFilter_EncodeHeaders f,
     EncodeData = bufferedFilter_EncodeData f,
     EncodeTrailers = bufferedFilter_EncodeTrailers f,
     OnDestroy = bufferedFilter_OnDestroy f\<rparr>"

text \<open>\<^verbatim>\<open>&bufferedFilter{callbacks: callbacks, filter: filter}\<close>\<close>

definition new_bufferedFilter ::
    "bufferedFilter \<Rightarrow> (('h, 'b, 'cfg, 'v) bworld, nat) go" where
  "new_bufferedFilter o' = (\<lambda>w. (Ok (next_ptr w), w\<lparr>next_ptr := Suc (next_ptr w),
     ustate := (ustate w)\<lparr>bufferedFilters := (bufferedFilters (ustate w))(next_ptr w \<mapsto> o')\<rparr>\<rparr>))"

definition configFactory ::
    "(('h, 'b, 'cfg, 'v) bworld, 'cfg) buffered_user \<Rightarrow> 'cfg option \<Rightarrow>
     (('h, 'b, 'cfg, 'v) bworld, ('h, 'b, 'cfg, 'v) bworld HttpFilterFactory option) go" where
  "configFactory U config = go_return (Some (\<lambda>callbacks.
     go_bind (buffered_httpFilterConfigFactory U config) (\<lambda>ff.
     go_bind (not_nil ff) (\<lambda>ff.
     go_bind (ff callbacks) (\<lambda>f.
     go_bind (new_bufferedFilter \<lparr>bf_callbacks = callbacks, reqHeader = None, reqData = None,
         rspHeader = None, rspData = None, bf_filter = f\<rparr>) (\<lambda>b.
       go_return (Some b)))))))"

text \<open>The plugin after \<^verbatim>\<open>buffered.RegisterHttpFilterConfigFactory\<close>.\<close>

definition buffered_plugin ::
    "(('h, 'b, 'cfg, 'v) bworld, 'cfg) buffered_user \<Rightarrow> (('h, 'b, 'cfg, 'v) bworld, 'cfg) plugin" where
  "buffered_plugin U = (RegisterHttpFilterConfigFactory (configFactory U) default_plugin)
     \<lparr>http_filter := bufferedFilter_methods\<rparr>"

text \<open>
  The body of a goroutine. The callbacks and the user's filter of the object are set when it is
  made and never again.
\<close>

definition run_buffered ::
    "('h, 'b, 'cfg, 'v) bworld HttpCAPI \<Rightarrow> bufferedFilter \<Rightarrow>
     (('h, 'b, 'cfg, 'v) bworld, unit) go \<Rightarrow> (('h, 'b, 'cfg, 'v) bworld, unit) go" where
  "run_buffered C o' call = go_recover ()
     (go_then call (httpRequest_Continue C (bf_callbacks o') Continue))
     (RecoverPanic C recover_fuel (bf_callbacks o'))"

definition run_goroutine ::
    "('h, 'b, 'cfg, 'v) bworld HttpCAPI \<Rightarrow> (('h, 'b, 'cfg, 'v) bworld, 'cfg) buffered_user \<Rightarrow>
     goroutine \<Rightarrow> (('h, 'b, 'cfg, 'v) bworld, unit) go" where
  "run_goroutine C U t = (case t of
      RunDecode bf header data trailer \<Rightarrow> go_bind (deref buffered_objs bf) (\<lambda>o'. run_buffered C o'
        (go_bind (not_nil (bf_filter o')) (\<lambda>f. Decode (buffered_filter U f) header data trailer)))
    | RunEncode bf header data trailer \<Rightarrow> go_bind (deref buffered_objs bf) (\<lambda>o'. run_buffered C o'
        (go_bind (not_nil (bf_filter o')) (\<lambda>f. Encode (buffered_filter U f) header data trailer))))"

subsection \<open>One direction of a stream\<close>

datatype part = Headers nat bool | Data nat bool | Trailers nat

fun decode_part :: "nat \<Rightarrow> part \<Rightarrow> (('h, 'b, 'cfg, 'v) bworld, StatusType) go" where
  "decode_part f (Headers h e) = bufferedFilter_DecodeHeaders f h e"
| "decode_part f (Data d e) = bufferedFilter_DecodeData f d e"
| "decode_part f (Trailers t) = bufferedFilter_DecodeTrailers f t"

fun encode_part :: "nat \<Rightarrow> part \<Rightarrow> (('h, 'b, 'cfg, 'v) bworld, StatusType) go" where
  "encode_part f (Headers h e) = bufferedFilter_EncodeHeaders f h e"
| "encode_part f (Data d e) = bufferedFilter_EncodeData f d e"
| "encode_part f (Trailers t) = bufferedFilter_EncodeTrailers f t"

fun feed :: "(part \<Rightarrow> ('s, StatusType) go) \<Rightarrow> part list \<Rightarrow> ('s, StatusType list) go" where
  "feed p [] = go_return []"
| "feed p (x # xs) = go_bind (p x) (\<lambda>s. go_bind (feed p xs) (\<lambda>ss. go_return (s # ss)))"

text \<open>The parts of a message with the given headers, buffers and trailers, as Envoy delivers it.\<close>

definition message :: "nat \<Rightarrow> nat list \<Rightarrow> nat option \<Rightarrow> part list" where
  "message h ds t = (case t of
      Some t \<Rightarrow> Headers h False # map (\<lambda>d. Data d False) ds @ [Trailers t]
    | None \<Rightarrow> if ds = [] then [Headers h True]
        else Headers h False # map (\<lambda>d. Data d False) (butlast ds) @ [Data (last ds) True])"

definition last_data :: "nat list \<Rightarrow> nat option" where
  "last_data ds = (if ds = [] then None else Some (last ds))"

text \<open>
  What a direction promises: a part that does not end the message is stored, the one that ends it
  starts a goroutine on what is stored.
\<close>

locale buffering =
  fixes part :: "part \<Rightarrow> ('s, StatusType) go"
    and stored :: "'s \<Rightarrow> (nat option \<times> nat option) option"
    and tasks :: "'s \<Rightarrow> 't list"
    and task :: "nat option \<Rightarrow> nat option \<Rightarrow> nat option \<Rightarrow> 't"
    and same :: "'s \<Rightarrow> 's \<Rightarrow> bool"
  assumes header_kept: "stored w = Some (h0, d0) \<Longrightarrow>
      \<exists>w'. part (Headers h False) w = (Ok StopAndBuffer, w') \<and> stored w' = Some (Some h, d0) \<and>
        tasks w' = tasks w \<and> same w w'"
    and data_kept: "stored w = Some (h0, d0) \<Longrightarrow>
      \<exists>w'. part (Data d False) w = (Ok StopAndBuffer, w') \<and> stored w' = Some (h0, Some d) \<and>
        tasks w' = tasks w \<and> same w w'"
    and header_ends: "stored w = Some (h0, d0) \<Longrightarrow>
      \<exists>w'. part (Headers h True) w = (Ok Running, w') \<and>
        tasks w' = tasks w @ [task (Some h) None None] \<and> same w w'"
    and data_ends: "stored w = Some (h0, d0) \<Longrightarrow>
      \<exists>w'. part (Data d True) w = (Ok Running, w') \<and>
        tasks w' = tasks w @ [task h0 (Some d) None] \<and> same w w'"
    and trailers_end: "stored w = Some (h0, d0) \<Longrightarrow>
      \<exists>w'. part (Trailers t) w = (Ok Running, w') \<and>
        tasks w' = tasks w @ [task h0 d0 (Some t)] \<and> same w w'"
    and same_trans: "same w w' \<Longrightarrow> same w' w'' \<Longrightarrow> same w w''"
begin

lemma data_all_kept:
  assumes "stored w = Some (h0, d0)"
    and last: "\<And>w'. stored w' = Some (h0, if ds = [] then d0 else Some (last ds)) \<Longrightarrow>
      \<exists>w''. part p w' = (Ok Running, w'') \<and>
        tasks w'' = tasks w' @ [g (if ds = [] then d0 else Some (last ds))] \<and> same w' w''"
  shows "\<exists>w'. feed part (map (\<lambda>d. Data d False) ds @ [p]) w =
      (Ok (replicate (length ds) StopAndBuffer @ [Running]), w') \<and>
    tasks w' = tasks w @ [g (if ds = [] then d0 else Some (last ds))] \<and> same w w'"
  using assms
proof (induction ds arbitrary: w d0)
  case Nil
  then show ?case by fastforce
next
  case (Cons d ds)
  obtain w1 where w1: "part (Data d False) w = (Ok StopAndBuffer, w1)"
      "stored w1 = Some (h0, Some d)" "tasks w1 = tasks w" "same w w1"
    using data_kept [OF Cons.prems(1)] by blast
  have eq: "(if ds = [] then Some d else Some (last ds)) =
      (if d # ds = [] then d0 else Some (last (d # ds)))" by simp
  obtain w2 where "feed part (map (\<lambda>d. Data d False) ds @ [p]) w1 =
      (Ok (replicate (length ds) StopAndBuffer @ [Running]), w2)"
      "tasks w2 = tasks w1 @ [g (if d # ds = [] then d0 else Some (last (d # ds)))]" "same w1 w2"
    using Cons.IH [OF w1(2)] Cons.prems(2) unfolding eq by blast
  with w1 show ?case by (auto intro: same_trans)
qed

text \<open>A whole message starts one goroutine, with its last part.\<close>

lemma message_once:
  assumes "stored w = Some (h0, None)"
  shows "\<exists>w'. feed part (message h ds t) w =
      (Ok (replicate (length (message h ds t) - 1) StopAndBuffer @ [Running]), w') \<and>
    tasks w' = tasks w @ [task (Some h) (last_data ds) t] \<and> same w w'"
proof -
  obtain w1 where w1: "part (Headers h False) w = (Ok StopAndBuffer, w1)"
      "stored w1 = Some (Some h, None)" "tasks w1 = tasks w" "same w w1"
    using header_kept [OF assms] by blast
  show ?thesis
  proof (cases t)
    case (Some t')
    have "\<exists>w'. feed part (map (\<lambda>d. Data d False) ds @ [Trailers t']) w1 =
        (Ok (replicate (length ds) StopAndBuffer @ [Running]), w') \<and>
      tasks w' = tasks w1 @ [task (Some h) (if ds = [] then None else Some (last ds)) (Some t')] \<and>
      same w1 w'"
      by (rule data_all_kept [OF w1(2)], rule trailers_end)
    with w1 Some show ?thesis by (auto simp: message_def last_data_def intro: same_trans)
  next
    case None
    show ?thesis
    proof (cases ds rule: rev_cases)
      case Nil
      then show ?thesis
        using header_ends [OF assms, of h] None by (auto simp: message_def last_data_def)
    next
      case (snoc ds' d)
      have "\<exists>w'. feed part (map (\<lambda>d. Data d False) ds' @ [Data d True]) w1 =
          (Ok (replicate (length ds') StopAndBuffer @ [Running]), w') \<and>
        tasks w' = tasks w1 @ [task (Some h) (Some d) None] \<and> same w1 w'"
        by (rule data_all_kept [OF w1(2), where g = "\<lambda>_. task (Some h) (Some d) None"],
            rule data_ends)
      with w1 None snoc show ?thesis
        by (auto simp: message_def last_data_def intro: same_trans)
    qed
  qed
qed

end

subsection \<open>Both directions\<close>

lemma bufs_apply [simp]:
  "buffered_objs (w\<lparr>ustate := (ustate w)\<lparr>bufferedFilters := m\<rparr>\<rparr>) = m"
  "buffered_objs (w\<lparr>ustate := (ustate w)\<lparr>goroutines := g\<rparr>\<rparr>) = buffered_objs w"
  by (simp_all add: buffered_objs_def)

lemma on_buf_apply [simp]:
  "on_buf f bf w = (case buffered_objs w bf of None \<Rightarrow> (Panic nil_deref, w)
     | Some o' \<Rightarrow> (Ok (), w\<lparr>ustate := (ustate w)
         \<lparr>bufferedFilters := (bufferedFilters (ustate w))(bf \<mapsto> f o')\<rparr>\<rparr>))"
  by (simp add: on_buf_def split: option.split)

lemma go_stmt_apply [simp]:
  "go_stmt t w = (Ok (), w\<lparr>ustate := (ustate w)\<lparr>goroutines := goroutines (ustate w) @ [t]\<rparr>\<rparr>)"
  by (simp add: go_stmt_def)

text \<open>The library's own state is left alone.\<close>

definition same_library :: "('h, 'b, 'cfg, 'u) world \<Rightarrow> ('h, 'b, 'cfg, 'u) world \<Rightarrow> bool" where
  "same_library w w' \<longleftrightarrow> w' = w\<lparr>ustate := ustate w'\<rparr>"

lemma same_library_ustate [simp]: "same_library w (w\<lparr>ustate := u\<rparr>)"
  by (simp add: same_library_def)

lemma same_library_trans: "same_library w w' \<Longrightarrow> same_library w' w'' \<Longrightarrow> same_library w w''"
  unfolding same_library_def by (metis world.surjective world.update_convs(10))

lemmas decode_defs = bufferedFilter_DecodeHeaders_def bufferedFilter_DecodeData_def
  bufferedFilter_DecodeTrailers_def runDecode_def

lemmas encode_defs = bufferedFilter_EncodeHeaders_def bufferedFilter_EncodeData_def
  bufferedFilter_EncodeTrailers_def runEncode_def

interpretation dec: buffering "decode_part bf"
  "\<lambda>w. map_option (\<lambda>o'. (reqHeader o', reqData o')) (buffered_objs w bf)" "\<lambda>w. goroutines (ustate w)"
  "RunDecode bf" same_library
  by unfold_locales (auto simp: decode_defs intro: same_library_trans)

interpretation enc: buffering "encode_part bf"
  "\<lambda>w. map_option (\<lambda>o'. (rspHeader o', rspData o')) (buffered_objs w bf)" "\<lambda>w. goroutines (ustate w)"
  "RunEncode bf" same_library
  by unfold_locales (auto simp: encode_defs intro: same_library_trans)

subsection \<open>The adapter as a plugin\<close>

definition user_abides :: "(('h, 'b, 'cfg, 'v) bworld, 'cfg) buffered_user \<Rightarrow> bool" where
  "user_abides U \<longleftrightarrow>
     (\<forall>config. abides (buffered_httpFilterConfigFactory U config)) \<and>
     (\<forall>config w ff w'. buffered_httpFilterConfigFactory U config w = (Ok (Some ff), w') \<longrightarrow>
        factory_abides ff) \<and>
     (\<forall>f h d t. abides (Decode (buffered_filter U f) h d t)) \<and>
     (\<forall>f h d t. abides (Encode (buffered_filter U f) h d t))"

lemma abides_ustate: "abides (go_modify (\<lambda>w. w\<lparr>ustate := f w\<rparr>))"
  by (rule abides_modify)
    (simp add: same_life_def owns_def alive_def armed_def go_object_def fun_eq_iff)

lemma abides_new_buf: "abides (new_bufferedFilter o')"
  by (rule abidesI) (simp add: new_bufferedFilter_def same_life_def owns_def alive_def armed_def
      go_object_def fun_eq_iff)

lemma abides_on_buf: "abides (on_buf f bf)"
  unfolding on_buf_def by (intro go_inv abides_ustate)

lemma abides_go_stmt: "abides (go_stmt t)"
  unfolding go_stmt_def by (rule abides_ustate)

lemma abides_methods:
  shows "abides (bufferedFilter_DecodeHeaders f h e)" "abides (bufferedFilter_DecodeData f h e)"
    "abides (bufferedFilter_DecodeTrailers f h)" "abides (bufferedFilter_EncodeHeaders f h e)"
    "abides (bufferedFilter_EncodeData f h e)" "abides (bufferedFilter_EncodeTrailers f h)"
    "abides (bufferedFilter_OnDestroy f reason)"
  unfolding decode_defs encode_defs bufferedFilter_OnDestroy_def
  by (intro go_inv abides_on_buf abides_go_stmt)+

lemma buffered_factory_abides:
  assumes "user_abides U"
  shows "abides (go_bind (buffered_httpFilterConfigFactory U config) (\<lambda>ff.
     go_bind (not_nil ff) (\<lambda>ff.
     go_bind (ff callbacks) (\<lambda>f.
     go_bind (new_bufferedFilter (mk f)) (\<lambda>b. go_return (Some b))))))"
proof (rule abides_bind_strong)
  show "abides (buffered_httpFilterConfigFactory U config)"
    using assms by (simp add: user_abides_def)
next
  fix w ff w' assume ff: "buffered_httpFilterConfigFactory U config w = (Ok ff, w')"
  show "abides (go_bind (not_nil ff) (\<lambda>ff. go_bind (ff callbacks) (\<lambda>f.
      go_bind (new_bufferedFilter (mk f)) (\<lambda>b. go_return (Some b)))))"
  proof (cases ff)
    case None
    then show ?thesis by (intro abidesI) simp
  next
    case (Some g)
    then have "factory_abides g" using assms ff unfolding user_abides_def by blast
    then have "abides (go_bind (g callbacks) (\<lambda>f.
        go_bind (new_bufferedFilter (mk f)) (\<lambda>b. go_return (Some b))))"
      by (intro go_inv abides_new_buf) (simp add: factory_abides_def)
    then show ?thesis unfolding Some not_nil_def option.case go_bind_return_left .
  qed
qed

lemma buffered_plugin_abides:
  assumes "user_abides U"
  shows "plugin_abides (buffered_plugin U)"
  unfolding plugin_abides_def buffered_plugin_def RegisterHttpFilterConfigFactory_def
    bufferedFilter_methods_def configFactory_def
  by (auto simp: abides_methods factory_abides_def buffered_factory_abides [OF assms]
      intro!: go_inv)

lemma run_goroutine_abides:
  assumes "user_abides U" "api_abides C"
  shows "abides (run_goroutine C U t)"
proof -
  have call: "abides (httpRequest_Continue C cb st)" for cb st
    using assms(2) unfolding httpRequest_Continue_def api_abides_def by (auto intro!: go_inv)
  show ?thesis
    unfolding run_goroutine_def run_buffered_def
    by (cases t) (use assms in \<open>auto simp: user_abides_def
      intro!: go_inv call abides_reply\<close>)
qed

subsection \<open>The end of a goroutine\<close>

lemma run_buffered_panic:
  assumes "call w = (Panic p, w1)" "\<not> api_error p"
    and "httpRequests w1 (bf_callbacks o') = Some q" "\<not> safePanic q"
    and "api_gate w1 (bf_callbacks o') = Ok (i, F)"
  shows "run_buffered (httpCApiImpl E) o' call w = (Ok (), answered (bf_callbacks o') w1)"
  unfolding run_buffered_def
  by (rule run_filter_panic [OF _ assms(2-5)]) (simp add: assms(1))

lemma run_buffered_Ok:
  assumes "call w = (Ok (), w1)" "httpRequests w1 (bf_callbacks o') = Some q"
    and "creqs (cside w1) (req q) \<noteq> None"
  shows "run_buffered (httpCApiImpl E) o' call w = (case api_gate w1 (bf_callbacks o') of
      Ok _ \<Rightarrow> (Ok (), post_event (bf_callbacks o') continue_event w1)
    | Panic p \<Rightarrow> (Ok (), if p = PanicString ErrNotInGo
        then upd_request (bf_callbacks o') (paniced_update (\<lambda>_. True)) w1 else w1)
    | Fault f \<Rightarrow> (Fault f, w1))"
proof -
  let ?cb = "bf_callbacks o'"
  have body: "go_then call (httpRequest_Continue (httpCApiImpl E) ?cb Continue) w =
      impl_HttpContinue ?cb (status_to_u64 Continue) w1"
    using assms(1) by (simp add: httpRequest_Continue_def)
  note C = impl_HttpContinue_eq continue_event_def
  show ?thesis
  proof (cases "api_gate w1 ?cb")
    case (Ok x)
    have "run_buffered (httpCApiImpl E) o' call w = (Ok (), post_event ?cb continue_event w1)"
      unfolding run_buffered_def by (rule go_recover_Ok, unfold body) (simp add: C Ok)
    with Ok show ?thesis by simp
  next
    case (Panic p)
    have "api_error p" using api_gate_errors [OF Panic] assms(2) by (simp add: api_error_def)
    have "run_buffered (httpCApiImpl E) o' call w = (Ok (), if p = PanicString ErrNotInGo
        then upd_request ?cb (paniced_update (\<lambda>_. True)) w1 else w1)"
      unfolding run_buffered_def
      by (rule run_filter_api_error [OF _ \<open>api_error p\<close> assms(2,3)], unfold body)
        (simp add: C Panic)
    with Panic show ?thesis by simp
  next
    case (Fault f)
    have "run_buffered (httpCApiImpl E) o' call w = (Fault f, w1)"
      unfolding run_buffered_def by (rule go_recover_Fault, unfold body) (simp add: C Fault)
    with Fault show ?thesis by simp
  qed
qed

text \<open>The object a goroutine works for, and the call of the user's filter in it.\<close>

fun goroutine_filter :: "goroutine \<Rightarrow> nat" where
  "goroutine_filter (RunDecode bf h d t) = bf"
| "goroutine_filter (RunEncode bf h d t) = bf"

fun goroutine_call ::
    "(('h, 'b, 'cfg, 'v) bworld, 'cfg) buffered_user \<Rightarrow> nat \<Rightarrow> goroutine \<Rightarrow>
     (('h, 'b, 'cfg, 'v) bworld, unit) go" where
  "goroutine_call U f (RunDecode bf h d t) = Decode (buffered_filter U f) h d t"
| "goroutine_call U f (RunEncode bf h d t) = Encode (buffered_filter U f) h d t"

lemma run_goroutine_eq:
  assumes "buffered_objs w (goroutine_filter t) = Some o'" "bf_filter o' = Some f"
  shows "run_goroutine C U t w = run_buffered C o' (goroutine_call U f t) w"
proof -
  have user: "go_bind (not_nil (Some f)) m = m f" for m :: "nat \<Rightarrow> ('s, unit) go"
    by (simp add: fun_eq_iff)
  show ?thesis
    using assms by (cases t) (simp_all add: run_goroutine_def user del: go_recover_apply)
qed

subsection \<open>The sample filter\<close>

text \<open>\<^verbatim>\<open>samples/buffered/filter.go\<close>. A filter object is named by its callbacks.\<close>

definition sample_Decode ::
    "nat option \<Rightarrow> nat option \<Rightarrow> nat option \<Rightarrow> (('h, 'b, 'cfg, 'v) bworld, unit) go" where
  "sample_Decode header data trailer = go_return ()"

definition sample_Encode ::
    "('h, 'b, 'cfg, 'v) bworld HttpCAPI \<Rightarrow> nat option \<Rightarrow> nat option \<Rightarrow> nat option \<Rightarrow>
     (('h, 'b, 'cfg, 'v) bworld, unit) go" where
  "sample_Encode C header data trailer =
     go_then (case data of None \<Rightarrow> go_return () | Some d \<Rightarrow>
         go_then (go_bind (httpBuffer_Len d) (httpBuffer_Drain d))
        (go_then (httpBuffer_Write C d ''Foo-Bar'')
        (go_bind (not_nil header) (\<lambda>h. headerMapImpl_Set C h ''Content-Length'' ''7''))))
    (go_then (go_bind (not_nil header) (\<lambda>h. headerMapImpl_Set C h ''foo'' ''bar''))
       (case trailer of None \<Rightarrow> go_return () | Some t \<Rightarrow> headerTrailerMapImpl_Set C t ''t1'' ''v1''))"

definition sample_buffered ::
    "('h, 'b, 'cfg, 'v) bworld HttpCAPI \<Rightarrow> (('h, 'b, 'cfg, 'v) bworld, 'cfg) buffered_user" where
  "sample_buffered C = \<lparr>
     buffered_httpFilterConfigFactory = (\<lambda>config. go_return (Some (\<lambda>callbacks.
       go_return (Some callbacks)))),
     buffered_filter = (\<lambda>f. \<lparr>Decode = sample_Decode, Encode = sample_Encode C\<rparr>)\<rparr>"

lemma implement_me_answered: "\<not> api_error implement_me"
  by (simp add: api_error_def implement_me_def ErrRequestFinished_def ErrFilterDestroyed_def
      ErrNotInGo_def)

lemma sample_Encode_body:
  assumes "httpBuffers w d = Some o'"
  shows "sample_Encode C h (Some d) t w = (Panic implement_me, w)"
  using assms by (simp add: sample_Encode_def httpBuffer_Len_def httpBuffer_Drain_def)

end
