(* ===== verification/Buffered_Flow.thy ===== *)
theory Buffered_Flow
  imports Stream_Continue Buffered
begin

text \<open>
  A response through the buffered adapter, from Envoy's callbacks to what Envoy gets back: the
  headers and the buffers that arrive first are kept in C++, the last buffer brings the whole body
  to Go and starts the goroutine, and the continuation the goroutine posts injects the body.
\<close>

subsection \<open>The adapter's answers\<close>

lemma buffered_plugin_filter [simp]: "http_filter (buffered_plugin U) f = bufferedFilter_methods f"
  by (simp add: buffered_plugin_def)

lemma buffered_encode_header:
  assumes "creqs (cside w) r = Some cq" "phase cq = EncodeHeaderPhase" "serves w r rq q bf"
    and "buffered_objs w bf = Some o'"
  shows "\<exists>w2 hp. moeOnHttpHeader C (buffered_plugin U) r 0 n b w =
      (Ok (status_to_u64 StopAndBuffer), w2) \<and> cside w2 = cside w \<and> Requests w2 = Requests w \<and>
    httpRequests w2 = httpRequests w \<and> goroutines (ustate w2) = goroutines (ustate w) \<and>
    buffered_objs w2 bf = Some (o'\<lparr>rspHeader := Some hp\<rparr>)"
  using assms
  by (auto simp: moeOnHttpHeader_known header_switch_def new_headerMap_def filter_of_def serves_def
      bufferedFilter_methods_def bufferedFilter_EncodeHeaders_def buffered_objs_def)

text \<open>The goroutine of a direction, and the header the adapter has stored for it.\<close>

definition task_of ::
    "bool \<Rightarrow> nat \<Rightarrow> nat option \<Rightarrow> nat option \<Rightarrow> nat option \<Rightarrow> goroutine" where
  "task_of enc = (if enc then RunEncode else RunDecode)"

definition stored_header :: "bool \<Rightarrow> bufferedFilter \<Rightarrow> nat option" where
  "stored_header enc o' = (if enc then rspHeader o' else reqHeader o')"

lemma direction_simps [simp]:
  "task_of True = RunEncode" "task_of False = RunDecode"
  "stored_header True o' = rspHeader o'" "stored_header False o' = reqHeader o'"
  "data_phase True = EncodeDataPhase" "data_phase False = DecodeDataPhase"
  by (simp_all add: task_of_def stored_header_def data_phase_def)

lemma buffered_data:
  assumes "creqs (cside w) r = Some cq" "phase cq = data_phase enc" "serves w r rq q bf"
    and "buffered_objs w bf = Some o'"
  shows "\<exists>w2 bp. moeOnHttpData C (buffered_plugin U) r 1 a n w =
      (Ok (status_to_u64 Running), w2) \<and> cside w2 = cside w \<and> Requests w2 = Requests w \<and>
    httpRequests w2 = httpRequests w \<and> buffered_objs w2 = buffered_objs w \<and>
    httpBuffers w2 bp = Some \<lparr>buf_request = rq, envoyBufferInstance = a, buf_length = n,
      buf_value = []\<rparr> \<and>
    goroutines (ustate w2) = goroutines (ustate w) @ [task_of enc bf (stored_header enc o') (Some bp) None]"
  using assms
  by (cases enc) (simp_all add: moeOnHttpData_def getRequest_def GetReq_def new_httpBuffer_def
      filter_of_def serves_def bufferedFilter_methods_def encode_defs decode_defs buffered_objs_def)

subsection \<open>The last buffer\<close>

text \<open>What a callback of the adapter leaves of the world: one more goroutine.\<close>

definition started ::
    "nat \<Rightarrow> httpRequestInternal \<Rightarrow> ('h, 'b, 'cfg, 'v) bworld \<Rightarrow> goroutine list \<Rightarrow>
     ('h, 'b, 'cfg, 'v) bworld \<Rightarrow> bool" where
  "started r cq w ts w2 \<longleftrightarrow> left_alone r cq w w2 \<and>
     goroutines (ustate w2) = goroutines (ustate w) @ ts"

lemma started_at [simp]: "started r cq w ts (at i F w2) = started r cq w ts w2"
  "started r cq (at i F w) ts w2 = started r cq w ts w2"
  by (simp_all add: started_def left_alone_def)

lemma buffered_objs_at [simp]: "buffered_objs (at i F w) = buffered_objs w"
  "buffered_objs (with_phase r cq ph w) = buffered_objs w"
  by (simp_all add: buffered_objs_def)

text \<open>The handle a goroutine gets is that of the buffer pushed last.\<close>

definition handed ::
    "('h, 'b, 'cfg, 'u) world \<Rightarrow> nat \<Rightarrow> nat \<Rightarrow> (u64 \<times> 'b) list \<Rightarrow> (u64 \<times> 'b) list \<Rightarrow> bool" where
  "handed w rq bp q0 q \<longleftrightarrow> (\<exists>a n b. q = q0 @ [(a, b)] \<and>
     httpBuffers w bp = Some \<lparr>buf_request = rq, envoyBufferInstance = a, buf_length = n,
       buf_value = []\<rparr>)"

lemma handed_at [simp]: "handed (at i F w) rq bp q0 q = handed w rq bp q0 q"
  by (simp add: handed_def at_def)

lemma buffered_doDataGo:
  assumes laws: "buffer_laws E"
    and F: "fstate (side enc F) = WaitingAllData" "filter_req F = Some r"
    and w: "creqs (cside w) r = Some cq" "serves w r rq q bf" "buffered_objs w bf = Some o'"
  shows "\<exists>rest p w2 bp. doDataGo E (with_plugin C (buffered_plugin U) H) i enc False d True (at i F w) =
      (Ok (False, rest), at i (set_side enc p F) w2) \<and>
    fstate p = ProcessingData \<and> do_end_stream p \<and> end_stream p = end_stream (side enc F) \<and>
    seen_trailers p = seen_trailers (side enc F) \<and>
    list_bytes E (doDataList p) = list_bytes E (doDataList (side enc F)) @ bi_bytes E d \<and>
    started r cq w [task_of enc bf (stored_header enc o') (Some bp) None] w2 \<and>
    buffered_objs w2 bf = Some o' \<and>
    handed w2 rq bp (queue (doDataList (side enc F))) (queue (doDataList p))"
proof -
  let ?H = "with_plugin C (buffered_plugin U) H"
  let ?a = "alloc_buf H (cside (at i (set_side enc ((side enc F)\<lparr>fstate := ProcessingData,
      do_end_stream := True\<rparr>) F) w))"
  let ?p = "data_state E ?a d True (side enc F)"
  let ?w = "at i (set_side enc ?p F) (with_phase r cq (data_phase enc) w)"
  have go_phase: "creqs (cside ?w) r = Some (cq\<lparr>phase := data_phase enc\<rparr>)"
      "phase (cq\<lparr>phase := data_phase enc\<rparr>) = data_phase enc"
    by simp_all
  have go_serves: "serves ?w r rq q bf" and go_buf: "buffered_objs ?w bf = Some o'"
    using w(2,3) by simp_all
  obtain w2 bp where w2: "moeOnHttpData C (buffered_plugin U) r 1 ?a
        (bi_length E (fst (bi_move E (bi_new E) d))) ?w = (Ok (status_to_u64 Running), w2)"
      "cside w2 = cside ?w" "Requests w2 = Requests ?w" "httpRequests w2 = httpRequests ?w"
      "buffered_objs w2 = buffered_objs ?w"
      "httpBuffers w2 bp = Some \<lparr>buf_request = rq, envoyBufferInstance = ?a,
        buf_length = bi_length E (fst (bi_move E (bi_new E) d)), buf_value = []\<rparr>"
      "goroutines (ustate w2) = goroutines (ustate ?w) @ [task_of enc bf (stored_header enc o') (Some bp) None]"
    using buffered_data [OF go_phase go_serves go_buf, of C U ?a] by blast
  have F2: "filters (cside w2) i = Some (set_side enc ?p F)" using w2(2) by simp
  have p: "fstate ?p = ProcessingData" "do_end_stream ?p" "end_stream ?p = end_stream (side enc F)"
      "seen_trailers ?p = seen_trailers (side enc F)"
    by (simp_all add: data_state_def)
  have "handleDataGolangStatus E (golangStatus (c_int (status_to_u64 Running)))
      (side enc (set_side enc ?p F)) = (Ok False, ?p)"
    unfolding golangStatus_of_status side_simps by (rule running_keeps [OF p(1)])
  then have go: "doDataGo E ?H i enc False d True (at i F w) =
      (Ok (False, snd (bi_move E (bi_new E) d)), at i (set_side enc ?p (set_side enc ?p F)) w2)"
    using F w2(1) F2 w(1)
    by (intro doDataGo_at [where r = r and cq = cq and a = ?a and st = "status_to_u64 Running"])
      (simp_all add: with_plugin_def flag_def)
  have "started r cq w [task_of enc bf (stored_header enc o') (Some bp) None] w2"
    using w2(2-) by (auto simp: started_def left_alone_def)
  moreover have "buffered_objs w2 bf = Some o'" using w2(5) w(3) by simp
  moreover have "list_bytes E (doDataList ?p) =
      list_bytes E (doDataList (side enc F)) @ bi_bytes E d"
    by (simp add: data_state_def push_bytes [OF laws])
  moreover have "handed w2 rq bp (queue (doDataList (side enc F))) (queue (doDataList ?p))"
    using w2(6) by (simp add: handed_def data_state_def push_def Let_def case_prod_unfold)
  ultimately show ?thesis using go p
    by (intro exI [of _ "snd (bi_move E (bi_new E) d)"] exI [of _ ?p] exI [of _ w2] exI [of _ bp])
      simp
qed

text \<open>The last buffer takes what was kept with it.\<close>

lemma doData_last:
  assumes laws: "buffer_laws E" and quiet: "no_watermark H"
    and F: "fstate (side enc F) = WaitingAllData" "length (kept_bytes E (side enc F)) < 2 ^ 64"
  shows "\<exists>d' G. doData E H i enc d True (at i F w) = doDataGo E H i enc False d' True (at i G w) \<and>
    bi_bytes E d' = kept_bytes E (side enc F) @ bi_bytes E d \<and>
    (\<exists>b. G = set_side enc ((side enc F)\<lparr>data_buffer := b\<rparr>) F)"
proof (cases "isBufferDataEmpty E (side enc F)")
  case True
  then show ?thesis
    using F isBufferDataEmpty_kept [OF laws F(2)]
    by (intro exI [of _ d] exI [of _ F]) (auto simp: doData_def intro: exI [of _ "data_buffer (side enc F)"])
next
  case False
  let ?old = "old_buffer E (side enc F)"
  let ?m = "bi_move E ?old d"
  let ?n = "bi_move E (snd ?m) (fst ?m)"
  let ?G = "set_side enc ((side enc F)\<lparr>data_buffer := Some (snd ?n)\<rparr>) F"
  have add: "addBufferData E H i enc d (at i F w) =
      (Ok (snd ?m), at i (set_side enc (keep_data E d (side enc F)) F) w)"
    by (rule addBufferData_at [OF quiet])
  have "doData E H i enc d True (at i F w) = doDataGo E H i enc False (fst ?n) True (at i ?G w)"
    using F False by (simp add: doData_def add keep_data_def case_prod_unfold shrinking_at [OF quiet])
  moreover have "bi_bytes E (fst ?n) = kept_bytes E (side enc F) @ bi_bytes E d"
    by (simp add: buffer_lawsD [OF laws] old_buffer_def kept_bytes_def split: option.split)
  ultimately show ?thesis by blast
qed

lemma buffered_last_data:
  assumes laws: "buffer_laws E" and quiet: "no_watermark H"
    and F: "fstate (side enc F) = WaitingAllData" "length (kept_bytes E (side enc F)) < 2 ^ 64"
      "filter_req F = Some r" "\<not> local_reply_waiting_go F" "queue (doDataList (side enc F)) = []"
    and w: "creqs (cside w) r = Some cq" "serves w r rq q bf" "buffered_objs w bf = Some o'"
  shows "\<exists>p w2 bp. input E (with_plugin C (buffered_plugin U) H) i enc (DataIn d True) (at i F w) =
      (Ok False, at i (set_side enc p F) w2) \<and>
    fstate p = ProcessingData \<and> do_end_stream p \<and> end_stream p \<and>
    seen_trailers p = seen_trailers (side enc F) \<and>
    list_bytes E (doDataList p) = kept_bytes E (side enc F) @ bi_bytes E d \<and>
    started r cq w [task_of enc bf (stored_header enc o') (Some bp) None] w2 \<and>
    buffered_objs w2 bf = Some o' \<and> handed w2 rq bp [] (queue (doDataList p))"
proof -
  let ?H = "with_plugin C (buffered_plugin U) H"
  let ?F = "set_side enc ((side enc F)\<lparr>end_stream := True\<rparr>) F"
  have quiet': "no_watermark ?H" using quiet by simp
  obtain d' b where go: "doData E ?H i enc d True (at i ?F w) =
      doDataGo E ?H i enc False d' True
        (at i (set_side enc ((side enc ?F)\<lparr>data_buffer := b\<rparr>) ?F) w)"
      "bi_bytes E d' = kept_bytes E (side enc F) @ bi_bytes E d"
    using doData_last [OF laws quiet', of enc ?F i d w] F by (auto simp: kept_bytes_def)
  let ?G = "set_side enc ((side enc ?F)\<lparr>data_buffer := b\<rparr>) ?F"
  have G: "fstate (side enc ?G) = WaitingAllData" "filter_req ?G = Some r" using F by simp_all
  obtain rest p w2 bp where data: "doDataGo E ?H i enc False d' True (at i ?G w) =
      (Ok (False, rest), at i (set_side enc p ?G) w2)"
      "fstate p = ProcessingData" "do_end_stream p" "end_stream p = end_stream (side enc ?G)"
      "seen_trailers p = seen_trailers (side enc ?G)"
      "list_bytes E (doDataList p) = list_bytes E (doDataList (side enc ?G)) @ bi_bytes E d'"
      "started r cq w [task_of enc bf (stored_header enc o') (Some bp) None] w2"
      "buffered_objs w2 bf = Some o'"
      "handed w2 rq bp (queue (doDataList (side enc ?G))) (queue (doDataList p))"
    using buffered_doDataGo [OF laws G w, of C U H i d'] by blast
  have "input E ?H i enc (DataIn d True) (at i F w) = (Ok False, at i (set_side enc p F) w2)"
    using F(4) go(1) data(1) by (cases enc) (simp_all add: encodeData_def decodeData_def take_out_def)
  moreover have "list_bytes E (doDataList p) = kept_bytes E (side enc F) @ bi_bytes E d"
    using data(6) go(2) F(5) by (simp add: list_bytes_def)
  moreover have "end_stream p" "seen_trailers p = seen_trailers (side enc F)"
    using data(4,5) by simp_all
  moreover have "handed w2 rq bp [] (queue (doDataList p))" using data(9) F(5) by simp
  ultimately show ?thesis using data(2,3,7,8) by blast
qed

subsection \<open>The headers\<close>

text \<open>The filter once the adapter has asked for the body.\<close>

abbreviation wants_body :: "nat \<Rightarrow> 'b Filter \<Rightarrow> 'b Filter" where
  "wants_body \<equiv> headers_answered GStopAndBuffer"

lemma wants_body_side [simp]:
  "side True (wants_body h F) = (side True F)\<lparr>end_stream := False, do_end_stream := False,
     fstate := WaitingAllData\<rparr>"
  by (simp add: headers_answered_side handleHeader_apply)

lemma buffered_headers:
  assumes F: "filters (cside w) i = Some F" "\<not> enter_encoding F" "filter_req F = Some r"
      "fstate (side False F) = Done" "fstate (side True F) = WaitingHeader"
      "isBufferDataEmpty E (side True F)"
    and w: "creqs (cside w) r = Some cq" "serves w r rq q bf" "buffered_objs w bf = Some o'"
  shows "\<exists>w2 hp. encodeHeaders E (with_plugin C (buffered_plugin U) H) i h False w =
      (Ok False, at i (wants_body h F) w2) \<and> started r cq w [] w2 \<and>
    buffered_objs w2 bf = Some (o'\<lparr>rspHeader := Some hp\<rparr>)"
proof -
  let ?H = "with_plugin C (buffered_plugin U) H"
  let ?n = "hm_size E (hm_heap (cside w) h)" and ?b = "hm_byteSize E (hm_heap (cside w) h)"
  let ?w1 = "at i (first_headers h F) (with_phase r cq EncodeHeaderPhase w)"
  have go: "creqs (cside ?w1) r = Some (cq\<lparr>phase := EncodeHeaderPhase\<rparr>)"
      "phase (cq\<lparr>phase := EncodeHeaderPhase\<rparr>) = EncodeHeaderPhase"
      "serves ?w1 r rq q bf" "buffered_objs ?w1 bf = Some o'"
    using w by simp_all
  obtain w2 hp where w2: "moeOnHttpHeader C (buffered_plugin U) r 0 ?n ?b ?w1 =
        (Ok (status_to_u64 StopAndBuffer), w2)" "cside w2 = cside ?w1"
      "Requests w2 = Requests ?w1" "httpRequests w2 = httpRequests ?w1"
      "goroutines (ustate w2) = goroutines (ustate ?w1)"
      "buffered_objs w2 bf = Some (o'\<lparr>rspHeader := Some hp\<rparr>)"
    using buffered_encode_header [OF go, of C U ?n ?b] by blast
  have lib: "lib_moeOnHttpHeader ?H r 0 ?n ?b ?w1 = (Ok (status_to_u64 StopAndBuffer), w2)"
    using w2(1) by (simp add: with_plugin_def)
  have "encodeHeaders E ?H i h False w = (Ok (GStopAndBuffer = GContinue), at i (wants_body h F) w2)"
    by (rule encodeHeaders_answered [OF F w(1) lib w2(2), unfolded golangStatus_of_status]) simp
  moreover have "started r cq w [] w2" using w2 by (auto simp: started_def left_alone_def)
  ultimately show ?thesis using w2(6) by auto
qed

subsection \<open>The whole response\<close>

lemma started_trans:
  "started r cq w ts w1 \<Longrightarrow> started r (cq\<lparr>phase := ph\<rparr>) w1 us w2 \<Longrightarrow> started r cq w (ts @ us) w2"
  by (auto simp: started_def left_alone_def)

lemma started_serves: "started r cq w ts w2 \<Longrightarrow> serves w r rq q bf \<Longrightarrow> serves w2 r rq q bf"
  by (auto simp: started_def intro: left_alone_serves)

lemma buffered_body:
  fixes ds :: "'b list" and H :: "('h, 'b, 'cfg, 'v buffered_state) stream_host"
  assumes laws: "buffer_laws E" "no_watermark H"
    and F: "fstate (side enc F) = WaitingAllData" "kept_bytes E (side enc F) = []"
      "filter_req F = Some r" "\<not> local_reply_waiting_go F" "queue (doDataList (side enc F)) = []"
    and w: "creqs (cside w) r = Some cq" "serves w r rq q bf" "buffered_objs w bf = Some o'"
    and len: "length (concat (map (bi_bytes E) ds)) < 2 ^ 64"
  shows "\<exists>p w2 bp. deliver E (with_plugin C (buffered_plugin U) H) i enc
        (map (\<lambda>d. DataIn d False) ds @ [DataIn d True]) (at i F w) =
      (Ok (replicate (length ds + 1) False), at i (set_side enc p F) w2) \<and>
    fstate p = ProcessingData \<and> do_end_stream p \<and> end_stream p \<and>
    seen_trailers p = seen_trailers (side enc F) \<and>
    list_bytes E (doDataList p) = concat (map (bi_bytes E) (ds @ [d])) \<and>
    started r cq w [task_of enc bf (stored_header enc o') (Some bp) None] w2 \<and>
    buffered_objs w2 bf = Some o' \<and> handed w2 rq bp [] (queue (doDataList p))"
proof -
  let ?H = "with_plugin C (buffered_plugin U) H"
  have quiet: "no_watermark ?H" using laws(2) by simp
  obtain p where p: "deliver E ?H i enc (map (\<lambda>d. DataIn d False) ds) (at i F w) =
      (Ok (replicate (length ds) False), at i (set_side enc p F) w)"
      "fstate p = WaitingAllData" "doDataList p = doDataList (side enc F)"
      "seen_trailers p = seen_trailers (side enc F)"
      "kept_bytes E p = concat (map (bi_bytes E) ds)"
    using deliver_kept [OF laws(1) quiet F(4,1), of i ds w] F(2) by auto
  let ?G = "set_side enc p F"
  have G: "fstate (side enc ?G) = WaitingAllData" "length (kept_bytes E (side enc ?G)) < 2 ^ 64"
    "filter_req ?G = Some r" "\<not> local_reply_waiting_go ?G" "queue (doDataList (side enc ?G)) = []"
    using p len F by simp_all
  obtain p' w2 bp where last: "input E ?H i enc (DataIn d True) (at i ?G w) =
        (Ok False, at i (set_side enc p' ?G) w2)"
      "fstate p' = ProcessingData" "do_end_stream p'" "end_stream p'"
      "seen_trailers p' = seen_trailers p"
      "list_bytes E (doDataList p') = kept_bytes E p @ bi_bytes E d"
      "started r cq w [task_of enc bf (stored_header enc o') (Some bp) None] w2"
      "buffered_objs w2 bf = Some o'" "handed w2 rq bp [] (queue (doDataList p'))"
    using buffered_last_data [OF laws G w, of C U i d] by auto
  have "deliver E ?H i enc (map (\<lambda>d. DataIn d False) ds @ [DataIn d True]) (at i F w) =
      (Ok (replicate (length ds + 1) False), at i (set_side enc p' F) w2)"
    using p(1) last(1) by (simp add: deliver_append replicate_append_same)
  then show ?thesis using last(2-) p(4,5) by (intro exI conjI) (assumption | simp)+
qed

lemma buffered_response:
  fixes ds :: "'b list" and H :: "('h, 'b, 'cfg, 'v buffered_state) stream_host"
  assumes laws: "buffer_laws E" "no_watermark H"
    and F: "filters (cside w) i = Some F" "\<not> enter_encoding F" "filter_req F = Some r"
      "\<not> local_reply_waiting_go F" "fstate (side False F) = Done"
      "fstate (side True F) = WaitingHeader" "kept_bytes E (side True F) = []"
      "queue (doDataList (side True F)) = []"
    and w: "creqs (cside w) r = Some cq" "serves w r rq q bf" "buffered_objs w bf = Some o'"
    and len: "length (concat (map (bi_bytes E) ds)) < 2 ^ 64"
  shows "\<exists>G w2 hp bp. encode_message E (with_plugin C (buffered_plugin U) H) i h
        (map (\<lambda>d. DataIn d False) ds @ [DataIn d True]) w =
      (Ok (replicate (length ds + 2) False), at i G w2) \<and>
    enter_encoding G \<and> \<not> local_reply_waiting_go G \<and> has_destroyed G = has_destroyed F \<and>
    fstate (side True G) = ProcessingData \<and> do_end_stream (side True G) \<and>
    end_stream (side True G) \<and> seen_trailers (side True G) = seen_trailers (side True F) \<and>
    list_bytes E (doDataList (side True G)) = concat (map (bi_bytes E) (ds @ [d])) \<and>
    started r cq w [RunEncode bf (Some hp) (Some bp) None] w2 \<and>
    buffered_objs w2 bf = Some (o'\<lparr>rspHeader := Some hp\<rparr>) \<and>
    filter_req G = Some r \<and> handed w2 rq bp [] (queue (doDataList (side True G)))"
proof -
  let ?H = "with_plugin C (buffered_plugin U) H"
  let ?F = "wants_body h F"
  have "isBufferDataEmpty E (side True F)"
    using isBufferDataEmpty_kept [OF laws(1), of "side True F"] F(7) by simp
  from buffered_headers [OF F(1,2,3,5,6) this w, of C U H h]
  obtain w1 hp where w1: "encodeHeaders E ?H i h False w = (Ok False, at i ?F w1)"
      "started r cq w [] w1" "buffered_objs w1 bf = Some (o'\<lparr>rspHeader := Some hp\<rparr>)"
    by blast
  obtain cq1 ph where cq1: "creqs (cside w1) r = Some cq1" "cq1 = cq\<lparr>phase := ph\<rparr>"
    using w1(2) by (auto simp: started_def left_alone_def)
  have serves: "serves w1 r rq q bf" by (rule started_serves [OF w1(2) w(2)])
  have G: "fstate (side True ?F) = WaitingAllData" "kept_bytes E (side True ?F) = []"
    "filter_req ?F = Some r" "\<not> local_reply_waiting_go ?F" "queue (doDataList (side True ?F)) = []"
    using F by (simp_all add: kept_bytes_def)
  obtain p w2 bp where body: "deliver E ?H i True (map (\<lambda>d. DataIn d False) ds @ [DataIn d True])
        (at i ?F w1) = (Ok (replicate (length ds + 1) False), at i (set_side True p ?F) w2)"
      "fstate p = ProcessingData" "do_end_stream p" "end_stream p"
      "seen_trailers p = seen_trailers (side True ?F)"
      "list_bytes E (doDataList p) = concat (map (bi_bytes E) (ds @ [d]))"
      "started r cq1 w1 [RunEncode bf (Some hp) (Some bp) None] w2"
      "buffered_objs w2 bf = Some (o'\<lparr>rspHeader := Some hp\<rparr>)"
      "handed w2 rq bp [] (queue (doDataList p))"
    using buffered_body [OF laws G cq1(1) serves w1(3) len, of C U i d] by auto
  let ?G' = "set_side True p ?F"
  have "encode_message E ?H i h (map (\<lambda>d. DataIn d False) ds @ [DataIn d True]) w =
      (Ok (replicate (length ds + 2) False), at i ?G' w2)"
    using w1(1) body(1) by (simp add: encode_message_def)
  moreover have "started r cq w [RunEncode bf (Some hp) (Some bp) None] w2"
    using started_trans [OF w1(2) body(7) [unfolded cq1(2)]] by simp
  ultimately show ?thesis using body F(3,4) by (intro exI conjI) (assumption | simp)+
qed

subsection \<open>The goroutine\<close>

text \<open>A user's filter that looks at responses and does not touch their streams.\<close>

definition only_reads :: "(('h, 'b, 'cfg, 'v) bworld, 'cfg) buffered_user \<Rightarrow> nat \<Rightarrow> bool" where
  "only_reads U f \<longleftrightarrow> (\<forall>h d t w. \<exists>v. Encode (buffered_filter U f) h d t w = (Ok (), v) \<and>
     cside v = cside w \<and> httpRequests v = httpRequests w)"

lemma task_posts:
  assumes t: "goroutine_filter t = bf" "goroutine_call U f t w = (Ok (), v)"
    and o: "buffered_objs w bf = Some o'" "bf_filter o' = Some f" "bf_callbacks o' = rq"
    and q: "httpRequests v rq = Some q" "creqs (cside v) (req q) \<noteq> None"
    and gate: "api_gate v rq = Ok (i, F)"
  shows "run_goroutine (httpCApiImpl E) U t w = (Ok (), v\<lparr>cside := post i continue_event (cside v)\<rparr>)"
proof -
  have q': "httpRequests v (bf_callbacks o') = Some q" using q(1) o(3) by simp
  have "run_goroutine (httpCApiImpl E) U t w =
      run_buffered (httpCApiImpl E) o' (goroutine_call U f t) w"
    by (rule run_goroutine_eq) (simp_all add: o t(1))
  also have "\<dots> = (Ok (), post_event (bf_callbacks o') continue_event v)"
    unfolding run_buffered_Ok [where call = "goroutine_call U f t", OF t(2) q' q(2)] o(3) gate by simp
  finally show ?thesis using gate by (simp add: post_event_def o(3))
qed

lemma goroutine_posts:
  assumes reads: "only_reads U f"
    and o: "buffered_objs w bf = Some o'" "bf_filter o' = Some f" "bf_callbacks o' = rq"
    and q: "httpRequests w rq = Some q" "creqs (cside w) (req q) \<noteq> None"
    and gate: "api_gate w rq = Ok (i, F)"
  shows "\<exists>v. run_goroutine (httpCApiImpl E) U (RunEncode bf h d t) w = (Ok (), v) \<and>
    cside v = post i continue_event (cside w)"
proof -
  obtain v where v: "goroutine_call U f (RunEncode bf h d t) w = (Ok (), v)" "cside v = cside w"
      "httpRequests v = httpRequests w"
    using reads unfolding only_reads_def goroutine_call.simps by metis
  have here: "goroutine_filter (RunEncode bf h d t) = bf" by simp
  have q': "httpRequests v rq = Some q" "creqs (cside v) (req q) \<noteq> None" using q v by simp_all
  have "api_gate v rq = Ok (i, F)" using gate api_gate_cong [of v rq w] v by simp
  from task_posts [OF here v(1) o q' this, of E] v(2) show ?thesis by simp
qed

lemma started_gate:
  assumes "started r cq w ts w2" "weakFilter cq = i" "httpRequests w2 rq = Some q" "req q = r"
    and "\<not> has_destroyed G" "isProcessingInGo (getProcessorState G)"
  shows "api_gate (at i G w2) rq = Ok (i, G)" "creqs (cside (at i G w2)) (req q) \<noteq> None"
  using assms by (auto simp: started_def left_alone_def api_gate_def)

subsection \<open>From the headers to the injection\<close>

lemma body_inputs:
  "map (\<lambda>x. DataIn (fst x) (snd x)) (body_of ds d) = map (\<lambda>d. DataIn d False) ds @ [DataIn d True]"
  by (simp add: body_of_def)

lemma buffered_body_returns:
  fixes H :: "('h, 'b, 'cfg, 'v buffered_state) stream_host"
  assumes laws: "buffer_laws E" "no_watermark H" "takes_data H"
    and F: "filters (cside w) i = Some F" "\<not> enter_encoding F" "filter_req F = Some r"
      "\<not> local_reply_waiting_go F" "fstate (side False F) = Done"
      "fstate (side True F) = WaitingHeader" "kept_bytes E (side True F) = []"
      "queue (doDataList (side True F)) = []" "\<not> seen_trailers (side True F)" "\<not> has_destroyed F"
    and w: "creqs (cside w) r = Some cq" "serves w r rq q bf" "buffered_objs w bf = Some o'"
      "weakFilter cq = i"
    and user: "only_reads U f" "bf_filter o' = Some f" "bf_callbacks o' = rq"
    and len: "length (concat (map (bi_bytes E) ds)) < 2 ^ 64"
  shows "\<exists>rs w1 t w2 w3 b.
    encode_response E (with_plugin C (buffered_plugin U) H) i h (body_of ds d) w = (Ok (False, rs), w1) \<and>
    map fst rs = replicate (Suc (length ds)) False \<and> envoy_calls (cside w1) = envoy_calls (cside w) \<and>
    goroutines (ustate w1) = goroutines (ustate w) @ [t] \<and>
    run_goroutine (httpCApiImpl E) U t w1 = (Ok (), w2) \<and>
    posted (cside w2) = posted (cside w) @ [(i, continue_event)] \<and>
    run_closure E (with_plugin C (buffered_plugin U) H) i continue_event w2 = (Ok (), w3) \<and>
    envoy_calls (cside w3) = envoy_calls (cside w) @ [InjectCall True b True] \<and>
    bi_bytes E b = concat (map (bi_bytes E) (ds @ [d]))"
proof -
  let ?H = "with_plugin C (buffered_plugin U) H"
  from buffered_response [OF laws(1,2) F(1-8) w(1-3) len, of C U h d]
  obtain G v hp bp where run: "encode_message E ?H i h
        (map (\<lambda>d. DataIn d False) ds @ [DataIn d True]) w = (Ok (replicate (length ds + 2) False), at i G v)"
    and G: "enter_encoding G" "\<not> local_reply_waiting_go G" "has_destroyed G = has_destroyed F"
      "fstate (side True G) = ProcessingData" "do_end_stream (side True G)" "end_stream (side True G)"
      "seen_trailers (side True G) = seen_trailers (side True F)"
      "list_bytes E (doDataList (side True G)) = concat (map (bi_bytes E) (ds @ [d]))"
    and v: "started r cq w [RunEncode bf (Some hp) (Some bp) None] v"
      "buffered_objs v bf = Some (o'\<lparr>rspHeader := Some hp\<rparr>)"
    by blast
  obtain rs where rs: "encode_response E ?H i h (body_of ds d) w = (Ok (False, rs), at i G v)"
      "map fst rs = replicate (Suc (length ds)) False"
    using encode_message_response [of E ?H i h "body_of ds d", unfolded body_inputs, OF run] by auto
  have inGo: "isProcessingInGo (getProcessorState G)"
    using G(1,4) by (simp add: isProcessingInGo_def getProcessorState_def side_def)
  have q: "httpRequests v rq = Some q" "req q = r"
    using v(1) w(2) by (auto simp: started_def left_alone_def serves_def)
  have live: "\<not> has_destroyed G" using G(3) F(10) by simp
  note gate = started_gate [OF v(1) w(4) q live inGo]
  have q': "httpRequests (at i G v) rq = Some q" using q(1) by simp
  have o': "buffered_objs (at i G v) bf = Some (o'\<lparr>rspHeader := Some hp\<rparr>)"
    "bf_filter (o'\<lparr>rspHeader := Some hp\<rparr>) = Some f" "bf_callbacks (o'\<lparr>rspHeader := Some hp\<rparr>) = rq"
    using v(2) user by simp_all
  obtain w2 where w2: "run_goroutine (httpCApiImpl E) U (RunEncode bf (Some hp) (Some bp) None) (at i G v) =
      (Ok (), w2)" "cside w2 = post i continue_event (cside (at i G v))"
    using goroutine_posts [OF user(1) o' q' gate(2,1)] by blast
  have "filters (cside w2) i = Some G" using w2(2) by (simp add: post_def)
  note w2_at = at_self [OF this]
  have takes: "takes_data ?H" using laws(3) by (simp add: takes_data_def with_plugin_def)
  have trailers: "\<not> seen_trailers (side True G)" using G(7) F(9) by simp
  have enc: "enter_encoding G = True" using G(1) by simp
  obtain b p where b: "run_closure E ?H i (PostContinue GContinue) (at i G w2) =
      (Ok (), at i (set_side True p G) (calling (InjectCall True b True) w2))"
      "bi_bytes E b = list_bytes E (doDataList (side True G))"
    using continue_injects [OF laws(1) takes live G(2) enc G(4,5,6) trailers, of i w2] by blast
  obtain w3 where w3: "run_closure E ?H i (PostContinue GContinue) (at i G w2) = (Ok (), w3)"
      "envoy_calls (cside w3) = envoy_calls (cside w2) @ [InjectCall True b True]"
    using b(1) by simp
  have "envoy_calls (cside (at i G v)) = envoy_calls (cside w)"
    "posted (cside (at i G v)) = posted (cside w)"
    "goroutines (ustate (at i G v)) = goroutines (ustate w) @ [RunEncode bf (Some hp) (Some bp) None]"
    using v(1) by (simp_all add: started_def left_alone_def)
  then show ?thesis
    using rs w2 w3 b(2) G(8) unfolding w2_at continue_event_eq
    by (intro exI conjI) (assumption | simp add: post_def)+
qed

end
