(* ===== verification/Exchange_Flow.thy ===== *)
theory Exchange_Flow
  imports Filter_Interface Buffered_Flow
begin

text \<open>
  A whole exchange through the buffered adapter, with a filter that rewrites bodies: the first headers
  of the request create the request object and the adapter's filter, the last buffer of a body starts
  the goroutine, the goroutine edits the body through the API and continues the message, and the
  closure it posts injects what the body has become. Then the same for the response.
\<close>

subsection \<open>A user's filter that edits bodies\<close>

text \<open>
  For a request with the configuration \<open>cfg\<close> the goroutines of the filter write \<open>ed enc cfg\<close> to the
  body of the direction \<open>enc\<close>.
\<close>

definition edits_bodies ::
    "('h, 'b) envoy \<Rightarrow> (('h, 'b, 'cfg, 'v) bworld, 'cfg) buffered_user \<Rightarrow>
     (bool \<Rightarrow> 'cfg option \<Rightarrow> (BufferAction \<times> string) list) \<Rightarrow> bool" where
  "edits_bodies E U ed \<longleftrightarrow> (\<forall>cfg. \<exists>ff.
     (\<forall>w. buffered_httpFilterConfigFactory U cfg w = (Ok (Some ff), w)) \<and>
     (\<forall>rq. \<exists>f. (\<forall>w. ff rq w = (Ok (Some f), w)) \<and>
        (\<forall>enc bf h b t. goroutine_call U f (task_of enc bf h (Some b) t) =
           body_ops (httpCApiImpl E) b (ed enc cfg))))"

text \<open>The Go side of a stream whose goroutines write \<open>xs enc\<close>.\<close>

definition edited_by ::
    "('h, 'b) envoy \<Rightarrow> (('h, 'b, 'cfg, 'v) bworld, 'cfg) buffered_user \<Rightarrow>
     (bool \<Rightarrow> (BufferAction \<times> string) list) \<Rightarrow> nat \<Rightarrow> bufferedFilter \<Rightarrow> bool" where
  "edited_by E U xs rq o' \<longleftrightarrow> bf_callbacks o' = rq \<and> (\<exists>f. bf_filter o' = Some f \<and>
     (\<forall>enc bf h b t. goroutine_call U f (task_of enc bf h (Some b) t) =
        body_ops (httpCApiImpl E) b (xs enc)))"

lemma edited_by_frame [simp]:
  "edited_by E U xs rq (o'\<lparr>reqHeader := x\<rparr>) = edited_by E U xs rq o'"
  "edited_by E U xs rq (o'\<lparr>rspHeader := x\<rparr>) = edited_by E U xs rq o'"
  by (simp_all add: edited_by_def)

subsection \<open>The first headers\<close>

text \<open>The request object as \<open>createRequest\<close> leaves it.\<close>

definition made_request :: "nat \<Rightarrow> nat \<Rightarrow> httpRequest" where
  "made_request r bf = (httpRequest_new r)\<lparr>finalizer := True, httpFilter := Some bf\<rparr>"

lemma buffered_create:
  assumes "edits_bodies E U ed" "Requests w r = None" "creqs (cside w) r = Some cq"
  shows "\<exists>wc bf o'. createRequest (buffered_plugin U) r w = (Ok (next_ptr w), wc) \<and>
    cside wc = cside w \<and> serves wc r (next_ptr w) (made_request r bf) bf \<and>
    buffered_objs wc bf = Some o' \<and> goroutines (ustate wc) = goroutines (ustate w) \<and>
    edited_by E U (\<lambda>enc. ed enc (configCache w (configId cq))) (next_ptr w) o'"
proof -
  let ?cfg = "configCache w (configId cq)"
  obtain ff where ff: "\<And>w'. buffered_httpFilterConfigFactory U ?cfg w' = (Ok (Some ff), w')"
    "\<And>rq. \<exists>f. (\<forall>w. ff rq w = (Ok (Some f), w)) \<and>
        (\<forall>enc bf h b t. goroutine_call U f (task_of enc bf h (Some b) t) =
           body_ops (httpCApiImpl E) b (ed enc ?cfg))"
    using assms(1) unfolding edits_bodies_def by meson
  obtain f where f: "\<And>w'. ff (next_ptr w) w' = (Ok (Some f), w')"
    "\<forall>enc bf h b t. goroutine_call U f (task_of enc bf h (Some b) t) =
       body_ops (httpCApiImpl E) b (ed enc ?cfg)"
    using ff(2) [of "next_ptr w"] by blast
  let ?o = "\<lparr>bf_callbacks = next_ptr w, reqHeader = None, reqData = None, rspHeader = None,
    rspData = None, bf_filter = Some f\<rparr>"
  have made: "configCache (created r w) = configCache w" "cside (created r w) = cside w"
    "httpRequests (created r w) (next_ptr w) = Some ((httpRequest_new r)\<lparr>finalizer := True\<rparr>)"
    "ustate (created r w) = ustate w"
    by (simp_all add: created_def put_req_def)
  have "edited_by E U (\<lambda>enc. ed enc ?cfg) (next_ptr w) ?o" using f(2) by (simp add: edited_by_def)
  then show ?thesis
    using assms(2,3) made created_views(4) [of r w]
    by (intro exI [of _ "snd (createRequest (buffered_plugin U) r w)"]
        exI [of _ "next_ptr (created r w)"] exI [of _ ?o])
      (simp add: createRequest_after getOrCreateHttpFilterFactory_def configCache_Load_def
        buffered_plugin_def configFactory_def RegisterHttpFilterConfigFactory_def ff(1) f(1)
        new_bufferedFilter_def buffered_objs_def serves_def made_request_def httpRequest_new_def)
qed

lemma buffered_first_callback:
  assumes U: "edits_bodies E U ed"
    and r: "Requests w r = None" "creqs (cside w) r = Some cq" "phase cq = DecodeHeaderPhase"
  shows "\<exists>w2 rq bf o' hp. moeOnHttpHeader C (buffered_plugin U) r 0 n b w =
      (Ok (status_to_u64 StopAndBuffer), w2) \<and> cside w2 = cside w \<and>
    serves w2 r rq (made_request r bf) bf \<and> buffered_objs w2 bf = Some o' \<and>
    reqHeader o' = Some hp \<and> goroutines (ustate w2) = goroutines (ustate w) \<and>
    edited_by E U (\<lambda>enc. ed enc (configCache w (configId cq))) rq o'"
proof -
  obtain wc bf o' where wc: "createRequest (buffered_plugin U) r w = (Ok (next_ptr w), wc)"
    "cside wc = cside w" "serves wc r (next_ptr w) (made_request r bf) bf" "buffered_objs wc bf = Some o'"
    "goroutines (ustate wc) = goroutines (ustate w)"
    "edited_by E U (\<lambda>enc. ed enc (configCache w (configId cq))) (next_ptr w) o'"
    using buffered_create [OF U r(1,2)] by blast
  show ?thesis
    using r(2,3) wc
    by (intro exI [of _ "snd (moeOnHttpHeader C (buffered_plugin U) r 0 n b w)"] exI [of _ "next_ptr w"]
        exI [of _ bf] exI [of _ "o'\<lparr>reqHeader := Some (next_ptr wc)\<rparr>"] exI [of _ "next_ptr wc"])
      (auto simp: moeOnHttpHeader_def header_switch_def new_headerMap_def filter_of_def serves_def
        bufferedFilter_methods_def bufferedFilter_DecodeHeaders_def buffered_objs_def)
qed

text \<open>A stream that Go attends to, with the objects the first callback has made for it.\<close>

definition attended ::
    "('h, 'b) envoy \<Rightarrow> (('h, 'b, 'cfg, 'v) bworld, 'cfg) buffered_user \<Rightarrow>
     (bool \<Rightarrow> (BufferAction \<times> string) list) \<Rightarrow> nat \<Rightarrow> nat \<Rightarrow> nat \<Rightarrow> nat \<Rightarrow> bufferedFilter \<Rightarrow>
     ('h, 'b, 'cfg, 'v) bworld \<Rightarrow> bool" where
  "attended E U xs i r rq bf o' w \<longleftrightarrow>
     (\<exists>n ph. creqs (cside w) r = Some ((httpRequestInternal_new i)\<lparr>configId := n, phase := ph\<rparr>)) \<and>
     serves w r rq (made_request r bf) bf \<and> buffered_objs w bf = Some o' \<and> edited_by E U xs rq o'"

lemma attended_at [simp]: "attended E U xs i r rq bf o' (at i' F w) = attended E U xs i r rq bf o' w"
  by (simp add: attended_def)

lemma attendedE:
  assumes "attended E U xs i r rq bf o' w"
  obtains cq n ph where "creqs (cside w) r = Some cq" "cq = (httpRequestInternal_new i)\<lparr>configId := n, phase := ph\<rparr>"
    "weakFilter cq = i" "serves w r rq (made_request r bf) bf" "buffered_objs w bf = Some o'"
    "edited_by E U xs rq o'"
  using assms by (fastforce simp: attended_def httpRequestInternal_new_def)

lemma attended_started:
  assumes "attended E U xs i r rq bf o' w" "creqs (cside w) r = Some cq" "started r cq w ts w2"
    and "buffered_objs w2 bf = Some o2" "edited_by E U xs rq o2"
  shows "attended E U xs i r rq bf o2 w2"
proof -
  obtain n ph where "cq = (httpRequestInternal_new i)\<lparr>configId := n, phase := ph\<rparr>"
    using assms(1,2) by (auto simp: attended_def)
  then have "\<exists>n ph. creqs (cside w2) r = Some ((httpRequestInternal_new i)\<lparr>configId := n, phase := ph\<rparr>)"
    using assms(3) by (auto simp: started_def left_alone_def)
  then show ?thesis
    using assms started_serves [OF assms(3)] by (auto simp: attended_def)
qed

text \<open>The filter once the adapter has asked for the body of the request.\<close>

definition wants_request :: "nat \<Rightarrow> nat \<Rightarrow> 'b Filter \<Rightarrow> 'b Filter" where
  "wants_request h r F = (let G = first_request False h r F in
     set_side False (snd (handleHeaderGolangStatus GStopAndBuffer (side False G))) G)"

lemma wants_request_simps [simp]:
  "side False (wants_request h r F) = (side False F)\<lparr>end_stream := False, do_end_stream := False,
     fstate := WaitingAllData\<rparr>"
  "side True (wants_request h r F) = side True F" "filter_req (wants_request h r F) = Some r"
  "has_destroyed (wants_request h r F) = has_destroyed F"
  "enter_encoding (wants_request h r F) = enter_encoding F"
  "local_reply_waiting_go (wants_request h r F) = local_reply_waiting_go F"
  by (simp_all add: wants_request_def Let_def handleHeader_apply)

lemma request_headers:
  assumes U: "edits_bodies E U ed"
    and F: "filters (cside w) i = Some F" "filter_req F = None" "fstate (side False F) = WaitingHeader"
      "isBufferDataEmpty E (side False F)"
    and conf: "\<forall>w'. same_configs w w' \<longrightarrow> mergedConfigId H i False w' = (Ok n, w')"
    and new: "\<forall>c. Requests w (alloc_req H c) = None"
  shows "\<exists>r w2 rq bf o' hp. decodeHeaders E (with_plugin C (buffered_plugin U) H) i h False w =
      (Ok False, at i (wants_request h r F) w2) \<and>
    attended E U (\<lambda>enc. ed enc (configCache w n)) i r rq bf o' w2 \<and> reqHeader o' = Some hp \<and>
    posted (cside w2) = posted (cside w) \<and> envoy_calls (cside w2) = envoy_calls (cside w) \<and>
    goroutines (ustate w2) = goroutines (ustate w)"
proof -
  let ?H = "with_plugin C (buffered_plugin U) H"
  let ?n = "hm_size E (hm_heap (cside w) h)" and ?b = "hm_byteSize E (hm_heap (cside w) h)"
  define r where "r = first_id ?H i False F w"
  define q where "q = (httpRequestInternal_new i)\<lparr>configId := n\<rparr>"
  define G where "G = first_request False h r F"
  let ?w = "at i G (with_phase r q DecodeHeaderPhase (with_creq r i n w))"
  have w: "Requests ?w r = None" "creqs (cside ?w) r = Some (q\<lparr>phase := DecodeHeaderPhase\<rparr>)"
    "phase (q\<lparr>phase := DecodeHeaderPhase\<rparr>) = DecodeHeaderPhase"
    "configId (q\<lparr>phase := DecodeHeaderPhase\<rparr>) = n" "configCache ?w n = configCache w n"
    using new by (simp_all add: r_def first_id_new q_def) (simp add: at_def with_phase_def with_creq_def)
  obtain w2 rq bf o' hp where w2: "moeOnHttpHeader C (buffered_plugin U) r 0 ?n ?b ?w =
      (Ok (status_to_u64 StopAndBuffer), w2)" "cside w2 = cside ?w"
    "serves w2 r rq (made_request r bf) bf" "buffered_objs w2 bf = Some o'" "reqHeader o' = Some hp"
    "goroutines (ustate w2) = goroutines (ustate ?w)"
    "edited_by E U (\<lambda>enc. ed enc (configCache w n)) rq o'"
    using buffered_first_callback [OF U w(1-3), of C ?n ?b] unfolding w(4,5) by blast
  have "decodeHeaders E ?H i h False w =
    (let status = golangStatus (c_int (status_to_u64 StopAndBuffer)); G = first_request False h r F;
         G' = set_side False (snd (handleHeaderGolangStatus status (side False G))) G
     in (Ok (status = GContinue), at i (if status = GContinue then G'\<lparr>headers_ptr := None\<rparr> else G') w2))"
    by (rule decodeHeaders_first [OF F _ _ r_def q_def])
      (use conf w2(1,2) in \<open>simp_all add: with_plugin_def G_def flag_def\<close>)
  then have "decodeHeaders E ?H i h False w = (Ok False, at i (wants_request h r F) w2)"
    unfolding wants_request_def golangStatus_of_status by (simp add: Let_def)
  moreover have "attended E U (\<lambda>enc. ed enc (configCache w n)) i r rq bf o' w2"
    using w2(2,3,4,7) w(2) by (auto simp: attended_def q_def)
  moreover have "posted (cside w2) = posted (cside w)" "envoy_calls (cside w2) = envoy_calls (cside w)"
    "goroutines (ustate w2) = goroutines (ustate w)"
    using w2(2,6) by simp_all (simp add: with_creq_def)
  ultimately show ?thesis using w2(5) by blast
qed

subsection \<open>The request\<close>

definition decode_message ::
    "('h, 'b) envoy \<Rightarrow> ('h, 'b, 'cfg, 'u) stream_host \<Rightarrow> nat \<Rightarrow> nat \<Rightarrow> 'b envoy_input list \<Rightarrow>
     (('h, 'b, 'cfg, 'u) world, bool list) go" where
  "decode_message E H i h xs = go_bind (decodeHeaders E H i h (xs = [])) (\<lambda>r.
     go_bind (deliver E H i False xs) (\<lambda>rs. go_return (r # rs)))"

abbreviation body_inputs_of :: "'b list \<Rightarrow> 'b \<Rightarrow> 'b envoy_input list" where
  "body_inputs_of ds d \<equiv> map (\<lambda>d. DataIn d False) ds @ [DataIn d True]"

text \<open>The filter while Go has a whole body, and nothing else is to come in that direction.\<close>

definition with_body :: "('h, 'b) envoy \<Rightarrow> bool \<Rightarrow> nat \<Rightarrow> string \<Rightarrow> 'b Filter \<Rightarrow> bool" where
  "with_body E enc r body G \<longleftrightarrow> enter_encoding G = enc \<and> \<not> local_reply_waiting_go G \<and>
     \<not> has_destroyed G \<and> filter_req G = Some r \<and> fstate (side enc G) = ProcessingData \<and>
     do_end_stream (side enc G) \<and> end_stream (side enc G) \<and> \<not> seen_trailers (side enc G) \<and>
     list_bytes E (doDataList (side enc G)) = body"

lemma buffered_request:
  fixes ds :: "'b list" and H :: "('h, 'b, 'cfg, 'v buffered_state) stream_host"
  assumes laws: "buffer_laws E" "no_watermark H" and U: "edits_bodies E U ed"
    and F: "filters (cside w) i = Some F" "filter_req F = None" "fstate (side False F) = WaitingHeader"
      "kept_bytes E (side False F) = []" "queue (doDataList (side False F)) = []"
      "\<not> seen_trailers (side False F)" "\<not> local_reply_waiting_go F" "\<not> has_destroyed F"
      "\<not> enter_encoding F"
    and conf: "\<forall>w'. same_configs w w' \<longrightarrow> mergedConfigId H i False w' = (Ok n, w')"
    and new: "\<forall>c. Requests w (alloc_req H c) = None"
    and len: "length (concat (map (bi_bytes E) ds)) < 2 ^ 64"
  shows "\<exists>r G w2 rq bf o' h' b. decode_message E (with_plugin C (buffered_plugin U) H) i h
        (body_inputs_of ds d) w = (Ok (replicate (length ds + 2) False), at i G w2) \<and>
    with_body E False r (concat (map (bi_bytes E) (ds @ [d]))) G \<and> side True G = side True F \<and>
    attended E U (\<lambda>enc. ed enc (configCache w n)) i r rq bf o' w2 \<and>
    handed w2 rq b [] (queue (doDataList (side False G))) \<and>
    posted (cside w2) = posted (cside w) \<and> envoy_calls (cside w2) = envoy_calls (cside w) \<and>
    goroutines (ustate w2) = goroutines (ustate w) @ [RunDecode bf h' (Some b) None]"
proof -
  let ?H = "with_plugin C (buffered_plugin U) H" and ?xs = "\<lambda>enc. ed enc (configCache w n)"
  have "isBufferDataEmpty E (side False F)"
    using isBufferDataEmpty_kept [OF laws(1), of "side False F"] F(4) by simp
  from request_headers [OF U F(1,2,3) this conf new, of C h]
  obtain r w1 rq bf o' hp where w1: "decodeHeaders E ?H i h False w = (Ok False, at i (wants_request h r F) w1)"
    "attended E U ?xs i r rq bf o' w1" "reqHeader o' = Some hp"
    "posted (cside w1) = posted (cside w)" "envoy_calls (cside w1) = envoy_calls (cside w)"
    "goroutines (ustate w1) = goroutines (ustate w)" by blast
  let ?F = "wants_request h r F"
  obtain cq where cq: "creqs (cside w1) r = Some cq" "serves w1 r rq (made_request r bf) bf"
    "buffered_objs w1 bf = Some o'" "edited_by E U ?xs rq o'"
    using w1(2) by (rule attendedE)
  have G: "fstate (side False ?F) = WaitingAllData" "kept_bytes E (side False ?F) = []"
    "filter_req ?F = Some r" "\<not> local_reply_waiting_go ?F" "queue (doDataList (side False ?F)) = []"
    using F by (simp_all add: kept_bytes_def)
  obtain p w2 b where body: "deliver E ?H i False (body_inputs_of ds d) (at i ?F w1) =
        (Ok (replicate (length ds + 1) False), at i (set_side False p ?F) w2)"
      "fstate p = ProcessingData" "do_end_stream p" "end_stream p"
      "seen_trailers p = seen_trailers (side False ?F)"
      "list_bytes E (doDataList p) = concat (map (bi_bytes E) (ds @ [d]))"
      "started r cq w1 [RunDecode bf (reqHeader o') (Some b) None] w2"
      "buffered_objs w2 bf = Some o'" "handed w2 rq b [] (queue (doDataList p))"
    using buffered_body [OF laws G cq(1-3) len, of C U i d] by auto
  let ?G = "set_side False p ?F"
  have "decode_message E ?H i h (body_inputs_of ds d) w =
      (Ok (replicate (length ds + 2) False), at i ?G w2)"
    using w1(1) body(1) by (simp add: decode_message_def)
  moreover have "with_body E False r (concat (map (bi_bytes E) (ds @ [d]))) ?G"
    using body(2-6) F(6-9) by (simp add: with_body_def)
  moreover have "side True ?G = side True F"
    using wants_request_simps(2) [of h r F] by (simp add: side_def set_side_def)
  moreover have "attended E U ?xs i r rq bf o' w2"
    by (rule attended_started [OF w1(2) cq(1) body(7,8) cq(4)])
  moreover have "posted (cside w2) = posted (cside w)" "envoy_calls (cside w2) = envoy_calls (cside w)"
    "goroutines (ustate w2) = goroutines (ustate w) @ [RunDecode bf (reqHeader o') (Some b) None]"
    using body(7) w1(4-6) by (simp_all add: started_def left_alone_def)
  moreover have "handed w2 rq b [] (queue (doDataList (side False ?G)))" using body(9) by simp
  ultimately show ?thesis by blast
qed

subsection \<open>Editing the body\<close>

lemma put_queue_side:
  "enter_encoding G = enc \<Longrightarrow> put_queue q G = set_side enc ((side enc G)\<lparr>doDataList := q\<rparr>) G"
  by (auto simp: put_queue_def setProcessorState_def getProcessorState_def side_def set_side_def)

lemma with_body_side: "with_body E enc r body G \<Longrightarrow> getProcessorState G = side enc G"
  by (auto simp: with_body_def getProcessorState_def side_def)

lemma attended_gate:
  assumes "attended E U xs i r rq bf o' w" "with_body E enc r body G"
  shows "api_gate (at i G w) rq = Ok (i, G)"
proof -
  have "isProcessingInGo (getProcessorState G)"
    using assms(2) with_body_side [OF assms(2)] by (simp add: with_body_def isProcessingInGo_def)
  then show ?thesis
    using assms by (auto simp: api_gate_def serves_def made_request_def httpRequest_new_def with_body_def
        elim!: attendedE)
qed

lemma edited_once:
  assumes laws: "buffer_laws E" and w: "attended E U xs i r rq bf o' w" "with_body E enc r body G"
    and b: "httpBuffers w b = Some h" "buf_request h = rq"
      "queue (doDataList (side enc G)) = [(envoyBufferInstance h, x)]" "length s < 2 ^ 31"
    and len: "length body < 2 ^ 64"
  shows "\<exists>G' x'. buffer_helper (httpCApiImpl E) b s act (at i G w) = (Ok (), at i G' w) \<and>
    with_body E enc r (body_spec act s body) G' \<and> side (\<not> enc) G' = side (\<not> enc) G \<and>
    queue (doDataList (side enc G')) = [(envoyBufferInstance h, x')]"
proof -
  let ?a = "envoyBufferInstance h" and ?x = "apply_action E (c_action act) s x"
  let ?q = "(doDataList (side enc G))\<lparr>queue := [(?a, ?x)]\<rparr>"
  let ?G = "set_side enc ((side enc G)\<lparr>doDataList := ?q\<rparr>) G"
  note gate = attended_gate [OF w] and here = with_body_side [OF w(2)]
  have q: "filter_queue G = [(?a, x)]" using b(3) here by (simp add: filter_queue_def)
  have view: "buffer_view (at i G w) (buf_request h) ?a = Ok x"
    using gate q b(2) by (simp add: buffer_view_def find_buffer_def)
  have h: "httpBuffers (at i G w) b = Some h" using b(1) by (simp add: at_def)
  have x: "bi_bytes E x = body" using w(2) b(3) by (simp add: with_body_def list_bytes_def)
  have enc: "enter_encoding G = enc" using w(2) by (simp add: with_body_def)
  have "put_buffer rq ?a ?x (at i G w) = at i ?G w"
    using gate q by (simp add: put_buffer_def upd_buffer_def here put_queue_side [OF enc])
      (simp add: at_def put_filter_def)
  then have "buffer_helper (httpCApiImpl E) b s act (at i G w) = (Ok (), at i ?G w)"
    using bufs.helper_step [OF h view b(4), where act = act] b(2) by simp
  moreover have "bi_bytes E ?x = body_spec act s body"
    using bufs.apply_action_bytes [OF laws, where b = x and act = act and s = s] x len by simp
  then have "with_body E enc r (body_spec act s body) ?G"
    using w(2) by (simp add: with_body_def list_bytes_def)
  moreover have "side (\<not> enc) ?G = side (\<not> enc) G" by (simp add: side_def set_side_def)
  ultimately show ?thesis by (intro exI [of _ ?G] exI [of _ ?x]) simp
qed

text \<open>The texts fit the calls, and the body never outgrows what a length can say.\<close>

definition writes_fit :: "(BufferAction \<times> string) list \<Rightarrow> string \<Rightarrow> bool" where
  "writes_fit xs body \<longleftrightarrow> ops_fit xs \<and> (\<forall>n \<le> length xs. length (body_specs (take n xs) body) < 2 ^ 64)"

lemma writes_fit_Cons:
  assumes "writes_fit ((act, s) # xs) body"
  shows "length s < 2 ^ 31" "length body < 2 ^ 64" "writes_fit xs (body_spec act s body)"
proof -
  have n: "length (body_specs (take n ((act, s) # xs)) body) < 2 ^ 64" if "n \<le> Suc (length xs)" for n
    using assms that by (simp add: writes_fit_def)
  show "length s < 2 ^ 31" using assms by (simp add: writes_fit_def ops_fit_def)
  show "length body < 2 ^ 64" using n [of 0] by simp
  show "writes_fit xs (body_spec act s body)"
    using assms n [of "Suc _"] by (simp add: writes_fit_def ops_fit_def)
qed

lemma edited_body:
  assumes laws: "buffer_laws E" and w: "attended E U ys i r rq bf o' w"
    and b: "httpBuffers w b = Some h" "buf_request h = rq"
  shows "with_body E enc r body G \<Longrightarrow> queue (doDataList (side enc G)) = [(envoyBufferInstance h, x)] \<Longrightarrow>
    writes_fit xs body \<Longrightarrow>
    \<exists>G'. body_ops (httpCApiImpl E) b xs (at i G w) = (Ok (), at i G' w) \<and>
      with_body E enc r (body_specs xs body) G' \<and> side (\<not> enc) G' = side (\<not> enc) G"
proof (induction xs arbitrary: G x body)
  case Nil
  then show ?case by auto
next
  case (Cons a xs)
  obtain act s where a: "a = (act, s)" by (cases a)
  note fit = writes_fit_Cons [OF Cons.prems(3) [unfolded a]]
  obtain G1 x1 where G1: "buffer_helper (httpCApiImpl E) b s act (at i G w) = (Ok (), at i G1 w)"
      "with_body E enc r (body_spec act s body) G1" "side (\<not> enc) G1 = side (\<not> enc) G"
      "queue (doDataList (side enc G1)) = [(envoyBufferInstance h, x1)]"
    using edited_once [OF laws w Cons.prems(1) b Cons.prems(2) fit(1,2)] by blast
  obtain G' where "body_ops (httpCApiImpl E) b xs (at i G1 w) = (Ok (), at i G' w)"
      "with_body E enc r (body_specs xs (body_spec act s body)) G'"
      "side (\<not> enc) G' = side (\<not> enc) G1"
    using Cons.IH [OF G1(2,4) fit(3)] by blast
  then show ?case
    using G1(1,3) by (cases act) (auto simp: a httpBuffer_SetString_def httpBuffer_AppendString_def
        httpBuffer_PrependString_def)
qed

subsection \<open>The turn of the goroutine\<close>

lemma attended_cong:
  assumes "attended E U xs i r rq bf o' w" "creqs (cside v) = creqs (cside w)"
    "Requests v = Requests w" "httpRequests v = httpRequests w" "ustate v = ustate w"
  shows "attended E U xs i r rq bf o' v"
  using assms serves_cong [of v w] by (simp add: attended_def buffered_objs_def)

text \<open>The filter when a message has gone on, and what is left of it.\<close>

definition gone_on :: "bool \<Rightarrow> nat \<Rightarrow> 'b Filter \<Rightarrow> 'b Filter \<Rightarrow> bool" where
  "gone_on enc r G G' \<longleftrightarrow> fstate (side enc G') = Done \<and> side (\<not> enc) G' = side (\<not> enc) G \<and>
     enter_encoding G' = enc \<and> \<not> local_reply_waiting_go G' \<and> \<not> has_destroyed G' \<and>
     filter_req G' = Some r"

lemma body_turn:
  fixes H :: "('h, 'b, 'cfg, 'v buffered_state) stream_host"
  assumes laws: "buffer_laws E" "takes_data H"
    and w: "attended E U xs i r rq bf o' w" "with_body E enc r body G"
      "handed w rq b [] (queue (doDataList (side enc G)))" and fit: "writes_fit (xs enc) body"
  shows "\<exists>w2 G' w3 x. run_goroutine (httpCApiImpl E) U (task_of enc bf h (Some b) t) (at i G w) = (Ok (), w2) \<and>
    posted (cside w2) = posted (cside w) @ [(i, continue_event)] \<and>
    run_closure E (with_plugin C P H) i continue_event w2 = (Ok (), at i G' w3) \<and>
    gone_on enc r G G' \<and> attended E U xs i r rq bf o' w3 \<and>
    posted (cside w3) = posted (cside w) @ [(i, continue_event)] \<and>
    envoy_calls (cside w3) = envoy_calls (cside w) @ [InjectCall enc x True] \<and>
    bi_bytes E x = body_specs (xs enc) body"
proof -
  let ?t = "task_of enc bf h (Some b) t"
  obtain a m y where q: "queue (doDataList (side enc G)) = [(a, y)]"
    and hb: "httpBuffers w b = Some \<lparr>buf_request = rq, envoyBufferInstance = a, buf_length = m,
      buf_value = []\<rparr>"
    using w(3) by (auto simp: handed_def)
  obtain f where f: "bf_filter o' = Some f" "bf_callbacks o' = rq"
    "goroutine_call U f ?t = body_ops (httpCApiImpl E) b (xs enc)"
    using w(1) by (auto simp: attended_def edited_by_def)
  obtain G1 where G1: "body_ops (httpCApiImpl E) b (xs enc) (at i G w) = (Ok (), at i G1 w)"
    "with_body E enc r (body_specs (xs enc) body) G1" "side (\<not> enc) G1 = side (\<not> enc) G"
    using edited_body [OF laws(1) w(1) hb _ w(2) _ fit] q by auto
  have go: "goroutine_filter ?t = bf" "goroutine_call U f ?t (at i G w) = (Ok (), at i G1 w)"
    "buffered_objs (at i G w) bf = Some o'" "httpRequests (at i G1 w) rq = Some (made_request r bf)"
    "creqs (cside (at i G1 w)) (req (made_request r bf)) \<noteq> None"
    using w(1) f(3) G1(1) by (auto simp: attended_def serves_def made_request_def httpRequest_new_def
        task_of_def)
  let ?w = "w\<lparr>cside := post i continue_event (cside w)\<rparr>"
  have run: "run_goroutine (httpCApiImpl E) U ?t (at i G w) = (Ok (), at i G1 ?w)"
    using task_posts [OF go(1-3) f(1,2) go(4,5) attended_gate [OF w(1) G1(2)]] unfolding post_at .
  have takes: "takes_data (with_plugin C P H)" using laws(2) by (simp add: takes_data_def with_plugin_def)
  have G: "\<not> has_destroyed G1" "\<not> local_reply_waiting_go G1" "enter_encoding G1 = enc"
    "fstate (side enc G1) = ProcessingData" "do_end_stream (side enc G1)" "end_stream (side enc G1)"
    "\<not> seen_trailers (side enc G1)" "filter_req G1 = Some r"
    using G1(2) by (simp_all add: with_body_def)
  obtain x p where inj: "run_closure E (with_plugin C P H) i (PostContinue GContinue) (at i G1 ?w) =
      (Ok (), at i (set_side enc p G1) (calling (InjectCall enc x True) ?w))"
    "bi_bytes E x = list_bytes E (doDataList (side enc G1))" "fstate p = Done"
    using continue_injects [OF laws(1) takes G(1-7), of i ?w] by blast
  have "attended E U xs i r rq bf o' (calling (InjectCall enc x True) ?w)"
    by (rule attended_cong [OF w(1)]) (simp_all add: post_def)
  moreover have "gone_on enc r G (set_side enc p G1)"
    using G G1(3) inj(3) by (simp add: gone_on_def) (auto simp: side_def set_side_def)
  moreover have "bi_bytes E x = body_specs (xs enc) body" using inj(2) G1(2) by (simp add: with_body_def)
  moreover have "posted (cside (at i G1 ?w)) = posted (cside w) @ [(i, continue_event)]"
    "posted (cside (calling (InjectCall enc x True) ?w)) = posted (cside w) @ [(i, continue_event)]"
    "envoy_calls (cside (calling (InjectCall enc x True) ?w)) =
      envoy_calls (cside w) @ [InjectCall enc x True]"
    by (simp_all add: post_def)
  ultimately show ?thesis using run inj(1) [folded continue_event_eq] by blast
qed

subsection \<open>The end of the stream\<close>

lemma attended_destroy:
  assumes "attended E U xs i r rq bf o' w"
  shows "moeOnHttpDestroy (httpCApiImpl E) (buffered_plugin U) r (word_of_int Normal) w =
    (Ok (), free_struct r (disarm rq (del_req r w)))"
proof -
  obtain cq n ph where cq: "creqs (cside w) r = Some cq" "waitSema cq = 0"
    "serves w r rq (made_request r bf) bf"
    using assms by (auto simp: httpRequestInternal_new_def elim!: attendedE)
  have fin: "impl_HttpFinalize rq GCFinalize (disarm rq (del_req r w)) =
      (Ok (), free_struct r (disarm rq (del_req r w)))"
    by (rule Finalize_alive)
      (use cq in \<open>simp_all add: go_object_def alive_def disarm_def del_req_def upd_request_def serves_def
        made_request_def httpRequest_new_def\<close>)
  then show ?thesis
    using cq by (simp add: moeOnHttpDestroy_def getRequest_def GetReq_def serves_def filter_of_def
        bufferedFilter_methods_def bufferedFilter_OnDestroy_def DeleteReq_eq httpRequest_Finalize_def
        disarm_def [symmetric])
qed

lemma gone_on_destroy:
  assumes "gone_on enc r G G'" "attended E U xs i r rq bf o' w"
  shows "\<exists>w'. onDestroy (with_plugin (httpCApiImpl E) (buffered_plugin U) H) i (at i G' w) = (Ok (), w') \<and>
    owns (at i G' w) i r \<and> Requests w' r = None \<and> \<not> alive w' r"
proof -
  have idle: "\<not> isProcessingInGo (getProcessorState G')"
    using assms(1) by (auto simp: gone_on_def getProcessorState_def side_def isProcessingInGo_def)
  let ?F = "G'\<lparr>has_destroyed := True\<rparr>"
  have "attended E U xs i r rq bf o' (at i ?F w)" using assms(2) by simp
  from attended_destroy [OF this] show ?thesis
    using assms(1) idle
    by (simp add: onDestroy_def with_plugin_def gone_on_def owns_def free_struct_def disarm_def
        del_req_def upd_request_def alive_def)
qed

subsection \<open>The exchange\<close>

lemma writes_fit_body: "writes_fit xs (concat (map f (ds @ [d]))) \<Longrightarrow> length (concat (map f ds)) < 2 ^ 64"
  by (auto simp: writes_fit_def dest: spec [of _ 0])

lemma edited_response:
  fixes ds :: "'b list" and H :: "('h, 'b, 'cfg, 'v buffered_state) stream_host"
  assumes laws: "buffer_laws E" "no_watermark H"
    and w: "attended E U xs i r rq bf o' w" "gone_on False r G0 F" "side True F = ProcessorState_new"
    and fit: "writes_fit ys (concat (map (bi_bytes E) (ds @ [d])))"
  shows "\<exists>G w2 o2 h' b. encode_message E (with_plugin C (buffered_plugin U) H) i h
        (body_inputs_of ds d) (at i F w) = (Ok (replicate (length ds + 2) False), at i G w2) \<and>
    with_body E True r (concat (map (bi_bytes E) (ds @ [d]))) G \<and>
    attended E U xs i r rq bf o2 w2 \<and> handed w2 rq b [] (queue (doDataList (side True G))) \<and>
    posted (cside w2) = posted (cside w) \<and> envoy_calls (cside w2) = envoy_calls (cside w) \<and>
    goroutines (ustate w2) = goroutines (ustate w) @ [RunEncode bf h' (Some b) None]"
proof -
  let ?w = "at i F w"
  have w': "attended E U xs i r rq bf o' ?w" using w(1) by simp
  obtain cq where cq: "creqs (cside ?w) r = Some cq" "serves ?w r rq (made_request r bf) bf"
    "buffered_objs ?w bf = Some o'" "edited_by E U xs rq o'"
    using w' by (rule attendedE)
  have F: "filters (cside ?w) i = Some F" "\<not> enter_encoding F" "filter_req F = Some r"
    "\<not> local_reply_waiting_go F" "fstate (side False F) = Done" "fstate (side True F) = WaitingHeader"
    "kept_bytes E (side True F) = []" "queue (doDataList (side True F)) = []"
    using w(2,3) by (simp_all add: gone_on_def)
  obtain G w2 hp b where run: "encode_message E (with_plugin C (buffered_plugin U) H) i h
        (body_inputs_of ds d) ?w = (Ok (replicate (length ds + 2) False), at i G w2)"
    and G: "enter_encoding G" "\<not> local_reply_waiting_go G" "has_destroyed G = has_destroyed F"
      "fstate (side True G) = ProcessingData" "do_end_stream (side True G)" "end_stream (side True G)"
      "seen_trailers (side True G) = seen_trailers (side True F)"
      "list_bytes E (doDataList (side True G)) = concat (map (bi_bytes E) (ds @ [d]))"
      "filter_req G = Some r"
    and w2: "started r cq ?w [RunEncode bf (Some hp) (Some b) None] w2"
      "buffered_objs w2 bf = Some (o'\<lparr>rspHeader := Some hp\<rparr>)"
      "handed w2 rq b [] (queue (doDataList (side True G)))"
    using buffered_response [OF laws F cq(1-3) writes_fit_body [OF fit], of C U h d] by blast
  have "with_body E True r (concat (map (bi_bytes E) (ds @ [d]))) G"
    using G w(2,3) by (simp add: with_body_def gone_on_def)
  moreover have "attended E U xs i r rq bf (o'\<lparr>rspHeader := Some hp\<rparr>) w2"
    by (rule attended_started [OF w' cq(1) w2(1,2)]) (use cq(4) in simp)
  moreover have "posted (cside w2) = posted (cside w)" "envoy_calls (cside w2) = envoy_calls (cside w)"
    "goroutines (ustate w2) = goroutines (ustate w) @ [RunEncode bf (Some hp) (Some b) None]"
    using w2(1) by (simp_all add: started_def left_alone_def)
  ultimately show ?thesis using run w2(3) by blast
qed

lemma edited_exchange:
  fixes ds1 ds2 :: "'b list" and H :: "('h, 'b, 'cfg, 'v buffered_state) stream_host"
    and E :: "('h, 'b) envoy" and U :: "(('h, 'b, 'cfg, 'v) bworld, 'cfg) buffered_user"
  defines "HB \<equiv> with_plugin (httpCApiImpl E) (buffered_plugin U) H"
  assumes laws: "buffer_laws E" "no_watermark H" "takes_data H" and U: "edits_bodies E U ed"
    and F: "filters (cside w) i = Some Filter_new"
    and conf: "\<forall>w'. same_configs w w' \<longrightarrow> mergedConfigId H i False w' = (Ok n, w')"
    and new: "\<forall>c. Requests w (alloc_req H c) = None"
    and xs: "\<And>enc. xs enc = ed enc (configCache w n)"
    and fit: "writes_fit (xs False) (concat (map (bi_bytes E) (ds1 @ [d1])))"
      "writes_fit (xs True) (concat (map (bi_bytes E) (ds2 @ [d2])))"
  shows "\<exists>w1 t1 w2 w3 w4 t2 w5 w6 w7 r x1 x2.
    decode_message E HB i h1 (body_inputs_of ds1 d1) w = (Ok (replicate (length ds1 + 2) False), w1) \<and>
    goroutines (ustate w1) = goroutines (ustate w) @ [t1] \<and>
    run_goroutine (httpCApiImpl E) U t1 w1 = (Ok (), w2) \<and>
    posted (cside w2) = posted (cside w) @ [(i, continue_event)] \<and>
    run_closure E HB i continue_event w2 = (Ok (), w3) \<and>
    encode_message E HB i h2 (body_inputs_of ds2 d2) w3 = (Ok (replicate (length ds2 + 2) False), w4) \<and>
    goroutines (ustate w4) = goroutines (ustate w3) @ [t2] \<and>
    run_goroutine (httpCApiImpl E) U t2 w4 = (Ok (), w5) \<and>
    posted (cside w5) = posted (cside w2) @ [(i, continue_event)] \<and>
    run_closure E HB i continue_event w5 = (Ok (), w6) \<and>
    envoy_calls (cside w6) = envoy_calls (cside w) @ [InjectCall False x1 True, InjectCall True x2 True] \<and>
    bi_bytes E x1 = body_specs (xs False) (concat (map (bi_bytes E) (ds1 @ [d1]))) \<and>
    bi_bytes E x2 = body_specs (xs True) (concat (map (bi_bytes E) (ds2 @ [d2]))) \<and>
    onDestroy HB i w6 = (Ok (), w7) \<and> owns w6 i r \<and> Requests w7 r = None \<and> \<not> alive w7 r"
proof -
  have ys: "(\<lambda>enc. ed enc (configCache w n)) = xs" using xs by auto
  obtain r G w1 rq bf o' h' b where request: "decode_message E HB i h1 (body_inputs_of ds1 d1) w =
        (Ok (replicate (length ds1 + 2) False), at i G w1)"
      "with_body E False r (concat (map (bi_bytes E) (ds1 @ [d1]))) G" "side True G = ProcessorState_new"
      "attended E U xs i r rq bf o' w1" "handed w1 rq b [] (queue (doDataList (side False G)))"
      "posted (cside w1) = posted (cside w)" "envoy_calls (cside w1) = envoy_calls (cside w)"
      "goroutines (ustate w1) = goroutines (ustate w) @ [RunDecode bf h' (Some b) None]"
    using buffered_request [OF laws(1,2) U F _ _ _ _ _ _ _ _ conf new writes_fit_body [OF fit(1)],
        of "httpCApiImpl E" h1 d1]
    unfolding HB_def ys by auto
  obtain w2 G2 w3 x1 where turn1: "run_goroutine (httpCApiImpl E) U (RunDecode bf h' (Some b) None) (at i G w1) =
        (Ok (), w2)" "posted (cside w2) = posted (cside w1) @ [(i, continue_event)]"
      "run_closure E HB i continue_event w2 = (Ok (), at i G2 w3)" "gone_on False r G G2"
      "attended E U xs i r rq bf o' w3" "posted (cside w3) = posted (cside w1) @ [(i, continue_event)]"
      "envoy_calls (cside w3) = envoy_calls (cside w1) @ [InjectCall False x1 True]"
      "bi_bytes E x1 = body_specs (xs False) (concat (map (bi_bytes E) (ds1 @ [d1])))"
    using body_turn [OF laws(1,3) request(4,2,5) fit(1), of h' None "httpCApiImpl E" "buffered_plugin U"]
    unfolding HB_def direction_simps by blast
  have "side True G2 = ProcessorState_new" using turn1(4) request(3) by (simp add: gone_on_def)
  from edited_response [OF laws(1,2) turn1(5,4) this fit(2), of "httpCApiImpl E" h2]
  obtain G3 w4 o2 h'' b2 where response: "encode_message E HB i h2 (body_inputs_of ds2 d2) (at i G2 w3) =
        (Ok (replicate (length ds2 + 2) False), at i G3 w4)"
      "with_body E True r (concat (map (bi_bytes E) (ds2 @ [d2]))) G3"
      "attended E U xs i r rq bf o2 w4" "handed w4 rq b2 [] (queue (doDataList (side True G3)))"
      "posted (cside w4) = posted (cside w3)" "envoy_calls (cside w4) = envoy_calls (cside w3)"
      "goroutines (ustate w4) = goroutines (ustate w3) @ [RunEncode bf h'' (Some b2) None]"
    unfolding HB_def by blast
  obtain w5 G4 w6 x2 where turn2: "run_goroutine (httpCApiImpl E) U (RunEncode bf h'' (Some b2) None) (at i G3 w4) =
        (Ok (), w5)" "posted (cside w5) = posted (cside w4) @ [(i, continue_event)]"
      "run_closure E HB i continue_event w5 = (Ok (), at i G4 w6)" "gone_on True r G3 G4"
      "attended E U xs i r rq bf o2 w6"
      "envoy_calls (cside w6) = envoy_calls (cside w4) @ [InjectCall True x2 True]"
      "bi_bytes E x2 = body_specs (xs True) (concat (map (bi_bytes E) (ds2 @ [d2])))"
    using body_turn [OF laws(1,3) response(3,2,4) fit(2), of h'' None "httpCApiImpl E" "buffered_plugin U"]
    unfolding HB_def direction_simps by blast
  obtain w7 where end_: "onDestroy HB i (at i G4 w6) = (Ok (), w7)" "owns (at i G4 w6) i r"
      "Requests w7 r = None" "\<not> alive w7 r"
    using gone_on_destroy [OF turn2(4,5), of H] unfolding HB_def by blast
  have "goroutines (ustate (at i G w1)) = goroutines (ustate w) @ [RunDecode bf h' (Some b) None]"
    "goroutines (ustate (at i G3 w4)) = goroutines (ustate (at i G2 w3)) @ [RunEncode bf h'' (Some b2) None]"
    "posted (cside w2) = posted (cside w) @ [(i, continue_event)]"
    "posted (cside w5) = posted (cside w2) @ [(i, continue_event)]"
    "envoy_calls (cside (at i G4 w6)) = envoy_calls (cside w) @ [InjectCall False x1 True, InjectCall True x2 True]"
    using request(6-8) turn1(2,6,7) response(5-7) turn2(2,6) by simp_all
  then show ?thesis
    using request(1) turn1(1,3,8) response(1) turn2(1,3,7) end_ by blast
qed

end
