(* ===== verification/Trailer_Flow.thy ===== *)
theory Trailer_Flow
  imports Buffered_Flow
begin

text \<open>
  A response with trailers through the buffered adapter: the trailers make the C++ side hand the kept
  body to Go, and then the trailers, with which the adapter starts its goroutine. Without a body the
  trailers are never handed on.
\<close>

subsection \<open>The adapter's answers\<close>

lemma buffered_encode_more:
  assumes "creqs (cside w) r = Some cq" "phase cq = EncodeDataPhase" "serves w r rq q bf"
    and "buffered_objs w bf = Some o'"
  shows "\<exists>w2 bp. moeOnHttpData C (buffered_plugin U) r 0 a n w =
      (Ok (status_to_u64 StopAndBuffer), w2) \<and> cside w2 = cside w \<and> Requests w2 = Requests w \<and>
    httpRequests w2 = httpRequests w \<and> goroutines (ustate w2) = goroutines (ustate w) \<and>
    buffered_objs w2 bf = Some (o'\<lparr>rspData := Some bp\<rparr>)"
  using assms
  by (auto simp: moeOnHttpData_def getRequest_def GetReq_def new_httpBuffer_def filter_of_def
      serves_def bufferedFilter_methods_def bufferedFilter_EncodeData_def buffered_objs_def)

lemma buffered_encode_trailers:
  assumes "creqs (cside w) r = Some cq" "phase cq = EncodeTrailerPhase" "serves w r rq q bf"
    and "buffered_objs w bf = Some o'"
  shows "\<exists>w2 tp. moeOnHttpHeader C (buffered_plugin U) r 1 n b w =
      (Ok (status_to_u64 Running), w2) \<and> cside w2 = cside w \<and> Requests w2 = Requests w \<and>
    httpRequests w2 = httpRequests w \<and> buffered_objs w2 = buffered_objs w \<and>
    goroutines (ustate w2) = goroutines (ustate w) @ [RunEncode bf (rspHeader o') (rspData o') (Some tp)]"
  using assms
  by (auto simp: moeOnHttpHeader_known header_switch_def new_trailerMap_def filter_of_def serves_def
      bufferedFilter_methods_def encode_defs buffered_objs_def)

subsection \<open>The trailers\<close>

lemma buffered_doTrailerGo:
  assumes F: "fstate (side True F) = WaitingTrailer" "filter_req F = Some r"
    and w: "creqs (cside w) r = Some cq" "serves w r rq q bf" "buffered_objs w bf = Some o'"
  shows "\<exists>w2 tp. doTrailerGo E (with_plugin C (buffered_plugin U) H) i True t (at i F w) =
      (Ok False, at i (set_side True ((side True F)\<lparr>fstate := ProcessingTrailer,
        do_end_stream := True\<rparr>) F) w2) \<and>
    started r cq w [RunEncode bf (rspHeader o') (rspData o') (Some tp)] w2 \<and>
    buffered_objs w2 = buffered_objs w"
proof -
  let ?H = "with_plugin C (buffered_plugin U) H"
  let ?p = "(side True F)\<lparr>fstate := ProcessingTrailer, do_end_stream := True\<rparr>"
  let ?F = "set_side True ?p F"
  let ?w = "at i ?F (with_phase r cq EncodeTrailerPhase w)"
  let ?n = "hm_size E (hm_heap (cside ?w) t)" and ?b = "hm_byteSize E (hm_heap (cside ?w) t)"
  have go: "creqs (cside ?w) r = Some (cq\<lparr>phase := EncodeTrailerPhase\<rparr>)"
      "phase (cq\<lparr>phase := EncodeTrailerPhase\<rparr>) = EncodeTrailerPhase"
      "serves ?w r rq q bf" "buffered_objs ?w bf = Some o'"
    using w by simp_all
  obtain w2 tp where w2: "moeOnHttpHeader C (buffered_plugin U) r 1 ?n ?b ?w =
        (Ok (status_to_u64 Running), w2)" "cside w2 = cside ?w" "Requests w2 = Requests ?w"
      "httpRequests w2 = httpRequests ?w" "buffered_objs w2 = buffered_objs ?w"
      "goroutines (ustate w2) = goroutines (ustate ?w) @
        [RunEncode bf (rspHeader o') (rspData o') (Some tp)]"
    using buffered_encode_trailers [OF go, of C U ?n ?b] by blast
  have "filters (cside w2) i = Some ?F" using w2(2) by simp
  note w2_at = at_self [OF this]
  have ph: "side_phase True ?F = EncodeTrailerPhase"
    by (simp add: side_phase_def set_side_def EncodingProcessorState_phase_def)
  have proc: "processTrailer (side True F) = (Ok (), ?p)"
    using F(1) by (simp add: processTrailer_def)
  have "handleTrailerGolangStatus (golangStatus (c_int (status_to_u64 Running))) ?p = (Ok False, ?p)"
    unfolding golangStatus_of_status by (simp add: handleTrailerGolangStatus_def)
  then have "on_side i True (handleTrailerGolangStatus (golangStatus (c_int (status_to_u64 Running))))
      (at i ?F w2) = (Ok False, at i ?F w2)"
    by (simp only: on_side_at side_simps fst_conv snd_conv)
  then have "doTrailerGo E ?H i True t (at i F w) = (Ok False, at i ?F w2)"
    unfolding doTrailerGo_def using F(2) w(1) w2(1) w2_at
    by (simp add: proc set_phase_at ph with_plugin_def del: on_side_at) (simp add: proc set_phase_at ph)
  moreover have "started r cq w [RunEncode bf (rspHeader o') (rspData o') (Some tp)] w2"
    using w2 by (auto simp: started_def left_alone_def)
  ultimately show ?thesis using w2(5) by (intro exI [of _ w2] exI [of _ tp]) simp
qed

lemma stop_sees_trailers:
  assumes "fstate p = ProcessingData" "seen_trailers p" "isBufferDataEmpty E p"
  shows "handleDataGolangStatus E GStopAndBuffer p = (Ok False, p\<lparr>fstate := WaitingTrailer\<rparr>)"
  using assms by (simp add: handleDataGolangStatus_def see_trailers_def isBufferDataEmpty_def)

text \<open>The body that was kept goes to Go first, as a part that does not end the message.\<close>

lemma buffered_kept_data:
  assumes laws: "buffer_laws E" "no_watermark H"
    and F: "fstate (side True F) = WaitingAllData" "seen_trailers (side True F)"
      "data_buffer (side True F) = Some d" "filter_req F = Some r"
    and w: "creqs (cside w) r = Some cq" "serves w r rq q bf" "buffered_objs w bf = Some o'"
  shows "\<exists>a w2 bp. doBufferedData E (with_plugin C (buffered_plugin U) H) i True False (at i F w) =
      (Ok False, at i (set_side True ((own_state E a d False (side True F))\<lparr>fstate := WaitingTrailer\<rparr>) F) w2) \<and>
    started r cq w [] w2 \<and> buffered_objs w2 bf = Some (o'\<lparr>rspData := Some bp\<rparr>)"
proof -
  let ?H = "with_plugin C (buffered_plugin U) H"
  let ?a = "alloc_buf H (cside (at i (set_side True ((side True F)\<lparr>fstate := ProcessingData,
      do_end_stream := False\<rparr>) F) w))"
  let ?p = "own_state E ?a d False (side True F)"
  let ?w = "at i (set_side True ?p F) (with_phase r cq (data_phase True) w)"
  have go: "creqs (cside ?w) r = Some (cq\<lparr>phase := data_phase True\<rparr>)"
      "phase (cq\<lparr>phase := data_phase True\<rparr>) = EncodeDataPhase"
      "serves ?w r rq q bf" "buffered_objs ?w bf = Some o'"
    using w by (simp_all add: data_phase_def)
  obtain w2 bp where w2: "moeOnHttpData C (buffered_plugin U) r 0 ?a
        (bi_length E (fst (bi_move E (bi_new E) d))) ?w = (Ok (status_to_u64 StopAndBuffer), w2)"
      "cside w2 = cside ?w" "Requests w2 = Requests ?w" "httpRequests w2 = httpRequests ?w"
      "goroutines (ustate w2) = goroutines (ustate ?w)"
      "buffered_objs w2 bf = Some (o'\<lparr>rspData := Some bp\<rparr>)"
    using buffered_encode_more [OF go, of C U ?a] by blast
  have F2: "filters (cside w2) i = Some (set_side True ?p F)" using w2(2) by simp
  have stop: "handleDataGolangStatus E (golangStatus (c_int (status_to_u64 StopAndBuffer)))
      (side True (set_side True ?p F)) = (Ok False, ?p\<lparr>fstate := WaitingTrailer\<rparr>)"
    unfolding golangStatus_of_status side_simps(1) [of True ?p F]
    by (rule stop_sees_trailers) (use F laws(1) own_state_empty in simp_all)
  have quiet: "no_watermark ?H" using laws(2) by simp
  have "doBufferedData E ?H i True False (at i F w) =
      (Ok False, at i (set_side True (?p\<lparr>fstate := WaitingTrailer\<rparr>) (set_side True ?p F)) w2)"
    by (rule doBufferedData_at [OF quiet _ F(3,4) w(1) _ _ F2 stop, where a = ?a])
      (use w2(1) F(1,2) in \<open>simp_all add: with_plugin_def flag_def\<close>)
  moreover have "started r cq w [] w2" using w2 by (auto simp: started_def left_alone_def)
  ultimately show ?thesis using w2(6) by auto
qed

lemma buffered_trailers:
  assumes laws: "buffer_laws E" "no_watermark H"
    and F: "fstate (side True F) = WaitingAllData" "\<not> end_stream (side True F)"
      "\<not> do_end_stream (side True F)" "data_buffer (side True F) = Some d"
      "\<not> isBufferDataEmpty E (side True F)" "filter_req F = Some r" "\<not> local_reply_waiting_go F"
    and w: "creqs (cside w) r = Some cq" "serves w r rq q bf" "buffered_objs w bf = Some o'"
  shows "\<exists>G a w2 bp tp. input E (with_plugin C (buffered_plugin U) H) i True (TrailersIn t) (at i F w) =
      (Ok False, at i G w2) \<and>
    enter_encoding G = enter_encoding F \<and> \<not> local_reply_waiting_go G \<and>
    has_destroyed G = has_destroyed F \<and>
    fstate (side True G) = ProcessingTrailer \<and> do_end_stream (side True G) \<and>
    doDataList (side True G) = snd (push E a d (doDataList (side True F))) \<and>
    started r cq w [RunEncode bf (rspHeader o') (Some bp) (Some tp)] w2 \<and>
    buffered_objs w2 bf = Some (o'\<lparr>rspData := Some bp\<rparr>)"
proof -
  let ?H = "with_plugin C (buffered_plugin U) H"
  let ?F1 = "set_side True ((side True F)\<lparr>seen_trailers := True\<rparr>) F"
  let ?F2 = "?F1\<lparr>trailers_ptr := Some t\<rparr>"
  have side2: "side True ?F2 = (side True F)\<lparr>seen_trailers := True\<rparr>" by simp
  have pre: "fstate (side True ?F2) = WaitingAllData" "seen_trailers (side True ?F2)"
      "data_buffer (side True ?F2) = Some d" "filter_req ?F2 = Some r"
    using F by simp_all
  obtain a w1 bp where data: "doBufferedData E ?H i True False (at i ?F2 w) =
      (Ok False, at i (set_side True ((own_state E a d False (side True ?F2))\<lparr>fstate := WaitingTrailer\<rparr>) ?F2) w1)"
      "started r cq w [] w1" "buffered_objs w1 bf = Some (o'\<lparr>rspData := Some bp\<rparr>)"
    using buffered_kept_data [OF laws pre w, of C U i] by blast
  let ?F3 = "set_side True ((own_state E a d False (side True ?F2))\<lparr>fstate := WaitingTrailer\<rparr>) ?F2"
  have F3: "fstate (side True ?F3) = WaitingTrailer" "filter_req ?F3 = Some r" using pre by simp_all
  obtain cq1 ph where cq1: "creqs (cside w1) r = Some cq1" "cq1 = cq\<lparr>phase := ph\<rparr>"
    using data(2) by (auto simp: started_def left_alone_def)
  have serves: "serves w1 r rq q bf" using data(2) w(2) serves_cong by (metis started_def left_alone_def)
  let ?G = "set_side True ((side True ?F3)\<lparr>fstate := ProcessingTrailer, do_end_stream := True\<rparr>) ?F3"
  obtain w2 tp where trailers: "doTrailerGo E ?H i True t (at i ?F3 w1) = (Ok False, at i ?G w2)"
      "started r cq1 w1 [RunEncode bf (rspHeader o') (Some bp) (Some tp)] w2"
      "buffered_objs w2 = buffered_objs w1"
    using buffered_doTrailerGo [OF F3 cq1(1) serves data(3), of E C U H i t] by auto
  have empty: "\<not> isBufferDataEmpty E (side True ?F2)" using F(5) by (simp add: isBufferDataEmpty_def)
  have turn: "doTrailer E ?H i True t (at i ?F1 w) = (Ok False, at i ?G w2)"
    using F(1-3) empty data(1) trailers(1) F3(1) by (simp add: doTrailer_def)
  have "input E ?H i True (TrailersIn t) (at i F w) = (Ok False, at i ?G w2)"
    using F(7) turn by (simp add: encodeTrailers_def)
  moreover have "started r cq w [RunEncode bf (rspHeader o') (Some bp) (Some tp)] w2"
    using started_trans [OF data(2) trailers(2) [unfolded cq1(2)]] by simp
  ultimately show ?thesis using data(3) trailers(3) F(7)
    by (intro exI [of _ ?G] exI [of _ a] exI [of _ w2] exI [of _ bp] exI [of _ tp]) simp
qed

subsection \<open>The continuation\<close>

definition goes_on :: "('h, 'b, 'w) host \<Rightarrow> bool" where
  "goes_on H \<longleftrightarrow> (\<forall>enc. react H (ContinueCall enc) = go_return ())"

lemma goes_on_plugin [simp]: "goes_on (with_plugin C P H) = goes_on H"
  by (simp add: goes_on_def with_plugin_def)

lemma takes_data_plugin [simp]: "takes_data (with_plugin C P H) = takes_data H"
  by (simp add: takes_data_def with_plugin_def)

text \<open>The body is injected with the end of the stream, and the trailers follow.\<close>

lemma continue_trailers:
  assumes laws: "buffer_laws E" and quiet: "takes_data H" "goes_on H"
    and F: "\<not> has_destroyed F" "\<not> local_reply_waiting_go F" "enter_encoding F"
      "fstate (side True F) = ProcessingTrailer" "do_end_stream (side True F)"
      "\<not> BufferList_empty (doDataList (side True F))"
  shows "\<exists>d w' F'. run_closure E H i (PostContinue GContinue) (at i F w) = (Ok (), w') \<and>
    envoy_calls (cside w') = envoy_calls (cside w) @ [InjectCall True d True, ContinueCall True] \<and>
    bi_bytes E d = list_bytes E (doDataList (side True F)) \<and>
    filters (cside w') i = Some F' \<and> fstate (side True F') = Done"
proof -
  let ?p = "(side True F)\<lparr>fstate := Done\<rparr>"
  let ?m = "moveOut E (bi_new E) (doDataList (side True F))"
  let ?F = "set_side True (?p\<lparr>doDataList := snd ?m\<rparr>) F"
  let ?w1 = "(at i ?F w)\<lparr>cside := (cside (at i ?F w))
      \<lparr>envoy_calls := envoy_calls (cside w) @ [InjectCall True (fst ?m) True]\<rparr>\<rparr>"
  let ?w' = "(at i ?F w)\<lparr>cside := (cside (at i ?F w))
      \<lparr>envoy_calls := envoy_calls (cside w) @ [InjectCall True (fst ?m) True, ContinueCall True]\<rparr>\<rparr>"
  have handle: "handleGolangStatus E GContinue (side True F) = (Ok True, ?p)"
    using F by (simp add: handleGolangStatus_def isProcessingInGo_def handleTrailerGolangStatus_def)
  have data: "continue_data E H i True (at i (set_side True ?p F) w) = (Ok (), ?w1)"
    using F quiet by (simp add: continue_data_def continueDoData_def case_prod_unfold Let_def
        call_envoy_def takes_data_def)
  have more: "continueProcessing H True ?w1 = (Ok (), ?w')"
    using quiet(2) by (simp add: continueProcessing_def call_envoy_def goes_on_def)
  have after: "get_filter i ?w' = (Ok ?F, ?w')" by (simp add: get_filter_def)
  have "continue_state E H i True GContinue (at i F w) = (Ok (), ?w')"
    unfolding continue_state_def using F
    by (simp add: handle data more after split: option.split)
  then have "run_closure E H i (PostContinue GContinue) (at i F w) = (Ok (), ?w')"
    using F by (simp add: run_closure_def live_filter_def continueStatusInternal_def)
  moreover have "bi_bytes E (fst ?m) = list_bytes E (doDataList (side True F))"
    by (simp add: moveOut_bytes [OF laws] buffer_lawsD [OF laws])
  ultimately show ?thesis
    by (intro exI [of _ "fst ?m"] exI [of _ ?w'] exI [of _ ?F]) simp
qed

subsection \<open>The whole response\<close>

lemma pushed_not_empty:
  assumes "buffer_laws E" "bi_bytes E d \<noteq> []" "length (bi_bytes E d) < 2 ^ 32"
  shows "\<not> BufferList_empty (snd (push E a d BufferList_new))"
proof -
  have "queue_bytes (snd (push E a d BufferList_new)) = of_nat (length (bi_bytes E d))"
    using queue_bytes_pushes [OF assms(1), of "[(a, d)]" BufferList_new]
    by (simp add: BufferList_new_def)
  then show ?thesis
    using assms(2,3) by (auto simp: BufferList_empty_def word_of_nat_eq_0_iff dest: dvd_imp_le)
qed

text \<open>Headers and trailers only: the trailers wait for a body that will not come.\<close>

lemma buffered_bodyless:
  assumes laws: "buffer_laws E"
    and F: "filters (cside w) i = Some F" "\<not> enter_encoding F" "filter_req F = Some r"
      "\<not> local_reply_waiting_go F" "fstate (side False F) = Done"
      "fstate (side True F) = WaitingHeader" "kept_bytes E (side True F) = []"
    and w: "creqs (cside w) r = Some cq" "serves w r rq q bf" "buffered_objs w bf = Some o'"
  shows "\<exists>G w2. encode_message E (with_plugin C (buffered_plugin U) H) i h [TrailersIn t] w =
      (Ok [False, False], at i G w2) \<and>
    enter_encoding G \<and> has_destroyed G = has_destroyed F \<and> fstate (side True G) = WaitingAllData \<and>
    started r cq w [] w2"
proof -
  let ?H = "with_plugin C (buffered_plugin U) H"
  let ?F = "wants_body h F"
  have empty: "isBufferDataEmpty E (side True F)"
    using isBufferDataEmpty_kept [OF laws, of "side True F"] F(7) by simp
  from buffered_headers [OF F(1,2,3,5,6) empty w, of C U H h]
  obtain w1 where w1: "encodeHeaders E ?H i h False w = (Ok False, at i ?F w1)" "started r cq w [] w1"
    by blast
  let ?F1 = "set_side True ((side True ?F)\<lparr>seen_trailers := True\<rparr>) ?F"
  let ?G = "?F1\<lparr>trailers_ptr := Some t\<rparr>"
  have "isBufferDataEmpty E (side True ?G)" using empty by (simp add: isBufferDataEmpty_def)
  then have "doTrailer E ?H i True t (at i ?F1 w1) = (Ok False, at i ?G w1)"
    by (simp add: doTrailer_def)
  then have "input E ?H i True (TrailersIn t) (at i ?F w1) = (Ok False, at i ?G w1)"
    using F(4) by (simp add: encodeTrailers_def)
  then show ?thesis
    using w1 by (intro exI [of _ ?G] exI [of _ w1]) (simp add: encode_message_def)
qed

lemma buffered_trailers_response:
  fixes ds :: "'b list" and H :: "('h, 'b, 'cfg, 'v buffered_state) stream_host"
  assumes laws: "buffer_laws E" "no_watermark H"
    and F: "filters (cside w) i = Some F" "\<not> enter_encoding F" "filter_req F = Some r"
      "\<not> local_reply_waiting_go F" "fstate (side False F) = Done"
      "fstate (side True F) = WaitingHeader" "kept_bytes E (side True F) = []"
      "doDataList (side True F) = BufferList_new"
    and w: "creqs (cside w) r = Some cq" "serves w r rq q bf" "buffered_objs w bf = Some o'"
    and len: "length (concat (map (bi_bytes E) ds)) < 2 ^ 32" "concat (map (bi_bytes E) ds) \<noteq> []"
  shows "\<exists>G w2 hp bp tp. encode_message E (with_plugin C (buffered_plugin U) H) i h
        (map (\<lambda>d. DataIn d False) ds @ [TrailersIn t]) w =
      (Ok (replicate (length ds + 2) False), at i G w2) \<and>
    enter_encoding G \<and> \<not> local_reply_waiting_go G \<and> has_destroyed G = has_destroyed F \<and>
    fstate (side True G) = ProcessingTrailer \<and> do_end_stream (side True G) \<and>
    \<not> BufferList_empty (doDataList (side True G)) \<and>
    list_bytes E (doDataList (side True G)) = concat (map (bi_bytes E) ds) \<and>
    started r cq w [RunEncode bf (Some hp) (Some bp) (Some tp)] w2 \<and>
    buffered_objs w2 bf = Some (o'\<lparr>rspHeader := Some hp, rspData := Some bp\<rparr>)"
proof -
  let ?H = "with_plugin C (buffered_plugin U) H"
  let ?F = "wants_body h F" and ?body = "concat (map (bi_bytes E) ds)"
  have quiet: "no_watermark ?H" using laws(2) by simp
  have "isBufferDataEmpty E (side True F)"
    using isBufferDataEmpty_kept [OF laws(1), of "side True F"] F(7) by simp
  from buffered_headers [OF F(1,2,3,5,6) this w, of C U H h]
  obtain w1 hp where w1: "encodeHeaders E ?H i h False w = (Ok False, at i ?F w1)"
      "started r cq w [] w1" "buffered_objs w1 bf = Some (o'\<lparr>rspHeader := Some hp\<rparr>)"
    by blast
  obtain cq1 ph where cq1: "creqs (cside w1) r = Some cq1" "cq1 = cq\<lparr>phase := ph\<rparr>"
    using w1(2) by (auto simp: started_def left_alone_def)
  have serves: "serves w1 r rq q bf" using w1(2) w(2) serves_cong by (metis started_def left_alone_def)
  obtain p where p: "deliver E ?H i True (map (\<lambda>d. DataIn d False) ds) (at i ?F w1) =
      (Ok (replicate (length ds) False), at i (set_side True p ?F) w1)"
      "fstate p = WaitingAllData" "doDataList p = doDataList (side True ?F)"
      "do_end_stream p = do_end_stream (side True ?F)" "\<not> end_stream p"
      "kept_bytes E p = kept_bytes E (side True ?F) @ ?body"
    using deliver_kept [OF laws(1) quiet, of ?F True i ds w1] F(4) by auto
  let ?G = "set_side True p ?F"
  have kept: "kept_bytes E p = ?body" using p(6) F(7) by (simp add: kept_bytes_def)
  have "\<not> isBufferDataEmpty E p"
    using isBufferDataEmpty_kept [OF laws(1), of p] kept len by simp
  moreover obtain d where d: "data_buffer p = Some d" "bi_bytes E d = ?body"
    using kept len(2) by (auto simp: kept_bytes_def split: option.splits)
  ultimately have G: "fstate (side True ?G) = WaitingAllData" "\<not> end_stream (side True ?G)"
      "\<not> do_end_stream (side True ?G)" "data_buffer (side True ?G) = Some d"
      "\<not> isBufferDataEmpty E (side True ?G)" "filter_req ?G = Some r" "\<not> local_reply_waiting_go ?G"
    using p F by simp_all
  obtain G' a w2 bp tp where last: "input E ?H i True (TrailersIn t) (at i ?G w1) = (Ok False, at i G' w2)"
      "enter_encoding G' = enter_encoding ?G" "\<not> local_reply_waiting_go G'"
      "has_destroyed G' = has_destroyed ?G" "fstate (side True G') = ProcessingTrailer"
      "do_end_stream (side True G')"
      "doDataList (side True G') = snd (push E a d (doDataList (side True ?G)))"
      "started r cq1 w1 [RunEncode bf (rspHeader (o'\<lparr>rspHeader := Some hp\<rparr>)) (Some bp) (Some tp)] w2"
      "buffered_objs w2 bf = Some (o'\<lparr>rspHeader := Some hp, rspData := Some bp\<rparr>)"
    using buffered_trailers [OF laws G cq1(1) serves w1(3), of C U i t] by auto
  have list: "doDataList (side True G') = snd (push E a d BufferList_new)"
    using last(7) p(3) F(8) by simp
  have "encode_message E ?H i h (map (\<lambda>d. DataIn d False) ds @ [TrailersIn t]) w =
      (Ok (replicate (length ds + 2) False), at i G' w2)"
    using w1(1) p(1) last(1) by (simp add: encode_message_def deliver_append replicate_append_same)
  moreover have "started r cq w [RunEncode bf (Some hp) (Some bp) (Some tp)] w2"
    using started_trans [OF w1(2) last(8) [unfolded cq1(2)]] by simp
  moreover have "list_bytes E (doDataList (side True G')) = ?body"
    using d(2) by (simp add: list push_bytes [OF laws(1)] BufferList_new_def) (simp add: list_bytes_def)
  moreover have "\<not> BufferList_empty (doDataList (side True G'))"
    unfolding list by (rule pushed_not_empty [OF laws(1)]) (use d(2) len in simp_all)
  moreover have "enter_encoding G'" "has_destroyed G' = has_destroyed F"
    using last(2,4) by simp_all
  ultimately show ?thesis using last(3,5,6,9) by blast
qed

text \<open>From the headers to the trailers that follow the injected body.\<close>

lemma trailers_return:
  fixes H :: "('h, 'b, 'cfg, 'v buffered_state) stream_host"
  assumes laws: "buffer_laws E" "no_watermark H" "takes_data H" "goes_on H"
    and F: "filters (cside w) i = Some F" "\<not> enter_encoding F" "filter_req F = Some r"
      "\<not> local_reply_waiting_go F" "fstate (side False F) = Done"
      "fstate (side True F) = WaitingHeader" "kept_bytes E (side True F) = []"
      "doDataList (side True F) = BufferList_new" "\<not> has_destroyed F"
    and w: "creqs (cside w) r = Some cq" "serves w r rq q bf" "buffered_objs w bf = Some o'"
      "weakFilter cq = i"
    and user: "only_reads U f" "bf_filter o' = Some f" "bf_callbacks o' = rq"
    and len: "length (concat (map (bi_bytes E) ds)) < 2 ^ 32" "concat (map (bi_bytes E) ds) \<noteq> []"
  shows "\<exists>w1 hp bp tp w2 w3 b.
    encode_message E (with_plugin C (buffered_plugin U) H) i h
      (map (\<lambda>d. DataIn d False) ds @ [TrailersIn t]) w = (Ok (replicate (length ds + 2) False), w1) \<and>
    envoy_calls (cside w1) = envoy_calls (cside w) \<and>
    goroutines (ustate w1) = goroutines (ustate w) @ [RunEncode bf (Some hp) (Some bp) (Some tp)] \<and>
    run_goroutine (httpCApiImpl E) U (RunEncode bf (Some hp) (Some bp) (Some tp)) w1 = (Ok (), w2) \<and>
    posted (cside w2) = posted (cside w) @ [(i, continue_event)] \<and>
    run_closure E (with_plugin C (buffered_plugin U) H) i continue_event w2 = (Ok (), w3) \<and>
    envoy_calls (cside w3) = envoy_calls (cside w) @ [InjectCall True b True, ContinueCall True] \<and>
    bi_bytes E b = concat (map (bi_bytes E) ds)"
proof -
  let ?H = "with_plugin C (buffered_plugin U) H"
  from buffered_trailers_response [OF laws(1,2) F(1-8) w(1-3) len, of C U h t]
  obtain G v hp bp tp where run: "encode_message E ?H i h
        (map (\<lambda>d. DataIn d False) ds @ [TrailersIn t]) w = (Ok (replicate (length ds + 2) False), at i G v)"
    and G: "enter_encoding G" "\<not> local_reply_waiting_go G" "has_destroyed G = has_destroyed F"
      "fstate (side True G) = ProcessingTrailer" "do_end_stream (side True G)"
      "\<not> BufferList_empty (doDataList (side True G))"
      "list_bytes E (doDataList (side True G)) = concat (map (bi_bytes E) ds)"
    and v: "started r cq w [RunEncode bf (Some hp) (Some bp) (Some tp)] v"
      "buffered_objs v bf = Some (o'\<lparr>rspHeader := Some hp, rspData := Some bp\<rparr>)"
    by blast
  have inGo: "isProcessingInGo (getProcessorState G)"
    using G(1,4) by (simp add: isProcessingInGo_def getProcessorState_def side_def)
  have q: "httpRequests v rq = Some q" "req q = r"
    using v(1) w(2) by (auto simp: started_def left_alone_def serves_def)
  have live: "\<not> has_destroyed G" using G(3) F(9) by simp
  note gate = started_gate [OF v(1) w(4) q live inGo]
  have q': "httpRequests (at i G v) rq = Some q" using q(1) by simp
  let ?o = "o'\<lparr>rspHeader := Some hp, rspData := Some bp\<rparr>"
  have o': "buffered_objs (at i G v) bf = Some ?o" "bf_filter ?o = Some f" "bf_callbacks ?o = rq"
    using v(2) user by simp_all
  obtain w2 where w2: "run_goroutine (httpCApiImpl E) U (RunEncode bf (Some hp) (Some bp) (Some tp))
      (at i G v) = (Ok (), w2)" "cside w2 = post i continue_event (cside (at i G v))"
    using goroutine_posts [OF user(1) o' q' gate(2,1)] by blast
  have "filters (cside w2) i = Some G" using w2(2) by (simp add: post_def)
  note w2_at = at_self [OF this]
  have quiet: "takes_data ?H" "goes_on ?H" using laws(3,4) by simp_all
  obtain b w3 where w3: "run_closure E ?H i (PostContinue GContinue) (at i G w2) = (Ok (), w3)"
      "envoy_calls (cside w3) = envoy_calls (cside w2) @ [InjectCall True b True, ContinueCall True]"
      "bi_bytes E b = list_bytes E (doDataList (side True G))"
    using continue_trailers [OF laws(1) quiet live G(2,1,4,5,6), of i w2] by blast
  have "envoy_calls (cside (at i G v)) = envoy_calls (cside w)"
    "posted (cside (at i G v)) = posted (cside w)"
    "goroutines (ustate (at i G v)) =
      goroutines (ustate w) @ [RunEncode bf (Some hp) (Some bp) (Some tp)]"
    using v(1) by (simp_all add: started_def left_alone_def)
  then show ?thesis
    using run w2 w3 G(7) unfolding w2_at continue_event_eq
    by (intro exI conjI) (assumption | simp add: post_def)+
qed

end
