(* ===== verification/Example_Env.thy ===== *)
theory Example_Env
  imports Metadata Buffered
begin

text \<open>
  A concrete environment on which the properties are evaluated: header maps are lists of entries,
  buffers are strings, names are lowered letter by letter. \<open>ex_world\<close> is a state with one request
  object (pointer 4), its C struct (7) and its filter (5).
\<close>

type_synonym entries = "(string \<times> string) list"

definition lower_char :: "char \<Rightarrow> char" where
  "lower_char c = (let n = of_char c :: nat in if 65 \<le> n \<and> n \<le> 90 then char_of (n + 32) else c)"

definition ex_env :: "(entries, string) envoy" where
  "ex_env = \<lparr>
     env_lower = map lower_char,
     hm_get = (\<lambda>m k. vals k m),
     hm_iterate = (\<lambda>m. m),
     hm_addCopy = (\<lambda>m k v. m @ [(k, v)]),
     hm_setCopy = (\<lambda>m k v. filter (\<lambda>e. fst e \<noteq> k) m @ [(k, v)]),
     hm_remove = (\<lambda>m k. filter (\<lambda>e. fst e \<noteq> k) m),
     hm_size = (\<lambda>m. of_nat (length m)),
     hm_byteSize = (\<lambda>m. of_nat (entries_bytes m)),
     bi_new = [],
     bi_length = (\<lambda>b. of_nat (length b)),
     bi_bytes = (\<lambda>b. b),
     bi_add = (\<lambda>b v. b @ v),
     bi_prepend = (\<lambda>b v. v @ b),
     bi_drain = (\<lambda>b n. drop (unat n) b),
     bi_move = (\<lambda>d s. (d @ s, [])),
     meta_set = (\<lambda>old key v. v),
     routeName = (\<lambda>i. ''route'')\<rparr>"

lemma ex_env_simps [simp]:
  "env_lower ex_env k = map lower_char k"
  "hm_get ex_env m k = vals k m"
  "hm_iterate ex_env m = m"
  "hm_addCopy ex_env m k v = m @ [(k, v)]"
  "hm_setCopy ex_env m k v = filter (\<lambda>e. fst e \<noteq> k) m @ [(k, v)]"
  "hm_remove ex_env m k = filter (\<lambda>e. fst e \<noteq> k) m"
  "bi_new ex_env = []"
  "bi_length ex_env b = of_nat (length b)"
  "bi_bytes ex_env b = b"
  "bi_add ex_env b v = b @ v"
  "bi_prepend ex_env b v = v @ b"
  "bi_drain ex_env b n = drop (unat n) b"
  "bi_move ex_env d s = (d @ s, [])"
  by (simp_all add: ex_env_def)

lemma ex_lower_Foo: "env_lower ex_env ''Foo'' = ''foo''"
  by (simp add: lower_char_def) code_simp

lemma lower_char_idem: "lower_char (lower_char c) = lower_char c"
proof -
  have "of_char c < (256 :: nat)" by simp
  then show ?thesis by (auto simp: lower_char_def Let_def)
qed

lemma vals_filter: "vals k (filter (\<lambda>e. fst e \<noteq> k') m) = (if k = k' then [] else vals k m)"
  by (induction m) auto

lemma ex_header_laws: "header_laws ex_env"
  by (auto simp: header_laws_def vals_filter lower_char_idem)

lemma ex_hm_appends: "hm_appends ex_env k"
  by (simp add: hm_appends_def)

lemma ex_buffer_laws: "buffer_laws ex_env"
  by (simp add: buffer_laws_def)

subsection \<open>States\<close>

type_synonym ex_state = "(entries, string, string, nat) world"

definition ex_filter :: "FilterState \<Rightarrow> (u64 \<times> string) list \<Rightarrow> string Filter" where
  "ex_filter st q = Filter_new\<lparr>headers_ptr := Some 0, trailers_ptr := Some 9, filter_req := Some 7,
     decoding_state := ProcessorState_new\<lparr>fstate := st,
       doDataList := \<lparr>queue = q, queue_bytes = 0\<rparr>\<rparr>\<rparr>"

definition ex_cside :: "FilterState \<Rightarrow> (u64 \<times> string) list \<Rightarrow> entries \<Rightarrow> (entries, string) cstate" where
  "ex_cside st q m = \<lparr>hm_heap = (\<lambda>_. m), filters = [5 \<mapsto> ex_filter st q],
     creqs = [7 \<mapsto> (httpRequestInternal_new 5)\<lparr>phase := 1\<rparr>], posted = [],
     dyn_meta = (\<lambda>_. Map.empty), go_slots = (\<lambda>_. False),
     envoy_calls = [], dsos = [], filterConfigs = Map.empty, routePlugins = Map.empty\<rparr>"

definition ex_world_with ::
    "'u \<Rightarrow> FilterState \<Rightarrow> (u64 \<times> string) list \<Rightarrow> entries \<Rightarrow> headerMapImpl option \<Rightarrow>
     (entries, string, string, 'u) world" where
  "ex_world_with u st q m h = \<lparr>
     httpRequests = [4 \<mapsto> \<lparr>req = 7, httpFilter = Some 4, paniced = False, safePanic = False,
       sema = 0, finalizer = True\<rparr>],
     Requests = [7 \<mapsto> 4],
     headerMaps = (\<lambda>p. if p = 2 then h else None),
     trailerMaps = Map.empty,
     httpBuffers = [3 \<mapsto> \<lparr>buf_request = 4, envoyBufferInstance = 100, buf_length = 3,
       buf_value = []\<rparr>],
     next_ptr = 10,
     configNumGenerator = 0,
     configCache = Map.empty,
     cside = ex_cside st q m,
     ustate = u\<rparr>"

abbreviation ex_world ::
    "FilterState \<Rightarrow> (u64 \<times> string) list \<Rightarrow> entries \<Rightarrow> headerMapImpl option \<Rightarrow> ex_state" where
  "ex_world \<equiv> ex_world_with 0"

lemma ex_world_simps [simp]:
  "httpRequests (ex_world_with u st q m h) r = (if r = 4 then Some \<lparr>req = 7, httpFilter = Some 4,
     paniced = False, safePanic = False, sema = 0, finalizer = True\<rparr> else None)"
  "Requests (ex_world_with u st q m h) k = (if k = 7 then Some 4 else None)"
  "headerMaps (ex_world_with u st q m h) p = (if p = 2 then h else None)"
  "httpBuffers (ex_world_with u st q m h) p = (if p = 3 then Some \<lparr>buf_request = 4,
     envoyBufferInstance = 100, buf_length = 3, buf_value = []\<rparr> else None)"
  "next_ptr (ex_world_with u st q m h) = 10"
  "configCache (ex_world_with u st q m h) n = None"
  "configNumGenerator (ex_world_with u st q m h) = 0"
  "cside (ex_world_with u st q m h) = ex_cside st q m"
  "ustate (ex_world_with u st q m h) = u"
  by (simp_all add: ex_world_with_def)

lemma ex_cside_simps [simp]:
  "hm_heap (ex_cside st q m) a = m"
  "filters (ex_cside st q m) i = (if i = 5 then Some (ex_filter st q) else None)"
  "creqs (ex_cside st q m) r =
     (if r = 7 then Some ((httpRequestInternal_new 5)\<lparr>phase := 1\<rparr>) else None)"
  "posted (ex_cside st q m) = []"
  by (simp_all add: ex_cside_def)

lemma ex_filter_simps [simp]:
  "headers_ptr (ex_filter st q) = Some 0"
  "trailers_ptr (ex_filter st q) = Some 9"
  "filter_req (ex_filter st q) = Some 7"
  "has_destroyed (ex_filter st q) = False"
  "fstate (getProcessorState (ex_filter st q)) = st"
  "filter_queue (ex_filter st q) = q"
  by (simp_all add: ex_filter_def Filter_new_def getProcessorState_def filter_queue_def)

lemma ex_gate:
  "api_gate (ex_world_with u st q m h) 4 =
     (if st \<in> {ProcessingHeader, ProcessingData, ProcessingTrailer} then Ok (5, ex_filter st q)
      else Panic (PanicString ErrNotInGo))"
  by (simp add: api_gate_def isProcessingInGo_def httpRequestInternal_new_def)

lemma ex_header_view: "header_view (ex_world_with u ProcessingHeader q m h) 4 = Ok m"
  by (simp add: header_view_def ex_gate)

subsection \<open>A run of the life cycle\<close>

text \<open>Filter 5 is created, then its struct 7, then its first callback creates the Go object 10.\<close>

definition ex_start :: ex_state where
  "ex_start = \<lparr>httpRequests = Map.empty, Requests = Map.empty, headerMaps = Map.empty,
     trailerMaps = Map.empty, httpBuffers = Map.empty, next_ptr = 10, configNumGenerator = 0,
     configCache = Map.empty,
     cside = \<lparr>hm_heap = (\<lambda>_. []), filters = Map.empty, creqs = Map.empty, posted = [],
     dyn_meta = (\<lambda>_. Map.empty), go_slots = (\<lambda>_. False),
     envoy_calls = [], dsos = [], filterConfigs = Map.empty, routePlugins = Map.empty\<rparr>,
     ustate = 0\<rparr>"

definition ex_struct :: ex_state where
  "ex_struct = new_struct 5 Filter_new 7 (new_filter 5 ex_start)"

definition ex_created :: ex_state where
  "ex_created = snd (moeOnHttpHeader (httpCApiImpl ex_env) default_plugin 7 0 1 2 ex_struct)"

lemma ex_struct_simps:
  "creqs (cside ex_struct) 7 = Some (httpRequestInternal_new 5)"
  "filters (cside ex_struct) 5 = Some (Filter_new\<lparr>filter_req := Some 7\<rparr>)"
  "Requests ex_struct = Map.empty" "httpRequests ex_struct = Map.empty" "next_ptr ex_struct = 10"
  "configCache ex_struct = Map.empty"
  by (simp_all add: ex_struct_def new_struct_def new_filter_def ex_start_def put_creq_def
      put_filter_def)

lemma ex_created_eq: "ex_created = ex_struct\<lparr>next_ptr := 11,
    httpRequests := [10 \<mapsto> \<lparr>req = 7, httpFilter = Some 10, paniced = False, safePanic = False,
      sema = 0, finalizer = True\<rparr>],
    Requests := [7 \<mapsto> 10]\<rparr>"
  by (simp add: ex_created_def moeOnHttpHeader_def ex_struct_simps httpRequestInternal_new_def
      getRequest_def GetReq_def createRequest_def new_request_def StoreReq_def
      getOrCreateHttpFilterFactory_def configCache_Load_def default_plugin_def
      PassThroughFactory_def header_switch_def upd_request_def httpRequest_new_def fun_eq_iff)

lemma ex_created_reachable: "life_reachable ex_env default_plugin ex_created"
proof -
  have "life_start ex_start" by (simp add: life_start_def ex_start_def)
  then have "life_reachable ex_env default_plugin ex_start" by (rule life_init)
  moreover have "life_step ex_env default_plugin ex_start (new_filter 5 ex_start)"
    by (rule NewFilter) (simp add: ex_start_def)
  ultimately have "life_reachable ex_env default_plugin (new_filter 5 ex_start)" by (rule life_next)
  moreover have "life_step ex_env default_plugin (new_filter 5 ex_start) ex_struct"
    unfolding ex_struct_def
    by (rule NewStruct) (simp_all add: new_filter_def put_filter_def ex_start_def Filter_new_def)
  ultimately have "life_reachable ex_env default_plugin ex_struct" by (rule life_next)
  moreover have "life_step ex_env default_plugin ex_struct ex_created"
    unfolding ex_created_def
    by (rule OnHeader [where i = 5 and r = 7 and eos = 0 and num = 1 and bytes = 2 and
          x = "fst (moeOnHttpHeader (httpCApiImpl ex_env) default_plugin 7 0 1 2 ex_struct)"])
      (auto simp: owns_def ex_struct_simps Filter_new_def httpRequestInternal_new_def
        simp del: go_simps)
  ultimately show ?thesis by (rule life_next)
qed

lemma ex_created_views [simp]:
  "armed ex_created 10 7" "Requests ex_created 7 = Some 10"
  "filters (cside ex_created) 5 = Some (Filter_new\<lparr>filter_req := Some 7\<rparr>)"
  "creqs (cside ex_created) 7 = Some (httpRequestInternal_new 5)"
  "httpRequests ex_created 10 = Some \<lparr>req = 7, httpFilter = Some 10, paniced = False,
     safePanic = False, sema = 0, finalizer = True\<rparr>"
  by (simp_all add: ex_created_eq armed_def ex_struct_simps)

subsection \<open>A stream with dynamic metadata\<close>

definition ex_meta :: ex_state where
  "ex_meta = (ex_world ProcessingHeader [] [] None)\<lparr>cside := (ex_cside ProcessingHeader [] [])
     \<lparr>dyn_meta := (\<lambda>i. [''f'' \<mapsto> ''bytes''])\<rparr>\<rparr>"

lemma ex_meta_simps [simp]:
  "httpRequests ex_meta = httpRequests (ex_world ProcessingHeader [] [] None)"
  "Requests ex_meta k = (if k = 7 then Some 4 else None)"
  "creqs (cside ex_meta) = creqs (ex_cside ProcessingHeader [] [])"
  "filters (cside ex_meta) = filters (ex_cside ProcessingHeader [] [])"
  "posted (cside ex_meta) = []"
  "dyn_meta (cside ex_meta) i = [''f'' \<mapsto> ''bytes'']"
  "go_slots (cside ex_meta) = (\<lambda>_. False)"
  by (simp_all add: ex_meta_def ex_cside_def)

lemma ex_meta_gate: "api_gate ex_meta 4 = Ok (5, ex_filter ProcessingHeader [])"
  by (rule trans [OF api_gate_cong ex_gate [of 0 ProcessingHeader "[]" "[]" None, simplified]])
    simp_all

lemma quiet_default: "quiet_plugin default_plugin"
  by (simp add: quiet_plugin_def default_plugin_def passThroughFilter_def)

text \<open>Goroutine 11 waits for its read.\<close>

definition ex_waiting :: "(entries, string, string, nat) meta_conf" where
  "ex_waiting = waiting 7 5 4 ''f'' 11 ((httpRequestInternal_new 5)\<lparr>phase := 1\<rparr>)
     \<lparr>mw = ex_meta, mutex = Map.empty, pcs = [11 \<mapsto> MetaAdd 4 ''f'']\<rparr>"

lemma ex_waiting_views:
  "pcs ex_waiting 11 = Some (MetaWait 4)"
  "filters (cside (mw ex_waiting)) 5 = Some (ex_filter ProcessingHeader [])"
  "creqs (cside (mw ex_waiting)) 7 = Some ((httpRequestInternal_new 5)\<lparr>phase := 1, waitSema := 1\<rparr>)"
  "Requests (mw ex_waiting) 7 = Some 4"
  "httpRequests (mw ex_waiting) 4 = Some \<lparr>req = 7, httpFilter = Some 4, paniced = False,
     safePanic = False, sema = 1, finalizer = True\<rparr>"
  "\<not> go_slots (cside (mw ex_waiting)) 11"
  by (simp_all add: ex_waiting_def waiting_def yielded_def post_def put_creq_def set_slot_def)

subsection \<open>A stream with the buffered adapter\<close>

text \<open>The adapter's object is 4, its callbacks the request 4, the user's filter 4.\<close>

definition ex_buf :: bufferedFilter where
  "ex_buf = \<lparr>bf_callbacks = 4, reqHeader = None, reqData = None, rspHeader = Some 2, rspData = None,
     bf_filter = Some 4\<rparr>"

definition ex_bstate :: "nat buffered_state" where
  "ex_bstate = \<lparr>bufferedFilters = [4 \<mapsto> ex_buf], goroutines = [], user_state = 0\<rparr>"

type_synonym ex_bworld = "(entries, string, string, nat) bworld"

definition ex_buffered :: "int \<Rightarrow> ex_bworld" where
  "ex_buffered ph = (ex_world_with ex_bstate ProcessingData [(100, ''abc'')] [] None)
     \<lparr>cside := (ex_cside ProcessingData [(100, ''abc'')] [])
       \<lparr>creqs := [7 \<mapsto> (httpRequestInternal_new 5)\<lparr>phase := ph\<rparr>]\<rparr>\<rparr>"

lemma ex_buffered_simps [simp]:
  "httpRequests (ex_buffered ph) r =
     httpRequests (ex_world_with ex_bstate ProcessingData [(100, ''abc'')] [] None) r"
  "Requests (ex_buffered ph) k = (if k = 7 then Some 4 else None)"
  "creqs (cside (ex_buffered ph)) k =
     (if k = 7 then Some ((httpRequestInternal_new 5)\<lparr>phase := ph\<rparr>) else None)"
  "buffered_objs (ex_buffered ph) k = (if k = 4 then Some ex_buf else None)"
  "goroutines (ustate (ex_buffered ph)) = []"
  by (simp_all add: ex_buffered_def ex_bstate_def buffered_objs_def)

lemma ex_buffered_gate:
  "api_gate (ex_buffered ph) 4 = Ok (5, ex_filter ProcessingData [(100, ''abc'')])"
  by (simp add: api_gate_def ex_buffered_def isProcessingInGo_def httpRequestInternal_new_def)

text \<open>A user of the adapter whose filters answer every request themselves.\<close>

definition ex_user :: "(ex_bworld, string) buffered_user" where
  "ex_user = \<lparr>
     buffered_httpFilterConfigFactory = (\<lambda>config. go_return (Some (\<lambda>callbacks.
       go_return (Some callbacks)))),
     buffered_filter = (\<lambda>f. \<lparr>
       Decode = (\<lambda>h d t. httpRequest_SendLocalReply (httpCApiImpl ex_env) f 403 ''no'' [] 0 []),
       Encode = (\<lambda>h d t. go_return ())\<rparr>)\<rparr>"

lemma ex_user_abides: "user_abides ex_user"
  using httpCApiImpl_abides [of ex_env, where ?'c = string and ?'d = "nat buffered_state"]
  by (auto simp: user_abides_def ex_user_def factory_abides_def httpRequest_SendLocalReply_def
      api_abides_def intro!: go_inv)

end
