(* ===== verification/Mosn.thy ===== *)
theory Mosn
  imports Lifecycle Header_Refine Buffer_Contract "HOL-Library.AList"
begin

text \<open>
  \<^verbatim>\<open>pkg/http/mosn\<close>: the adapter that runs a chain of MOSN stream filters on an Envoy stream.
  The packages \<^verbatim>\<open>mosn.io/api\<close>, \<^verbatim>\<open>mosn.io/mosn\<close> and
  \<^verbatim>\<open>mosn.io/pkg\<close> are the record \<open>mosn_library\<close> of the operations the adapter calls; a task handed
  to the worker pool is listed in the users' part of the state until a worker runs it.
\<close>

subsection \<open>Values of MOSN's interfaces\<close>

text \<open>
  A \<^verbatim>\<open>mosnApi.HeaderMap\<close> is the adapter's \<^verbatim>\<open>&headerMapImpl{header}\<close> on a header or trailer map of
  \<^verbatim>\<open>pkg/http\<close>, or a map of MOSN's own, given by the entries its \<^verbatim>\<open>Range\<close> meets; a
  \<^verbatim>\<open>mosnApi.IoBuffer\<close> is \<^verbatim>\<open>&bufferImpl{buffer}\<close> or a buffer of MOSN's own.
\<close>

datatype mosn_header = ApiHeader nat | ApiTrailer nat | OwnHeader "(string \<times> string) list"

datatype mosn_body = ApiBuffer nat | OwnBuffer string

text \<open>The methods of the two wrappers that are not those of the wrapped value.\<close>

definition mosn_headerMapImpl_Clone :: "mosn_header \<Rightarrow> ('w, mosn_header) go" where
  "mosn_headerMapImpl_Clone h = go_panic (PanicString ''unsupported yet'')"

definition bufferImpl_Read :: "mosn_body \<Rightarrow> string \<Rightarrow> ('w, int) go" where
  "bufferImpl_Read b p = go_panic implement_me"

definition bufferImpl_ReadOnce :: "mosn_body \<Rightarrow> 'r \<Rightarrow> ('w, int) go" where
  "bufferImpl_ReadOnce b r = go_panic implement_me"

definition bufferImpl_ReadFrom :: "mosn_body \<Rightarrow> 'r \<Rightarrow> ('w, int) go" where
  "bufferImpl_ReadFrom b r = go_panic implement_me"

definition bufferImpl_Grow :: "mosn_body \<Rightarrow> int \<Rightarrow> ('w, unit) go" where
  "bufferImpl_Grow b n = go_panic implement_me"

definition bufferImpl_WriteTo :: "mosn_body \<Rightarrow> 'r \<Rightarrow> ('w, int) go" where
  "bufferImpl_WriteTo b w = go_panic implement_me"

definition bufferImpl_Cap :: "mosn_body \<Rightarrow> ('w, int) go" where
  "bufferImpl_Cap b = go_panic implement_me"

definition bufferImpl_Clone :: "mosn_body \<Rightarrow> ('w, mosn_body) go" where
  "bufferImpl_Clone b = go_panic implement_me"

definition bufferImpl_Alloc :: "mosn_body \<Rightarrow> int \<Rightarrow> ('w, unit) go" where
  "bufferImpl_Alloc b i = go_panic implement_me"

definition bufferImpl_Free :: "mosn_body \<Rightarrow> ('w, unit) go" where
  "bufferImpl_Free b = go_panic implement_me"

definition bufferImpl_Count :: "mosn_body \<Rightarrow> int \<Rightarrow> ('w, int) go" where
  "bufferImpl_Count b i = go_panic implement_me"

definition bufferImpl_EOF :: "mosn_body \<Rightarrow> ('w, bool) go" where
  "bufferImpl_EOF b = go_panic implement_me"

definition bufferImpl_SetEOF :: "mosn_body \<Rightarrow> bool \<Rightarrow> ('w, unit) go" where
  "bufferImpl_SetEOF b eof = go_panic implement_me"

definition bufferImpl_CloseWithError :: "mosn_body \<Rightarrow> 'e \<Rightarrow> ('w, unit) go" where
  "bufferImpl_CloseWithError b err = go_panic implement_me"

subsection \<open>State\<close>

text \<open>\<^verbatim>\<open>type ActiveStream struct\<close>; the worker pool is the one of the package.\<close>

record ActiveStream =
  ctx :: nat
  filterChainName :: string
  filterChain :: nat
  currentReceivePhase :: int
  as_callbacks :: nat
  as_reqHeader :: "mosn_header option"
  as_reqBody :: "mosn_body option"
  as_reqTrailer :: "mosn_header option"
  as_respHeader :: "mosn_header option"
  as_respBody :: "mosn_body option"
  as_respTrailer :: "mosn_header option"

datatype mosn_task = ReceiverTask nat | SenderTask nat

text \<open>\<^verbatim>\<open>moeBuffers\<close> holds a stream or nil.\<close>

record 'v mosn_state =
  streams :: "nat \<Rightarrow> ActiveStream option"
  moeBuffers :: "nat \<Rightarrow> nat option option"
  workPool :: "mosn_task list"
  mosn_user :: 'v

type_synonym ('h, 'b, 'cfg, 'v) mworld = "('h, 'b, 'cfg, 'v mosn_state) world"

text \<open>
  What decoding a configuration and looking up its \<^verbatim>\<open>filter_chain\<close> gives: nothing, a value that is
  not a string, or the name.
\<close>

datatype chain_config = NoChain | ChainNotString | ChainName string

text \<open>
  What the adapter uses of MOSN: the pool of buffer contexts, the filter chains, the constants, the
  variables of a context, and the order in which the runtime ranges over a Go map.
\<close>

record ('w, 'cfg) mosn_library =
  NewContext :: "('w, nat) go"
  FindBuffers :: "nat \<Rightarrow> ('w, nat) go"
  GiveContext :: "nat \<Rightarrow> ('w, unit) go"
  GetDefaultStreamFilterChain :: "('w, nat) go"
  GetStreamFilterFactory :: "string \<Rightarrow> (nat \<Rightarrow> ('w, unit) go) option"
  PutStreamFilterChain :: "nat \<Rightarrow> ('w, unit) go"
  SetReceiveFilterHandler :: "nat \<Rightarrow> nat \<Rightarrow> ('w, unit) go"
  SetSenderFilterHandler :: "nat \<Rightarrow> nat \<Rightarrow> ('w, unit) go"
  RunReceiverFilter :: "nat \<Rightarrow> int \<Rightarrow> mosn_header option \<Rightarrow> mosn_body option \<Rightarrow>
    mosn_header option \<Rightarrow> ('w, unit) go"
  RunSenderFilter :: "nat \<Rightarrow> int \<Rightarrow> mosn_header option \<Rightarrow> mosn_body option \<Rightarrow>
    mosn_header option \<Rightarrow> ('w, unit) go"
  BeforeRoute :: int
  BeforeSend :: int
  StreamFilterContinue :: string
  StreamFilterStop :: string
  ChainOnDestroy :: "nat \<Rightarrow> ('w, unit) go"
  VarHeaderStatus :: "nat \<Rightarrow> ('w, string option) go"
  range_order :: "gomap \<Rightarrow> string list"
  filter_chain_of :: "'cfg option \<Rightarrow> chain_config"

definition active :: "('h, 'b, 'cfg, 'v) mworld \<Rightarrow> nat \<Rightarrow> ActiveStream option" where
  "active w = streams (ustate w)"

definition on_stream ::
    "(ActiveStream \<Rightarrow> ActiveStream) \<Rightarrow> nat \<Rightarrow> (('h, 'b, 'cfg, 'v) mworld, unit) go" where
  "on_stream f s = go_bind (deref active s) (\<lambda>o'. go_modify (\<lambda>w. w\<lparr>ustate := (ustate w)
     \<lparr>streams := (streams (ustate w))(s \<mapsto> f o')\<rparr>\<rparr>))"

definition ScheduleAuto :: "mosn_task \<Rightarrow> (('h, 'b, 'cfg, 'v) mworld, unit) go" where
  "ScheduleAuto t = go_modify (\<lambda>w. w\<lparr>ustate := (ustate w)\<lparr>workPool := workPool (ustate w) @ [t]\<rparr>\<rparr>)"

subsection \<open>Filter chains and buffers\<close>

definition CreateStreamFilterChain ::
    "('w, 'cfg) mosn_library \<Rightarrow> nat \<Rightarrow> string \<Rightarrow> ('w, nat) go" where
  "CreateStreamFilterChain M c name =
     go_bind (GetDefaultStreamFilterChain M) (\<lambda>fm.
     go_then (case GetStreamFilterFactory M name of
         None \<Rightarrow> go_return ()
       | Some createFilterChain \<Rightarrow> createFilterChain fm)
       (go_return fm))"

text \<open>The chain of a stream is never nil.\<close>

definition DestroyStreamFilterChain :: "('w, 'cfg) mosn_library \<Rightarrow> nat \<Rightarrow> ('w, unit) go" where
  "DestroyStreamFilterChain M fm = PutStreamFilterChain M fm"

definition moeBufferCtx_New :: "(('h, 'b, 'cfg, 'v) mworld, nat) go" where
  "moeBufferCtx_New = (\<lambda>w. (Ok (next_ptr w), w\<lparr>next_ptr := Suc (next_ptr w),
     ustate := (ustate w)\<lparr>moeBuffers := (moeBuffers (ustate w))(next_ptr w \<mapsto> None)\<rparr>\<rparr>))"

definition set_moeBuffers :: "nat \<Rightarrow> nat option \<Rightarrow> (('h, 'b, 'cfg, 'v) mworld, unit) go" where
  "set_moeBuffers buf s = go_bind (deref (\<lambda>w. moeBuffers (ustate w)) buf) (\<lambda>_.
     go_modify (\<lambda>w. w\<lparr>ustate := (ustate w)\<lparr>moeBuffers := (moeBuffers (ustate w))(buf \<mapsto> s)\<rparr>\<rparr>))"

definition moeBufferCtx_Reset :: "nat \<Rightarrow> (('h, 'b, 'cfg, 'v) mworld, unit) go" where
  "moeBufferCtx_Reset buf = set_moeBuffers buf None"

definition moeBuffersByContext :: "('w, 'cfg) mosn_library \<Rightarrow> nat \<Rightarrow> ('w, nat) go" where
  "moeBuffersByContext M c = FindBuffers M c"

subsection \<open>The stream as an Envoy filter\<close>

definition new_stream ::
    "ActiveStream \<Rightarrow> (('h, 'b, 'cfg, 'v) mworld, nat) go" where
  "new_stream o' = (\<lambda>w. (Ok (next_ptr w), w\<lparr>next_ptr := Suc (next_ptr w),
     ustate := (ustate w)\<lparr>streams := (streams (ustate w))(next_ptr w \<mapsto> o')\<rparr>\<rparr>))"

definition SetCurrentReceiverPhase ::
    "nat \<Rightarrow> int \<Rightarrow> (('h, 'b, 'cfg, 'v) mworld, unit) go" where
  "SetCurrentReceiverPhase s ph = on_stream (currentReceivePhase_update (\<lambda>_. ph)) s"

definition runReceiverFilters :: "nat \<Rightarrow> (('h, 'b, 'cfg, 'v) mworld, unit) go" where
  "runReceiverFilters s = ScheduleAuto (ReceiverTask s)"

definition runSenderFilters :: "nat \<Rightarrow> (('h, 'b, 'cfg, 'v) mworld, unit) go" where
  "runSenderFilters s = ScheduleAuto (SenderTask s)"

text \<open>The functions a worker runs.\<close>

definition run_task ::
    "('h, 'b, 'cfg, 'v) mworld HttpCAPI \<Rightarrow> (('h, 'b, 'cfg, 'v) mworld, 'cfg) mosn_library \<Rightarrow>
     mosn_task \<Rightarrow> (('h, 'b, 'cfg, 'v) mworld, unit) go" where
  "run_task C M t = (case t of
      ReceiverTask s \<Rightarrow>
        go_then (SetCurrentReceiverPhase s (BeforeRoute M))
       (go_bind (deref active s) (\<lambda>o'.
        go_then (RunReceiverFilter M (filterChain o') (BeforeRoute M) (as_reqHeader o') (as_reqBody o')
            (as_reqTrailer o'))
          (httpRequest_Continue C (as_callbacks o') Continue)))
    | SenderTask s \<Rightarrow>
        go_bind (deref active s) (\<lambda>o'.
        go_then (RunSenderFilter M (filterChain o') (BeforeSend M) (as_respHeader o') (as_respBody o')
            (as_respTrailer o'))
          (httpRequest_Continue C (as_callbacks o') Continue)))"

definition ActiveStream_DecodeHeaders ::
    "nat \<Rightarrow> nat \<Rightarrow> bool \<Rightarrow> (('h, 'b, 'cfg, 'v) mworld, StatusType) go" where
  "ActiveStream_DecodeHeaders s header endStream =
     go_then (on_stream (as_reqHeader_update (\<lambda>_. Some (ApiHeader header))) s)
    (go_then (go_when endStream (runReceiverFilters s)) (go_return Running))"

definition ActiveStream_DecodeData ::
    "nat \<Rightarrow> nat \<Rightarrow> bool \<Rightarrow> (('h, 'b, 'cfg, 'v) mworld, StatusType) go" where
  "ActiveStream_DecodeData s buffer endStream =
     go_then (on_stream (as_reqBody_update (\<lambda>_. Some (ApiBuffer buffer))) s)
    (go_then (go_when endStream (runReceiverFilters s)) (go_return Running))"

definition ActiveStream_DecodeTrailers ::
    "nat \<Rightarrow> nat \<Rightarrow> (('h, 'b, 'cfg, 'v) mworld, StatusType) go" where
  "ActiveStream_DecodeTrailers s trailer =
     go_then (on_stream (as_reqTrailer_update (\<lambda>_. Some (ApiTrailer trailer))) s)
    (go_then (runReceiverFilters s) (go_return Running))"

definition ActiveStream_EncodeHeaders ::
    "nat \<Rightarrow> nat \<Rightarrow> bool \<Rightarrow> (('h, 'b, 'cfg, 'v) mworld, StatusType) go" where
  "ActiveStream_EncodeHeaders s header endStream =
     go_then (on_stream (as_respHeader_update (\<lambda>_. Some (ApiHeader header))) s)
    (go_then (go_when endStream (runSenderFilters s)) (go_return Running))"

definition ActiveStream_EncodeData ::
    "nat \<Rightarrow> nat \<Rightarrow> bool \<Rightarrow> (('h, 'b, 'cfg, 'v) mworld, StatusType) go" where
  "ActiveStream_EncodeData s buffer endStream =
     go_then (on_stream (as_respBody_update (\<lambda>_. Some (ApiBuffer buffer))) s)
    (go_then (go_when endStream (runSenderFilters s)) (go_return Running))"

definition ActiveStream_EncodeTrailers ::
    "nat \<Rightarrow> nat \<Rightarrow> (('h, 'b, 'cfg, 'v) mworld, StatusType) go" where
  "ActiveStream_EncodeTrailers s trailer =
     go_then (on_stream (as_respTrailer_update (\<lambda>_. Some (ApiTrailer trailer))) s)
    (go_then (runSenderFilters s) (go_return Running))"

definition ActiveStream_OnDestroy ::
    "(('h, 'b, 'cfg, 'v) mworld, 'cfg) mosn_library \<Rightarrow> nat \<Rightarrow> int \<Rightarrow>
     (('h, 'b, 'cfg, 'v) mworld, unit) go" where
  "ActiveStream_OnDestroy M s reason = go_bind (deref active s) (\<lambda>o'.
     go_then (ChainOnDestroy M (filterChain o'))
    (go_then (DestroyStreamFilterChain M (filterChain o')) (GiveContext M (ctx o'))))"

definition ActiveStream_methods ::
    "(('h, 'b, 'cfg, 'v) mworld, 'cfg) mosn_library \<Rightarrow> nat \<Rightarrow>
     ('h, 'b, 'cfg, 'v) mworld HttpFilter" where
  "ActiveStream_methods M s = \<lparr>
     DecodeHeaders = ActiveStream_DecodeHeaders s,
     DecodeData = ActiveStream_DecodeData s,
     DecodeTrailers = ActiveStream_DecodeTrailers s,
     EncodeHeaders = ActiveStream_EncodeHeaders s,
     EncodeData = ActiveStream_EncodeData s,
     EncodeTrailers = ActiveStream_EncodeTrailers s,
     OnDestroy = ActiveStream_OnDestroy M s\<rparr>"

definition mosn_ConfigFactory ::
    "(('h, 'b, 'cfg, 'v) mworld, 'cfg) mosn_library \<Rightarrow> 'cfg option \<Rightarrow>
     (('h, 'b, 'cfg, 'v) mworld, ('h, 'b, 'cfg, 'v) mworld HttpFilterFactory option) go" where
  "mosn_ConfigFactory M config = (case filter_chain_of M config of
      NoChain \<Rightarrow> go_return None
    | ChainNotString \<Rightarrow> go_panic (RuntimeError ''interface conversion'')
    | ChainName name \<Rightarrow> go_return (Some (\<lambda>callbacks.
        go_bind (NewContext M) (\<lambda>c.
        go_bind (moeBuffersByContext M c) (\<lambda>buf.
        go_bind (deref (\<lambda>w. moeBuffers (ustate w)) buf) (\<lambda>stream.
        go_bind (case stream of
            Some s \<Rightarrow> go_return s
          | None \<Rightarrow> go_bind (CreateStreamFilterChain M c name) (\<lambda>fm.
              go_bind (new_stream \<lparr>ctx = c, filterChainName = name, filterChain = fm,
                currentReceivePhase = 0, as_callbacks = callbacks, as_reqHeader = None,
                as_reqBody = None, as_reqTrailer = None, as_respHeader = None,
                as_respBody = None, as_respTrailer = None\<rparr>) (\<lambda>s.
              go_then (set_moeBuffers buf (Some s)) (go_return s)))) (\<lambda>s.
        go_bind (deref active s) (\<lambda>o'.
        go_then (SetReceiveFilterHandler M (filterChain o') s)
       (go_then (SetSenderFilterHandler M (filterChain o') s)
          (go_return (Some s)))))))))))"

text \<open>The plugin with this factory registered.\<close>

definition mosn_plugin ::
    "(('h, 'b, 'cfg, 'v) mworld, 'cfg) mosn_library \<Rightarrow> (('h, 'b, 'cfg, 'v) mworld, 'cfg) plugin" where
  "mosn_plugin M = (RegisterHttpFilterConfigFactory (mosn_ConfigFactory M) default_plugin)
     \<lparr>http_filter := ActiveStream_methods M\<rparr>"

subsection \<open>The stream as the handler of MOSN's filters\<close>

text \<open>
  \<^verbatim>\<open>headers.Range\<close> with the function that stores every pair in a local map: the pairs in the order
  they are met, then the map as an association list.
\<close>

fun collect_headers ::
    "nat \<Rightarrow> string list \<Rightarrow> (('h, 'b, 'cfg, 'u) world, (string \<times> string) list) go" where
  "collect_headers h [] = go_return []"
| "collect_headers h (k # ks) = go_bind (go_gets (\<lambda>w. headers_now w h k)) (\<lambda>v. case v of
      None \<Rightarrow> collect_headers h ks
    | Some vs \<Rightarrow> go_bind (go_index vs 0) (\<lambda>x. go_bind (collect_headers h ks) (\<lambda>rest.
        go_return ((k, x) # rest))))"

definition local_map :: "(string \<times> string) list \<Rightarrow> (string \<times> string) list" where
  "local_map es = foldl (\<lambda>m e. AList.update (fst e) (snd e) m) [] es"

definition header_pairs ::
    "('h, 'b, 'cfg, 'v) mworld HttpCAPI \<Rightarrow> (('h, 'b, 'cfg, 'v) mworld, 'cfg) mosn_library \<Rightarrow>
     mosn_header option \<Rightarrow> (('h, 'b, 'cfg, 'v) mworld, (string \<times> string) list) go" where
  "header_pairs C M hdrs = go_bind (not_nil hdrs) (\<lambda>h. case h of
      ApiHeader p \<Rightarrow> go_bind (load_headers C p) (\<lambda>m.
        go_bind (collect_headers p (range_order M m)) (\<lambda>es. go_return (local_map es)))
    | ApiTrailer p \<Rightarrow> go_panic (PanicString ''unsupported yet'')
    | OwnHeader es \<Rightarrow> go_return (local_map es))"

text \<open>\<^verbatim>\<open>buf.String()\<close> on an interface value that may be nil.\<close>

definition body_String ::
    "('h, 'b, 'cfg, 'v) mworld HttpCAPI \<Rightarrow> mosn_body option \<Rightarrow>
     (('h, 'b, 'cfg, 'v) mworld, string) go" where
  "body_String C b = go_bind (not_nil b) (\<lambda>b. case b of
      ApiBuffer p \<Rightarrow> httpBuffer_String C p
    | OwnBuffer s \<Rightarrow> go_return s)"

definition SendHijackReply ::
    "('h, 'b, 'cfg, 'v) mworld HttpCAPI \<Rightarrow> (('h, 'b, 'cfg, 'v) mworld, 'cfg) mosn_library \<Rightarrow> nat \<Rightarrow>
     int \<Rightarrow> mosn_header option \<Rightarrow> (('h, 'b, 'cfg, 'v) mworld, unit) go" where
  "SendHijackReply C M s code hdrs =
     go_bind (header_pairs C M hdrs) (\<lambda>h.
     go_bind (deref active s) (\<lambda>o'.
       httpRequest_SendLocalReply C (as_callbacks o') code [] h 0 []))"

definition SendHijackReplyWithBody ::
    "('h, 'b, 'cfg, 'v) mworld HttpCAPI \<Rightarrow> (('h, 'b, 'cfg, 'v) mworld, 'cfg) mosn_library \<Rightarrow> nat \<Rightarrow>
     int \<Rightarrow> mosn_header option \<Rightarrow> string \<Rightarrow> (('h, 'b, 'cfg, 'v) mworld, unit) go" where
  "SendHijackReplyWithBody C M s code hdrs body =
     go_bind (header_pairs C M hdrs) (\<lambda>h.
     go_bind (deref active s) (\<lambda>o'.
       httpRequest_SendLocalReply C (as_callbacks o') code body h 0 []))"

definition SendDirectResponse ::
    "('h, 'b, 'cfg, 'v) mworld HttpCAPI \<Rightarrow> (('h, 'b, 'cfg, 'v) mworld, 'cfg) mosn_library \<Rightarrow> nat \<Rightarrow>
     mosn_header option \<Rightarrow> mosn_body option \<Rightarrow> mosn_header option \<Rightarrow>
     (('h, 'b, 'cfg, 'v) mworld, unit) go" where
  "SendDirectResponse C M s hdrs buf trailers =
     go_bind (deref active s) (\<lambda>o'.
     go_bind (VarHeaderStatus M (ctx o')) (\<lambda>codeStr. case codeStr of
         None \<Rightarrow> go_return ()
       | Some codeStr \<Rightarrow> (case Atoi codeStr of
           (code, Some err) \<Rightarrow> go_return ()
         | (code, None) \<Rightarrow>
             go_bind (header_pairs C M hdrs) (\<lambda>h.
             go_bind (body_String C buf) (\<lambda>body.
               httpRequest_SendLocalReply C (as_callbacks o') code body h 0 [])))))"

definition send_direct ::
    "('h, 'b, 'cfg, 'v) mworld HttpCAPI \<Rightarrow> (('h, 'b, 'cfg, 'v) mworld, 'cfg) mosn_library \<Rightarrow> nat \<Rightarrow>
     (('h, 'b, 'cfg, 'v) mworld, unit) go" where
  "send_direct C M s = go_bind (deref active s) (\<lambda>o'.
     SendDirectResponse C M s (as_respHeader o') (as_respBody o') (as_respTrailer o'))"

definition AppendHeaders ::
    "('h, 'b, 'cfg, 'v) mworld HttpCAPI \<Rightarrow> (('h, 'b, 'cfg, 'v) mworld, 'cfg) mosn_library \<Rightarrow> nat \<Rightarrow>
     mosn_header option \<Rightarrow> bool \<Rightarrow> (('h, 'b, 'cfg, 'v) mworld, unit) go" where
  "AppendHeaders C M s hdrs endStream =
     go_then (on_stream (as_respHeader_update (\<lambda>_. hdrs)) s)
       (go_when endStream (send_direct C M s))"

definition AppendData ::
    "('h, 'b, 'cfg, 'v) mworld HttpCAPI \<Rightarrow> (('h, 'b, 'cfg, 'v) mworld, 'cfg) mosn_library \<Rightarrow> nat \<Rightarrow>
     mosn_body option \<Rightarrow> bool \<Rightarrow> (('h, 'b, 'cfg, 'v) mworld, unit) go" where
  "AppendData C M s buf endStream =
     go_then (on_stream (as_respBody_update (\<lambda>_. buf)) s)
       (go_when endStream (send_direct C M s))"

definition AppendTrailers ::
    "('h, 'b, 'cfg, 'v) mworld HttpCAPI \<Rightarrow> (('h, 'b, 'cfg, 'v) mworld, 'cfg) mosn_library \<Rightarrow> nat \<Rightarrow>
     mosn_header option \<Rightarrow> (('h, 'b, 'cfg, 'v) mworld, unit) go" where
  "AppendTrailers C M s trailers =
     go_then (on_stream (as_respTrailer_update (\<lambda>_. trailers)) s) (send_direct C M s)"

definition TerminateStream ::
    "('h, 'b, 'cfg, 'v) mworld HttpCAPI \<Rightarrow> (('h, 'b, 'cfg, 'v) mworld, 'cfg) mosn_library \<Rightarrow> nat \<Rightarrow>
     int \<Rightarrow> (('h, 'b, 'cfg, 'v) mworld, bool) go" where
  "TerminateStream C M s code = go_bind (deref active s) (\<lambda>o'.
     if as_respHeader o' \<noteq> None then go_return False
     else go_bind (header_pairs C M (as_reqHeader o')) (\<lambda>h.
       go_then (httpRequest_SendLocalReply C (as_callbacks o') code [] h 0 []) (go_return True)))"

definition stream_field ::
    "(ActiveStream \<Rightarrow> 'a) \<Rightarrow> nat \<Rightarrow> (('h, 'b, 'cfg, 'v) mworld, 'a) go" where
  "stream_field f s = go_bind (deref active s) (\<lambda>o'. go_return (f o'))"

definition GetRequestHeaders :: "nat \<Rightarrow> (('h, 'b, 'cfg, 'v) mworld, mosn_header option) go" where
  "GetRequestHeaders s = stream_field as_reqHeader s"

definition SetRequestHeaders :: "nat \<Rightarrow> mosn_header option \<Rightarrow> (('h, 'b, 'cfg, 'v) mworld, unit) go" where
  "SetRequestHeaders s h = go_panic implement_me"

definition GetRequestData :: "nat \<Rightarrow> (('h, 'b, 'cfg, 'v) mworld, mosn_body option) go" where
  "GetRequestData s = stream_field as_reqBody s"

definition SetRequestData :: "nat \<Rightarrow> mosn_body option \<Rightarrow> (('h, 'b, 'cfg, 'v) mworld, unit) go" where
  "SetRequestData s b = go_panic implement_me"

definition GetRequestTrailers :: "nat \<Rightarrow> (('h, 'b, 'cfg, 'v) mworld, mosn_header option) go" where
  "GetRequestTrailers s = stream_field as_reqTrailer s"

definition SetRequestTrailers :: "nat \<Rightarrow> mosn_header option \<Rightarrow> (('h, 'b, 'cfg, 'v) mworld, unit) go" where
  "SetRequestTrailers s h = go_panic implement_me"

definition GetFilterCurrentPhase :: "nat \<Rightarrow> (('h, 'b, 'cfg, 'v) mworld, int) go" where
  "GetFilterCurrentPhase s = stream_field currentReceivePhase s"

text \<open>The results of \<^verbatim>\<open>Route\<close>, \<^verbatim>\<open>RequestInfo\<close> and \<^verbatim>\<open>Connection\<close> are interfaces of MOSN.\<close>

definition Route :: "nat \<Rightarrow> (('h, 'b, 'cfg, 'v) mworld, 'r) go" where
  "Route s = go_panic implement_me"

definition RequestInfo :: "nat \<Rightarrow> (('h, 'b, 'cfg, 'v) mworld, 'r) go" where
  "RequestInfo s = go_panic implement_me"

definition Connection :: "nat \<Rightarrow> (('h, 'b, 'cfg, 'v) mworld, 'r) go" where
  "Connection s = go_panic implement_me"

definition GetResponseHeaders :: "nat \<Rightarrow> (('h, 'b, 'cfg, 'v) mworld, mosn_header option) go" where
  "GetResponseHeaders s = stream_field as_respHeader s"

definition SetResponseHeaders :: "nat \<Rightarrow> mosn_header option \<Rightarrow> (('h, 'b, 'cfg, 'v) mworld, unit) go" where
  "SetResponseHeaders s h = go_panic implement_me"

definition GetResponseData :: "nat \<Rightarrow> (('h, 'b, 'cfg, 'v) mworld, mosn_body option) go" where
  "GetResponseData s = stream_field as_respBody s"

definition SetResponseData :: "nat \<Rightarrow> mosn_body option \<Rightarrow> (('h, 'b, 'cfg, 'v) mworld, unit) go" where
  "SetResponseData s b = go_panic implement_me"

definition GetResponseTrailers :: "nat \<Rightarrow> (('h, 'b, 'cfg, 'v) mworld, mosn_header option) go" where
  "GetResponseTrailers s = stream_field as_respTrailer s"

definition SetResponseTrailers :: "nat \<Rightarrow> mosn_header option \<Rightarrow> (('h, 'b, 'cfg, 'v) mworld, unit) go" where
  "SetResponseTrailers s h = go_panic implement_me"

end
