(* ===== verification/Echo.thy ===== *)
theory Echo
  imports Mosn
begin

text \<open>
  \<^verbatim>\<open>pkg/filter/stream/echo\<close>: a MOSN stream filter that answers every request with a configured
  reply. Its objects live in the part of the state the MOSN adapter leaves to filters.
\<close>

subsection \<open>factory.go\<close>

record FilterConfigFactory =
  cfg_Status :: int
  cfg_Body :: string
  cfg_Headers :: "(string \<times> string) list"

record EchoFilter =
  echoer :: "FilterConfigFactory option"
  receiverFilterHandler :: "nat option"
  senderHandler :: "nat option"

type_synonym 'v echo_state = "(nat \<Rightarrow> EchoFilter option) \<times> 'v"

type_synonym ('h, 'b, 'cfg, 'v) eworld = "('h, 'b, 'cfg, 'v echo_state) mworld"

definition echoes :: "('h, 'b, 'cfg, 'v) eworld \<Rightarrow> nat \<Rightarrow> EchoFilter option" where
  "echoes w = fst (mosn_user (ustate w))"

definition put_echo ::
    "nat \<Rightarrow> EchoFilter \<Rightarrow> ('h, 'b, 'cfg, 'v) eworld \<Rightarrow> ('h, 'b, 'cfg, 'v) eworld" where
  "put_echo f o' w = w\<lparr>ustate := (ustate w)
     \<lparr>mosn_user := ((fst (mosn_user (ustate w)))(f \<mapsto> o'), snd (mosn_user (ustate w)))\<rparr>\<rparr>"

definition NewEchoFilter ::
    "FilterConfigFactory option \<Rightarrow> (('h, 'b, 'cfg, 'v) eworld, nat) go" where
  "NewEchoFilter f = (\<lambda>w. (Ok (next_ptr w),
     put_echo (next_ptr w) \<lparr>echoer = f, receiverFilterHandler = None, senderHandler = None\<rparr>
       (w\<lparr>next_ptr := Suc (next_ptr w)\<rparr>)))"

text \<open>\<open>add\<close> is \<^verbatim>\<open>callbacks.AddStreamReceiverFilter\<close>.\<close>

definition CreateFilterChain ::
    "(('h, 'b, 'cfg, 'v) eworld, 'cfg) mosn_library \<Rightarrow> FilterConfigFactory option \<Rightarrow>
     (nat \<Rightarrow> int \<Rightarrow> (('h, 'b, 'cfg, 'v) eworld, unit) go) \<Rightarrow>
     (('h, 'b, 'cfg, 'v) eworld, unit) go" where
  "CreateFilterChain M f add = go_bind (NewEchoFilter f) (\<lambda>filter. add filter (BeforeRoute M))"

text \<open>
  \<open>decode\<close> is \<^verbatim>\<open>json.Marshal\<close> and \<^verbatim>\<open>json.Unmarshal\<close> into a struct with an empty header map: an
  error or the struct.
\<close>

definition CreateEchoFilterFactory ::
    "('conf \<Rightarrow> string + FilterConfigFactory) \<Rightarrow> 'conf \<Rightarrow> string + FilterConfigFactory" where
  "CreateEchoFilterFactory decode conf = (case decode conf of
      Inl err \<Rightarrow> Inl err
    | Inr cfg \<Rightarrow> if cfg_Status cfg < 0 then Inl ''status must >= 0'' else Inr cfg)"

subsection \<open>echo.go\<close>

text \<open>The deferred function logs a panic and leaves the zero value of the status.\<close>

definition OnReceive ::
    "('h, 'b, 'cfg, 'v) eworld HttpCAPI \<Rightarrow> (('h, 'b, 'cfg, 'v) eworld, 'cfg) mosn_library \<Rightarrow> nat \<Rightarrow>
     mosn_header option \<Rightarrow> mosn_body option \<Rightarrow> mosn_header option \<Rightarrow>
     (('h, 'b, 'cfg, 'v) eworld, string) go" where
  "OnReceive C M f hdrs buf trailers = go_recover []
     (go_bind (deref echoes f) (\<lambda>o'. case echoer o' of
         None \<Rightarrow> go_return (StreamFilterContinue M)
       | Some c \<Rightarrow>
           if cfg_Status c = 0 then go_return (StreamFilterContinue M)
           else go_bind (not_nil (receiverFilterHandler o')) (\<lambda>s.
             go_then
               (if cfg_Body c \<noteq> [] then
                  SendHijackReplyWithBody C M s (cfg_Status c) (Some (OwnHeader (cfg_Headers c)))
                    (cfg_Body c)
                else SendHijackReply C M s (cfg_Status c) (Some (OwnHeader (cfg_Headers c))))
               (go_return (StreamFilterStop M)))))
     (\<lambda>p. go_return ())"

definition EchoFilter_Append ::
    "('w, 'cfg) mosn_library \<Rightarrow> nat \<Rightarrow> mosn_header option \<Rightarrow> mosn_body option \<Rightarrow>
     mosn_header option \<Rightarrow> ('w, string) go" where
  "EchoFilter_Append M f hdrs buf trailers = go_return (StreamFilterContinue M)"

definition EchoFilter_SetReceiveFilterHandler ::
    "nat \<Rightarrow> nat option \<Rightarrow> (('h, 'b, 'cfg, 'v) eworld, unit) go" where
  "EchoFilter_SetReceiveFilterHandler f handler = go_bind (deref echoes f) (\<lambda>o'.
     go_modify (put_echo f (o'\<lparr>receiverFilterHandler := handler\<rparr>)))"

definition EchoFilter_SetSenderFilterHandler ::
    "nat \<Rightarrow> nat option \<Rightarrow> (('h, 'b, 'cfg, 'v) eworld, unit) go" where
  "EchoFilter_SetSenderFilterHandler f handler = go_bind (deref echoes f) (\<lambda>o'.
     go_modify (put_echo f (o'\<lparr>senderHandler := handler\<rparr>)))"

definition EchoFilter_OnDestroy :: "nat \<Rightarrow> ('w, unit) go" where
  "EchoFilter_OnDestroy f = go_return ()"

definition EchoFilter_Log :: "nat \<Rightarrow> mosn_header option \<Rightarrow> mosn_header option \<Rightarrow> ('w, unit) go" where
  "EchoFilter_Log f reqHeaders respHeaders = go_return ()"

subsection \<open>A reply and what follows it\<close>

lemma active_frame [simp]:
  "active (post_event rq e w) = active w"
  by (simp add: active_def post_event_def split: outcome.split prod.split)

lemma echoes_frame [simp]:
  "echoes (post_event rq e w) = echoes w"
  by (simp add: echoes_def post_event_def split: outcome.split prod.split)

lemma api_gate_ustate [simp]: "api_gate (w\<lparr>ustate := u\<rparr>) r = api_gate w r"
  by (rule api_gate_cong) simp_all

lemma api_gate_post_event [simp]: "api_gate (post_event rq e w) rq = api_gate w rq"
  by (simp add: post_event_def split: outcome.split prod.split)

text \<open>The reply of a configuration, as the event the C side is sent.\<close>

definition echo_event :: "FilterConfigFactory \<Rightarrow> posted_event" where
  "echo_event c = reply_event (cfg_Status c) (cfg_Body c) 0 []"

lemma OnReceive_replies:
  assumes "echoes w f = Some o'" "echoer o' = Some c" "cfg_Status c \<noteq> 0"
    and "receiverFilterHandler o' = Some s" "active w s = Some st" "api_gate w (as_callbacks st) = Ok g"
  shows "OnReceive (httpCApiImpl E) M f h b t w =
    (Ok (StreamFilterStop M), post_event (as_callbacks st) (echo_event c) w)"
proof -
  have "header_pairs (httpCApiImpl E) M (Some (OwnHeader (cfg_Headers c))) w =
      (Ok (local_map (cfg_Headers c)), w)"
    by (simp add: header_pairs_def)
  then show ?thesis
    using assms by (auto simp: OnReceive_def SendHijackReplyWithBody_def SendHijackReply_def
        httpRequest_SendLocalReply_def impl_HttpSendLocalReply_eq echo_event_def)
qed

text \<open>Of the library the filter uses the constants and the order of a range only.\<close>

lemma OnReceive_library:
  assumes "range_order M = range_order M'" "StreamFilterContinue M = StreamFilterContinue M'"
    and "StreamFilterStop M = StreamFilterStop M'"
  shows "OnReceive C M f h b t = OnReceive C M' f h b t"
  unfolding OnReceive_def SendHijackReplyWithBody_def SendHijackReply_def header_pairs_def assms ..

end
