(* ===== verification/Mosn_Flow.thy ===== *)
theory Mosn_Flow
  imports Stream_Continue Echo
begin

text \<open>
  The MOSN adapter on a stream: what the flow of \<^verbatim>\<open>golang_filter.cc\<close> does with the statuses of
  its callbacks, and the tasks of the echo filter.
\<close>

lemma mosn_plugin_filter [simp]: "http_filter (mosn_plugin M) s = ActiveStream_methods M s"
  by (simp add: mosn_plugin_def)

lemma on_stream_apply [simp]:
  "on_stream f s w = (case active w s of None \<Rightarrow> (Panic nil_deref, w)
     | Some o' \<Rightarrow> (Ok (), w\<lparr>ustate := (ustate w)\<lparr>streams := (streams (ustate w))(s \<mapsto> f o')\<rparr>\<rparr>))"
  by (simp add: on_stream_def split: option.split)

lemma ScheduleAuto_apply [simp]:
  "ScheduleAuto t w = (Ok (), w\<lparr>ustate := (ustate w)\<lparr>workPool := workPool (ustate w) @ [t]\<rparr>\<rparr>)"
  by (simp add: ScheduleAuto_def)

text \<open>Response headers that do not end the stream: the adapter answers \<open>Running\<close>, without a task.\<close>

lemma mosn_encode_header:
  assumes "creqs (cside w) r = Some cq" "phase cq = EncodeHeaderPhase" "Requests w r = Some rq"
    and "httpRequests w rq = Some q" "\<not> paniced q" "httpFilter q = Some s" "active w s = Some st"
  shows "\<exists>w2. moeOnHttpHeader C (mosn_plugin M) r 0 n b w = (Ok 0, w2) \<and> cside w2 = cside w \<and>
    workPool (ustate w2) = workPool (ustate w)"
proof -
  have "phase cq \<noteq> DecodeHeaderPhase" using assms(2) by simp
  then show ?thesis
    using assms
    by (simp add: moeOnHttpHeader_known header_switch_def new_headerMap_def filter_of_def
        ActiveStream_methods_def ActiveStream_EncodeHeaders_def active_def status_to_u64_def)
qed

lemma mosn_body_response_stalls:
  assumes F: "filters (cside w) i = Some F" "\<not> enter_encoding F" "\<not> local_reply_waiting_go F"
    "fstate (decoding_state F) = Done" "fstate (encoding_state F) = WaitingHeader"
    "isBufferDataEmpty E (encoding_state F)" "filter_req F = Some r"
    and w: "creqs (cside w) r = Some cq" "Requests w r = Some rq" "httpRequests w rq = Some q"
    "\<not> paniced q" "httpFilter q = Some s" "active w s = Some st"
    and xs: "rest_of_message xs" "xs \<noteq> []" and quiet: "no_watermark H"
  shows "\<exists>w'. encode_message E (with_plugin C (mosn_plugin M) H) i h xs w =
      (Ok (replicate (Suc (length xs)) False), w') \<and>
    workPool (ustate w') = workPool (ustate w) \<and> posted (cside w') = posted (cside w) \<and>
    envoy_calls (cside w') = envoy_calls (cside w) \<and>
    (\<exists>F'. filters (cside w') i = Some F' \<and> isProcessingInGo (encoding_state F'))"
proof -
  let ?H = "with_plugin C (mosn_plugin M) H"
  let ?n = "hm_size E (hm_heap (cside w) h)" and ?b = "hm_byteSize E (hm_heap (cside w) h)"
  let ?w1 = "at i (first_headers h F) (with_phase r cq EncodeHeaderPhase w)"
  let ?G = "headers_answered GRunning h F"
  obtain w2 where w2: "moeOnHttpHeader C (mosn_plugin M) r 0 ?n ?b ?w1 = (Ok 0, w2)"
      "cside w2 = cside ?w1" "workPool (ustate w2) = workPool (ustate w)"
    using mosn_encode_header [of ?w1 r "cq\<lparr>phase := EncodeHeaderPhase\<rparr>" rq q s st C M ?n ?b] w
    by (auto simp: active_def)
  have lib: "lib_moeOnHttpHeader ?H r 0 ?n ?b ?w1 = (Ok 0, w2)"
    using w2(1) by (simp add: with_plugin_def)
  have G: "side True ?G = (side True F)\<lparr>end_stream := False, fstate := ProcessingHeader,
      do_end_stream := False\<rparr>"
    by (simp add: headers_answered_side handleHeader_apply)
  have start: "encodeHeaders E ?H i h False w = (Ok (GRunning = GContinue), at i ?G w2)"
    by (rule encodeHeaders_answered [OF F(1,2,7) _ _ _ w(1) lib w2(2), unfolded golangStatus_of_status])
      (use F in \<open>simp_all add: side_cases\<close>)
  obtain F' where "deliver E ?H i True xs (at i ?G w2) =
      (Ok (replicate (length xs) False), at i F' w2)" "fstate (side True F') = ProcessingHeader"
    using deliver_waits [OF xs(1), of True ?G ?H E i w2] F G quiet by (auto simp: in_callback_def)
  then show ?thesis
    using start w2 xs(2) by (auto simp: encode_message_def isProcessingInGo_def side_def)
qed

subsection \<open>A worker's task\<close>

text \<open>A chain whose only receiver is the echo filter \<open>f\<close>.\<close>

definition echo_chain ::
    "('h, 'b) envoy \<Rightarrow> (('h, 'b, 'cfg, 'v) eworld, 'cfg) mosn_library \<Rightarrow> nat \<Rightarrow> nat \<Rightarrow> bool" where
  "echo_chain E M fm f \<longleftrightarrow> (\<forall>h b t w. RunReceiverFilter M fm (BeforeRoute M) h b t w =
     go_bind (OnReceive (httpCApiImpl E) M f h b t) (\<lambda>_. go_return ()) w)"

text \<open>The stream while its receivers run.\<close>

definition receiving ::
    "('h, 'b, 'cfg, 'v) eworld \<Rightarrow> int \<Rightarrow> nat \<Rightarrow> ActiveStream \<Rightarrow> ('h, 'b, 'cfg, 'v) eworld" where
  "receiving w ph s st = w\<lparr>ustate := (ustate w)\<lparr>streams :=
     (streams (ustate w))(s \<mapsto> st\<lparr>currentReceivePhase := ph\<rparr>)\<rparr>\<rparr>"

lemma receiving_simps [simp]:
  "cside (receiving w ph s st) = cside w" "Requests (receiving w ph s st) = Requests w"
  "httpRequests (receiving w ph s st) = httpRequests w"
  "active (receiving w ph s st) s = Some (st\<lparr>currentReceivePhase := ph\<rparr>)"
  "echoes (receiving w ph s st) = echoes w" "workPool (ustate (receiving w ph s st)) = workPool (ustate w)"
  by (simp_all add: receiving_def active_def echoes_def)

lemma echo_task:
  assumes "echoes w f = Some o'" "echoer o' = Some c" "cfg_Status c \<noteq> 0"
    and "receiverFilterHandler o' = Some s" "active w s = Some st"
    and "api_gate w (as_callbacks st) = Ok (i, F)" "echo_chain E M (filterChain st) f"
  shows "\<exists>w'. run_task (httpCApiImpl E) M (ReceiverTask s) w = (Ok (), w') \<and>
    w' = (receiving w (BeforeRoute M) s st)
      \<lparr>cside := post i continue_event (post i (echo_event c) (cside w))\<rparr>"
proof -
  let ?w = "receiving w (BeforeRoute M) s st" and ?st = "st\<lparr>currentReceivePhase := BeforeRoute M\<rparr>"
  let ?cb = "as_callbacks st"
  let ?w1 = "post_event ?cb (echo_event c) ?w"
  have w: "active ?w s = Some ?st" "echoes ?w f = Some o'" "api_gate ?w ?cb = Ok (i, F)"
    using assms(1,6) by (simp_all add: receiving_def active_def echoes_def)
  have "OnReceive (httpCApiImpl E) M f h b t ?w = (Ok (StreamFilterStop M), ?w1)" for h b t
    using OnReceive_replies [OF w(2) assms(2,3,4) w(1), of "(i, F)" E M h b t] w(3) by simp
  then have chain: "RunReceiverFilter M (filterChain st) (BeforeRoute M) h b t ?w = (Ok (), ?w1)" for h b t
    using assms(7) by (simp add: echo_chain_def)
  have gate: "api_gate ?w1 ?cb = Ok (i, F)" using w(3) by simp
  have phase: "SetCurrentReceiverPhase s (BeforeRoute M) w = (Ok (), ?w)"
    using assms(5) by (simp add: SetCurrentReceiverPhase_def receiving_def)
  have "run_task (httpCApiImpl E) M (ReceiverTask s) w =
      httpRequest_Continue (httpCApiImpl E) ?cb Continue ?w1"
    using w(1) chain by (simp add: run_task_def phase del: Continue_def)
  also have "\<dots> = (Ok (), post_event ?cb continue_event ?w1)"
    unfolding httpRequest_Continue_eq gate by simp
  finally show ?thesis
    using w(3) gate by (simp add: post_event_def)
qed

subsection \<open>Panics\<close>

text \<open>
  A configuration without a chain gives a nil factory, which \<open>createRequest\<close> calls: a panic out of
  the exported callback, for no \<open>RecoverPanic\<close> is deferred yet.
\<close>

lemma mosn_bad_config_panics:
  assumes "creqs (cside w) r = Some cq" "phase cq = DecodeHeaderPhase" "Requests w r = None"
    and "filter_chain_of M (configCache w (configId cq)) = NoChain"
  shows "\<exists>w'. moeOnHttpHeader C (mosn_plugin M) r e n b w = (Panic nil_deref, w')"
  using assms
  by (simp add: moeOnHttpHeader_def createRequest_def new_request_def StoreReq_def
      getOrCreateHttpFilterFactory_def configCache_Load_def mosn_plugin_def
      RegisterHttpFilterConfigFactory_def mosn_ConfigFactory_def httpRequest_new_def upd_request_def)

text \<open>A direct response whose headers end it has no body to read.\<close>

lemma append_headers_nil_body:
  assumes "active w s = Some o'" "as_respBody o' = None"
    and "\<And>v. VarHeaderStatus M (ctx o') v = (Ok (Some code), v)" "Atoi code = (n, None)"
  shows "\<exists>w'. AppendHeaders C M s (Some (OwnHeader es)) True w = (Panic nil_deref, w')"
  using assms
  by (simp add: AppendHeaders_def send_direct_def SendDirectResponse_def header_pairs_def
      body_String_def active_def)

end
