(* ===== verification/Echo_Flow.thy ===== *)
theory Echo_Flow
  imports Mosn_Flow
begin

text \<open>
  What becomes of a reply of the echo filter: the worker's task has posted the reply and a continuation
  of the request. The first closure sends the reply, which comes back through Envoy's encoder
  chain to the same filter and is handed to the adapter; the second one then finds the reply in Go's
  hands and continues that.
\<close>

subsection \<open>Envoy's part\<close>

text \<open>
  Envoy's \<^verbatim>\<open>sendLocalReply\<close>: the headers go through the encoder filters, and so does the body when there
  is one, as a buffer that ends the stream. \<open>G\<close> is the host of these nested callbacks.
\<close>

definition replies_by ::
    "('h, 'b) envoy \<Rightarrow> ('h, 'b, 'cfg, 'u) stream_host \<Rightarrow> nat \<Rightarrow> nat \<Rightarrow> ('h, 'b, 'cfg, 'u) stream_host \<Rightarrow> bool" where
  "replies_by E G i h H \<longleftrightarrow> (\<forall>enc code body grpc details. \<exists>d. bi_bytes E d = body \<and>
     react H (ReplyCall enc code body grpc details) =
       go_then (encodeHeaders E G i h (body = []))
         (go_when (body \<noteq> []) (go_then (encodeData E G i d True) (go_return ()))))"

lemma replies_with_body:
  assumes "replies_by E G i h H" "body \<noteq> []"
  shows "\<exists>d. bi_bytes E d = body \<and> react H (ReplyCall enc code body grpc details) =
    go_then (encodeHeaders E G i h False) (go_then (encodeData E G i d True) (go_return ()))"
proof -
  obtain d where "bi_bytes E d = body" "react H (ReplyCall enc code body grpc details) =
      go_then (encodeHeaders E G i h (body = []))
        (go_when (body \<noteq> []) (go_then (encodeData E G i d True) (go_return ())))"
    using assms(1) unfolding replies_by_def by blast
  then show ?thesis using assms(2) by (intro exI [of _ d]) (simp add: go_when_def)
qed

lemma replies_without_body:
  assumes "replies_by E G i h H"
  shows "react H (ReplyCall enc code [] grpc details) = go_then (encodeHeaders E G i h True) (go_return ())"
proof -
  obtain d where "react H (ReplyCall enc code [] grpc details) =
      go_then (encodeHeaders E G i h ([] = ([] :: string)))
        (go_when ([] \<noteq> ([] :: string)) (go_then (encodeData E G i d True) (go_return ())))"
    using assms unfolding replies_by_def by blast
  then show ?thesis by (simp add: go_when_def)
qed

subsection \<open>The headers and the body of a reply\<close>

lemma mosn_encode_body:
  assumes "creqs (cside w) r = Some cq" "phase cq = EncodeDataPhase" "serves w r rq q s"
    and "active w s = Some st"
  shows "\<exists>w2 bp. moeOnHttpData C (mosn_plugin M) r 1 a n w = (Ok 0, w2) \<and> cside w2 = cside w \<and>
    Requests w2 = Requests w \<and> httpRequests w2 = httpRequests w \<and>
    active w2 s = Some (st\<lparr>as_respBody := Some (ApiBuffer bp)\<rparr>) \<and>
    workPool (ustate w2) = workPool (ustate w) @ [SenderTask s]"
  using assms
  by (auto simp: moeOnHttpData_def getRequest_def GetReq_def new_httpBuffer_def filter_of_def serves_def
      ActiveStream_methods_def ActiveStream_EncodeData_def runSenderFilters_def active_def
      status_to_u64_def)

lemma mosn_reply_header:
  assumes "creqs (cside w) r = Some cq" "phase cq = EncodeHeaderPhase" "serves w r rq q s"
    and "active w s = Some st"
  shows "\<exists>w2 hp. moeOnHttpHeader C (mosn_plugin M) r (flag e) n b w = (Ok 0, w2) \<and>
    cside w2 = cside w \<and> Requests w2 = Requests w \<and> httpRequests w2 = httpRequests w \<and>
    active w2 s = Some (st\<lparr>as_respHeader := Some (ApiHeader hp)\<rparr>) \<and>
    workPool (ustate w2) = workPool (ustate w) @ (if e then [SenderTask s] else [])"
proof -
  have "phase cq \<noteq> DecodeHeaderPhase" using assms(2) by simp
  then show ?thesis
    using assms
    by (auto simp: moeOnHttpHeader_known header_switch_def new_headerMap_def filter_of_def serves_def
        ActiveStream_methods_def ActiveStream_EncodeHeaders_def runSenderFilters_def active_def
        status_to_u64_def flag_def)
qed

text \<open>The filter that has sent a local reply, before the reply comes to it.\<close>

definition replied :: "('h, 'b) envoy \<Rightarrow> 'b Filter \<Rightarrow> 'b Filter" where
  "replied E F = set_side False (DecodingProcessorState_sendLocalReply (drainBufferData E
     ((side False F)\<lparr>doDataList := clearAll (doDataList (side False F))\<rparr>))) F"

lemma replied_simps [simp]:
  "fstate (side False (replied E F)) = WaitingHeader" "side True (replied E F) = side True F"
  "enter_encoding (replied E F) = enter_encoding F" "has_destroyed (replied E F) = has_destroyed F"
  "local_reply_waiting_go (replied E F) = local_reply_waiting_go F"
  "filter_req (replied E F) = filter_req F"
  by (simp_all add: replied_def DecodingProcessorState_sendLocalReply_def)

lemma reply_closure:
  assumes quiet: "no_watermark H" and F: "\<not> has_destroyed F" "\<not> enter_encoding F" "\<not> local_reply_waiting_go F"
  shows "run_closure E H i (PostLocalReply code body grpc details) (at i F w) =
    react H (ReplyCall False code body grpc details)
      (at i (replied E F) (calling (ReplyCall False code body grpc details) w))"
  using F
  by (simp add: run_closure_def live_filter_def sendLocalReplyInternal_def Let_def shrinking_at [OF quiet]
      call_envoy_def replied_def calling_at [symmetric]) (simp_all add: calling_def)

text \<open>Headers that come while the decoding side waits for headers: the reply's.\<close>

lemma encodeHeaders_early:
  assumes quiet: "no_watermark H" "has_dynamicLib H"
    and F: "\<not> enter_encoding F" "fstate (side False F) = WaitingHeader"
  shows "\<exists>K. encodeHeaders E H i h e (at i F w) = doHeaders E H i True h e (at i K w) \<and>
    enter_encoding K \<and> side True K = (side True F)\<lparr>end_stream := e\<rparr> \<and> filter_req K = filter_req F \<and>
    has_destroyed K = has_destroyed F \<and> local_reply_waiting_go K = local_reply_waiting_go F"
proof -
  let ?F = "set_side True ((side True F)\<lparr>end_stream := e\<rparr>) F"
  let ?p = "drainBufferData E (side False F)"
  let ?K = "(set_side False (?p\<lparr>doDataList := clearAll (doDataList ?p)\<rparr>) ?F)\<lparr>enter_encoding := True\<rparr>"
  have "side False ?F = side False F" "\<not> isProcessingInGo (side False F)"
    using F(2) by (simp_all add: isProcessingInGo_def)
  then have "encodeHeaders E H i h e (at i F w) = doHeaders E H i True h e (at i ?K w)"
    using F quiet by (simp add: encodeHeaders_def Let_def shrinking_at)
  then show ?thesis by (intro exI [of _ ?K]) (simp add: side_def set_side_def)
qed

text \<open>A stream of the adapter behind a request.\<close>

definition streams_for ::
    "('h, 'b, 'cfg, 'v) mworld \<Rightarrow> nat \<Rightarrow> nat \<Rightarrow> nat \<Rightarrow> httpRequest \<Rightarrow> nat \<Rightarrow> nat \<Rightarrow> bool" where
  "streams_for w i r rq q s fm \<longleftrightarrow> (\<exists>cq st. creqs (cside w) r = Some cq \<and> weakFilter cq = i \<and>
     serves w r rq q s \<and> active w s = Some st \<and> as_callbacks st = rq \<and> filterChain st = fm)"

lemma streams_for_at [simp]: "streams_for (at i' F w) i r rq q s fm = streams_for w i r rq q s fm"
  by (simp add: streams_for_def active_def)

lemma streams_for_cside:
  "creqs c = creqs (cside w) \<Longrightarrow> streams_for (w\<lparr>cside := c\<rparr>) i r rq q s fm = streams_for w i r rq q s fm"
  by (simp add: streams_for_def active_def serves_def)

lemma streams_for_after:
  assumes "streams_for w i r rq q s fm" "creqs (cside w) r = Some cq"
    and "creqs (cside w2) r = Some (cq\<lparr>phase := ph\<rparr>)" "Requests w2 = Requests w"
      "httpRequests w2 = httpRequests w" "active w s = Some st"
      "active w2 s = Some st2" "as_callbacks st2 = as_callbacks st" "filterChain st2 = filterChain st"
  shows "streams_for w2 i r rq q s fm"
  using assms by (auto simp: streams_for_def serves_def)

text \<open>The filter that holds a reply which Go has been given the headers of.\<close>

definition reply_held :: "('h, 'b) envoy \<Rightarrow> nat \<Rightarrow> string \<Rightarrow> 'b Filter \<Rightarrow> bool" where
  "reply_held E r body F \<longleftrightarrow> enter_encoding F \<and> \<not> local_reply_waiting_go F \<and> \<not> has_destroyed F \<and>
     filter_req F = Some r \<and> fstate (side True F) = ProcessingHeader \<and> end_stream (side True F) \<and>
     \<not> do_end_stream (side True F) \<and> \<not> seen_trailers (side True F) \<and>
     (\<exists>b. data_buffer (side True F) = Some b \<and> bi_bytes E b = body) \<and>
     queue (doDataList (side True F)) = []"

text \<open>Go is given the headers of the reply; the adapter runs nothing unless they are all of it.\<close>

lemma reply_headers:
  assumes quiet: "no_watermark G"
    and F: "\<not> enter_encoding F" "fstate (side False F) = WaitingHeader"
      "side True F = ProcessorState_new" "filter_req F = Some r" "\<not> local_reply_waiting_go F"
      "\<not> has_destroyed F"
    and w: "streams_for w i r rq q s fm"
  shows "\<exists>K w2. encodeHeaders E (with_plugin C (mosn_plugin M) G) i h e (at i F w) = (Ok False, at i K w2) \<and>
    enter_encoding K \<and> \<not> local_reply_waiting_go K \<and> \<not> has_destroyed K \<and> filter_req K = Some r \<and>
    side True K = ProcessorState_new\<lparr>end_stream := e, fstate := ProcessingHeader, do_end_stream := e\<rparr> \<and>
    streams_for w2 i r rq q s fm \<and>
    workPool (ustate w2) = workPool (ustate w) @ (if e then [SenderTask s] else []) \<and>
    posted (cside w2) = posted (cside w) \<and> envoy_calls (cside w2) = envoy_calls (cside w)"
proof -
  let ?G = "with_plugin C (mosn_plugin M) G"
  have quiet': "no_watermark ?G" using quiet by simp
  obtain cq st where cq: "creqs (cside w) r = Some cq" "serves w r rq q s" "active w s = Some st"
    using w by (auto simp: streams_for_def)
  obtain K where K: "encodeHeaders E ?G i h e (at i F w) = doHeaders E ?G i True h e (at i K w)"
    "enter_encoding K" "side True K = ProcessorState_new\<lparr>end_stream := e\<rparr>" "filter_req K = Some r"
    "\<not> has_destroyed K" "\<not> local_reply_waiting_go K"
    using encodeHeaders_early [OF quiet' _ F(1,2), where E = E and i = i and h = h and e = e and w = w]
      F(3-6) by auto
  let ?K = "header_filter True e h K"
  let ?w = "at i ?K (with_phase r cq EncodeHeaderPhase w)"
  let ?n = "hm_size E (hm_heap (cside w) h)" and ?b = "hm_byteSize E (hm_heap (cside w) h)"
  have at_w: "creqs (cside ?w) r = Some (cq\<lparr>phase := EncodeHeaderPhase\<rparr>)"
    "phase (cq\<lparr>phase := EncodeHeaderPhase\<rparr>) = EncodeHeaderPhase" "serves ?w r rq q s"
    "active ?w s = Some st"
    using cq by (simp_all add: active_def)
  obtain w2 hp where w2: "moeOnHttpHeader C (mosn_plugin M) r (flag e) ?n ?b ?w = (Ok 0, w2)"
    "cside w2 = cside ?w" "Requests w2 = Requests ?w" "httpRequests w2 = httpRequests ?w"
    "active w2 s = Some (st\<lparr>as_respHeader := Some (ApiHeader hp)\<rparr>)"
    "workPool (ustate w2) = workPool (ustate ?w) @ (if e then [SenderTask s] else [])"
    using mosn_reply_header [OF at_w, where C = C and M = M and e = e and n = ?n and b = ?b] by blast
  have lib: "lib_moeOnHttpHeader ?G r (flag e) ?n ?b
      (at i ?K (with_phase r cq (header_phase True) w)) = (Ok 0, w2)"
    using w2(1) by (simp add: with_plugin_def header_phase_def)
  have K0: "fstate (side True K) = WaitingHeader" "isBufferDataEmpty E (side True K)"
    using K(3) fresh_processor_simps(1,5) by (simp_all add: isBufferDataEmpty_def)
  have here: "filters (cside w2) i = Some ?K" "fstate (side True ?K) = ProcessingHeader"
    using w2(2) by (simp_all add: header_filter_def)
  have "encodeHeaders E ?G i h e (at i F w) = (Ok False, at i ?K w2)"
    unfolding K(1) doHeaders_at [OF K0 K(4) cq(1) lib here] golangStatus_of_status
    using here(2) by (simp add: handleHeader_apply)
  moreover have "streams_for w2 i r rq q s fm"
    by (rule streams_for_after [OF w cq(1), where st = st and
        ?st2.0 = "st\<lparr>as_respHeader := Some (ApiHeader hp)\<rparr>"]) (use w2 cq in simp_all)
  moreover have "side True ?K =
      ProcessorState_new\<lparr>end_stream := e, fstate := ProcessingHeader, do_end_stream := e\<rparr>"
    using K(3) by (simp add: header_filter_def)
  moreover have "enter_encoding ?K" "\<not> local_reply_waiting_go ?K" "\<not> has_destroyed ?K" "filter_req ?K = Some r"
    using K(2,4-6) by (simp_all add: header_filter_def)
  moreover have "workPool (ustate w2) = workPool (ustate w) @ (if e then [SenderTask s] else [])"
    "posted (cside w2) = posted (cside w)" "envoy_calls (cside w2) = envoy_calls (cside w)"
    using w2(2,6) by simp_all
  ultimately show ?thesis by blast
qed

lemma reply_received:
  assumes laws: "buffer_laws E" "no_watermark G"
    and F: "\<not> enter_encoding F" "fstate (side False F) = WaitingHeader"
      "side True F = ProcessorState_new" "filter_req F = Some r" "\<not> local_reply_waiting_go F"
      "\<not> has_destroyed F"
    and w: "streams_for w i r rq q s fm"
  shows "\<exists>F2 w2. go_then (encodeHeaders E (with_plugin C (mosn_plugin M) G) i h False)
      (go_then (encodeData E (with_plugin C (mosn_plugin M) G) i d True) (go_return ())) (at i F w) =
      (Ok (), at i F2 w2) \<and> reply_held E r (bi_bytes E d) F2 \<and> streams_for w2 i r rq q s fm \<and>
    workPool (ustate w2) = workPool (ustate w) \<and> posted (cside w2) = posted (cside w) \<and>
    envoy_calls (cside w2) = envoy_calls (cside w)"
proof -
  let ?G = "with_plugin C (mosn_plugin M) G"
  have quiet: "no_watermark ?G" using laws(2) by simp
  obtain K w2 where K: "encodeHeaders E ?G i h False (at i F w) = (Ok False, at i K w2)" "enter_encoding K"
    "\<not> local_reply_waiting_go K" "\<not> has_destroyed K" "filter_req K = Some r"
    "side True K = ProcessorState_new\<lparr>end_stream := False, fstate := ProcessingHeader,
      do_end_stream := False\<rparr>" "streams_for w2 i r rq q s fm"
    "workPool (ustate w2) = workPool (ustate w)" "posted (cside w2) = posted (cside w)"
    "envoy_calls (cside w2) = envoy_calls (cside w)"
    using reply_headers [OF laws(2) F w, where E = E and C = C and M = M and h = h and e = False] by auto
  let ?L = "set_side True ((side True K)\<lparr>end_stream := True\<rparr>) K"
  have L: "in_callback (fstate (side True ?L))" using K(6) by (simp add: in_callback_def)
  let ?M = "set_side True (keep_data E d (side True ?L)) ?L"
  obtain d' where "doData E ?G i True d True (at i ?L w2) = (Ok (False, d'), at i ?M w2)"
    using doData_waits [OF L quiet] by blast
  then have "encodeData E ?G i d True (at i K w2) = (Ok (False, d'), at i ?M w2)"
    using K(3) by (simp add: encodeData_def take_out_def)
  moreover have "reply_held E r (bi_bytes E d) ?M"
    using K(2-6) by (simp add: reply_held_def keep_data_def old_buffer_def
        buffer_lawsD [OF laws(1)] ProcessorState_new_def BufferList_new_def)
  ultimately show ?thesis
    using K(1,7-10) by (intro exI [of _ ?M] exI [of _ w2]) simp
qed

subsection \<open>The continuation of the request\<close>

text \<open>It hands the body of the reply to Go, and so the sender filters get to run.\<close>

definition reply_sending :: "('h, 'b) envoy \<Rightarrow> nat \<Rightarrow> string \<Rightarrow> 'b Filter \<Rightarrow> bool" where
  "reply_sending E r body F \<longleftrightarrow> enter_encoding F = True \<and> \<not> local_reply_waiting_go F \<and>
     \<not> has_destroyed F \<and> filter_req F = Some r \<and> fstate (side True F) = ProcessingData \<and>
     do_end_stream (side True F) \<and> end_stream (side True F) \<and> \<not> seen_trailers (side True F) \<and>
     list_bytes E (doDataList (side True F)) = body"

lemma reply_continued:
  assumes laws: "buffer_laws E" "no_watermark H" and F: "reply_held E r body F"
    and w: "streams_for w i r rq q s fm"
  shows "\<exists>F2 w2. run_closure E (with_plugin C (mosn_plugin M) H) i continue_event (at i F w) =
      (Ok (), at i F2 w2) \<and> reply_sending E r body F2 \<and> streams_for w2 i r rq q s fm \<and>
    workPool (ustate w2) = workPool (ustate w) @ [SenderTask s] \<and> posted (cside w2) = posted (cside w) \<and>
    envoy_calls (cside w2) = envoy_calls (cside w)"
proof -
  let ?H = "with_plugin C (mosn_plugin M) H"
  have quiet: "no_watermark ?H" using laws(2) by simp
  obtain cq st where cq: "creqs (cside w) r = Some cq" "serves w r rq q s" "active w s = Some st"
    using w by (auto simp: streams_for_def)
  obtain b where b: "data_buffer (side True F) = Some b" "bi_bytes E b = body"
    using F by (auto simp: reply_held_def)
  have F': "enter_encoding F = True" "\<not> local_reply_waiting_go F" "\<not> has_destroyed F" "filter_req F = Some r"
    "fstate (side True F) = ProcessingHeader" "end_stream (side True F)" "\<not> do_end_stream (side True F)"
    "\<not> seen_trailers (side True F)" "queue (doDataList (side True F)) = []"
    using F by (simp_all add: reply_held_def)
  let ?K = "set_side True ((side True F)\<lparr>fstate := WaitingData\<rparr>) F"
  let ?a = "alloc_buf ?H (cside (at i (set_side True ((side True ?K)\<lparr>fstate := ProcessingData,
      do_end_stream := True\<rparr>) ?K) w))"
  let ?p = "own_state E ?a b True (side True ?K)"
  let ?L = "set_side True ?p ?K"
  let ?w = "at i ?L (with_phase r cq EncodeDataPhase w)"
  have at_w: "creqs (cside ?w) r = Some (cq\<lparr>phase := EncodeDataPhase\<rparr>)"
    "phase (cq\<lparr>phase := EncodeDataPhase\<rparr>) = EncodeDataPhase" "serves ?w r rq q s" "active ?w s = Some st"
    using cq by (simp_all add: active_def)
  obtain w2 bp where w2: "moeOnHttpData C (mosn_plugin M) r 1 ?a (bi_length E (fst (bi_move E (bi_new E) b)))
      ?w = (Ok 0, w2)" "cside w2 = cside ?w" "Requests w2 = Requests ?w" "httpRequests w2 = httpRequests ?w"
    "active w2 s = Some (st\<lparr>as_respBody := Some (ApiBuffer bp)\<rparr>)"
    "workPool (ustate w2) = workPool (ustate ?w) @ [SenderTask s]"
    using mosn_encode_body [OF at_w, of C M ?a] by blast
  have lib: "lib_moeOnHttpData ?H r (flag True) ?a (bi_length E (fst (bi_move E (bi_new E) b)))
      (at i ?L (with_phase r cq (data_phase True) w)) = (Ok 0, w2)"
    using w2(1) by (simp add: with_plugin_def flag_def data_phase_def)
  have L: "filters (cside w2) i = Some ?L" using w2(2) by simp
  have run: "handleDataGolangStatus E (golangStatus (c_int 0)) (side True ?L) = (Ok False, ?p)"
    unfolding golangStatus_of_status side_simps by (rule running_keeps) simp
  have pre: "fstate (side True ?K) = WaitingData \<or> fstate (side True ?K) = WaitingAllData \<and>
      (True \<or> seen_trailers (side True ?K))" "data_buffer (side True ?K) = Some b" "filter_req ?K = Some r"
    using b(1) F'(4) by simp_all
  have data: "doBufferedData E ?H i True True (at i ?K w) = (Ok False, at i ?L w2)"
    using doBufferedData_at [OF quiet pre cq(1) refl lib L run] by simp
  have "handleGolangStatus E GContinue (side True F) =
      (Ok True, (side True F)\<lparr>fstate := WaitingData\<rparr>)"
    using F'(5,7) by (simp add: handleGolangStatus_def isProcessingInGo_def handleHeader_apply)
  then have "continue_state E ?H i True GContinue (at i F w) = (Ok (), at i ?L w2)"
    using F'(5-8) data by (simp add: continue_state_def isStreamEnd_def)
  then have "run_closure E ?H i continue_event (at i F w) = (Ok (), at i ?L w2)"
    using F'(1-3) unfolding continue_event_eq
    by (simp add: run_closure_def live_filter_def continueStatusInternal_def)
  moreover have "reply_sending E r body ?L"
    using F' b(2) push_bytes [OF laws(1), of ?a b "doDataList (side True F)"]
    by (simp add: reply_sending_def list_bytes_def)
  moreover have "streams_for w2 i r rq q s fm"
    by (rule streams_for_after [OF w cq(1), where st = st and
        ?st2.0 = "st\<lparr>as_respBody := Some (ApiBuffer bp)\<rparr>"]) (use w2 cq in simp_all)
  moreover have "workPool (ustate w2) = workPool (ustate w) @ [SenderTask s]"
    "posted (cside w2) = posted (cside w)" "envoy_calls (cside w2) = envoy_calls (cside w)"
    using w2(2,6) by simp_all
  ultimately show ?thesis by blast
qed

subsection \<open>The sender filters\<close>

text \<open>A chain without a filter for responses.\<close>

definition no_senders :: "('w, 'cfg) mosn_library \<Rightarrow> nat \<Rightarrow> bool" where
  "no_senders M fm \<longleftrightarrow> (\<forall>h b t. RunSenderFilter M fm (BeforeSend M) h b t = go_return ())"

lemma reply_released:
  assumes laws: "buffer_laws E" "takes_data H" and F: "reply_sending E r body F"
    and w: "streams_for w i r rq q s fm" and fm: "no_senders M fm"
  shows "\<exists>w2 w3 x. run_task (httpCApiImpl E) M (SenderTask s) (at i F w) = (Ok (), w2) \<and>
    posted (cside w2) = posted (cside w) @ [(i, continue_event)] \<and>
    run_closure E (with_plugin C P H) i continue_event w2 = (Ok (), w3) \<and>
    envoy_calls (cside w3) = envoy_calls (cside w) @ [InjectCall True x True] \<and> bi_bytes E x = body"
proof -
  obtain cq st where cq: "creqs (cside w) r = Some cq" "weakFilter cq = i" "serves w r rq q s"
    "active w s = Some st" "as_callbacks st = rq" "filterChain st = fm"
    using w by (auto simp: streams_for_def)
  have F': "\<not> has_destroyed F" "\<not> local_reply_waiting_go F" "enter_encoding F = True"
    "fstate (side True F) = ProcessingData" "do_end_stream (side True F)" "end_stream (side True F)"
    "\<not> seen_trailers (side True F)" "list_bytes E (doDataList (side True F)) = body"
    using F by (simp_all add: reply_sending_def)
  have gate: "api_gate (at i F w) rq = Ok (i, F)"
    using cq F'(1,3,4) by (simp add: api_gate_def serves_def getProcessorState_def side_cases isProcessingInGo_def)
  let ?w = "w\<lparr>cside := post i continue_event (cside w)\<rparr>"
  have task: "run_task (httpCApiImpl E) M (SenderTask s) (at i F w) = (Ok (), at i F ?w)"
    using cq(4-6) fm gate unfolding run_task_def
    by (simp add: active_def no_senders_def httpRequest_Continue_eq post_event_def post_at del: Continue_def)
  have takes: "takes_data (with_plugin C P H)" using laws(2) by (simp add: takes_data_def with_plugin_def)
  obtain x p where "run_closure E (with_plugin C P H) i (PostContinue GContinue) (at i F ?w) =
      (Ok (), at i (set_side True p F) (calling (InjectCall True x True) ?w))"
    "bi_bytes E x = list_bytes E (doDataList (side True F))"
    using continue_injects [OF laws(1) takes F'(1-7), of i ?w] by blast
  moreover have "posted (cside (at i F ?w)) = posted (cside w) @ [(i, continue_event)]"
    "envoy_calls (cside (at i (set_side True p F) (calling (InjectCall True x True) ?w))) =
      envoy_calls (cside w) @ [InjectCall True x True]"
    by (simp_all add: post_def)
  ultimately show ?thesis using task F'(8) unfolding continue_event_eq by blast
qed

subsection \<open>The whole answer\<close>

lemma streams_for_receiving:
  assumes "streams_for w i r rq q s fm" "active w s = Some st"
  shows "streams_for (receiving w ph s st) i r rq q s fm"
  using assms by (simp add: streams_for_def serves_def)

text \<open>The task of the receivers and the first closure; the reply comes to the filter \<open>F1\<close>.\<close>

lemma echo_asked:
  assumes quiet: "no_watermark H"
    and F: "filters (cside w) i = Some F" "\<not> has_destroyed F" "\<not> enter_encoding F"
      "\<not> local_reply_waiting_go F" "filter_req F = Some r" "isProcessingInGo (side False F)"
      "side True F = ProcessorState_new"
    and w: "streams_for w i r rq q s fm"
    and echo: "echoes w f = Some o'" "echoer o' = Some c" "cfg_Status c \<noteq> 0"
      "receiverFilterHandler o' = Some s" "echo_chain E M fm f"
  shows "\<exists>w1 w2 F1. run_task (httpCApiImpl E) M (ReceiverTask s) w = (Ok (), w1) \<and>
    posted (cside w1) = posted (cside w) @ [(i, echo_event c), (i, continue_event)] \<and>
    run_closure E H i (echo_event c) w1 =
      react H (ReplyCall False (c_int_of_int (cfg_Status c)) (cfg_Body c) 0 []) (at i F1 w2) \<and>
    \<not> enter_encoding F1 \<and> fstate (side False F1) = WaitingHeader \<and> side True F1 = ProcessorState_new \<and>
    filter_req F1 = Some r \<and> \<not> local_reply_waiting_go F1 \<and> \<not> has_destroyed F1 \<and>
    streams_for w2 i r rq q s fm \<and> workPool (ustate w2) = workPool (ustate w) \<and>
    posted (cside w2) = posted (cside w1) \<and> envoy_calls (cside w2) = envoy_calls (cside w) @
      [ReplyCall False (c_int_of_int (cfg_Status c)) (cfg_Body c) 0 []]"
proof -
  let ?call = "ReplyCall False (c_int_of_int (cfg_Status c)) (cfg_Body c) 0 []"
  obtain cq st where cq: "creqs (cside w) r = Some cq" "weakFilter cq = i" "serves w r rq q s"
    "active w s = Some st" "as_callbacks st = rq" "filterChain st = fm"
    using w by (auto simp: streams_for_def)
  have gate: "api_gate w (as_callbacks st) = Ok (i, F)"
    using cq F by (simp add: api_gate_def serves_def getProcessorState_def side_def)
  have chain: "echo_chain E M (filterChain st) f" using echo(5) cq(6) by simp
  let ?w0 = "receiving w (BeforeRoute M) s st"
  let ?w1 = "?w0\<lparr>cside := post i continue_event (post i (echo_event c) (cside w))\<rparr>"
  have task: "run_task (httpCApiImpl E) M (ReceiverTask s) w = (Ok (), ?w1)"
    using echo_task [OF echo(1-4) cq(4) gate chain] by simp
  have "filters (cside ?w1) i = Some F" using F(1) by (simp add: post_def)
  note here = at_self [OF this]
  let ?w2 = "calling ?call ?w1"
  have "run_closure E H i (echo_event c) ?w1 = react H ?call (at i (replied E F) ?w2)"
    unfolding echo_event_def reply_event_def
    by (subst here [symmetric, unfolded echo_event_def reply_event_def])
      (rule reply_closure [OF quiet F(2-4)])
  moreover have "streams_for ?w2 i r rq q s fm"
    using streams_for_receiving [OF w cq(4)]
    by (simp add: calling_def streams_for_cside post_def)
  moreover have "posted (cside ?w1) = posted (cside w) @ [(i, echo_event c), (i, continue_event)]"
    "workPool (ustate ?w2) = workPool (ustate w)" "posted (cside ?w2) = posted (cside ?w1)"
    "envoy_calls (cside ?w2) = envoy_calls (cside w) @ [?call]"
    by (simp_all add: post_def)
  ultimately show ?thesis
    using task F by (intro exI [of _ ?w1] exI [of _ ?w2] exI [of _ "replied E F"]) simp
qed

lemma echo_answered:
  fixes E :: "('h, 'b) envoy" and H :: "('h, 'b, 'cfg, 'v echo_state mosn_state) stream_host"
    and M :: "(('h, 'b, 'cfg, 'v) eworld, 'cfg) mosn_library"
  defines "HM \<equiv> with_plugin (httpCApiImpl E) (mosn_plugin M) H"
  assumes laws: "buffer_laws E" "no_watermark H" "takes_data H" "no_watermark G"
      "replies_by E (with_plugin (httpCApiImpl E) (mosn_plugin M) G) i h H"
    and F: "filters (cside w) i = Some F" "\<not> has_destroyed F" "\<not> enter_encoding F"
      "\<not> local_reply_waiting_go F" "filter_req F = Some r" "isProcessingInGo (side False F)"
      "side True F = ProcessorState_new"
    and w: "streams_for w i r rq q s fm"
    and echo: "echoes w f = Some o'" "echoer o' = Some c" "cfg_Status c \<noteq> 0"
      "receiverFilterHandler o' = Some s" "echo_chain E M fm f"
    and chain: "no_senders M fm" "cfg_Body c \<noteq> []"
  shows "\<exists>w1 w2 w3 w4 w5 x. run_task (httpCApiImpl E) M (ReceiverTask s) w = (Ok (), w1) \<and>
    posted (cside w1) = posted (cside w) @ [(i, echo_event c), (i, continue_event)] \<and>
    run_closure E HM i (echo_event c) w1 = (Ok (), w2) \<and> workPool (ustate w2) = workPool (ustate w) \<and>
    run_closure E HM i continue_event w2 = (Ok (), w3) \<and>
    workPool (ustate w3) = workPool (ustate w) @ [SenderTask s] \<and>
    run_task (httpCApiImpl E) M (SenderTask s) w3 = (Ok (), w4) \<and>
    posted (cside w4) = posted (cside w1) @ [(i, continue_event)] \<and>
    run_closure E HM i continue_event w4 = (Ok (), w5) \<and>
    envoy_calls (cside w5) = envoy_calls (cside w) @
      [ReplyCall False (c_int_of_int (cfg_Status c)) (cfg_Body c) 0 [], InjectCall True x True] \<and>
    bi_bytes E x = cfg_Body c"
proof -
  have HM: "no_watermark HM" "react HM = react H" using laws(2) by (simp_all add: HM_def)
  obtain w1 w2 F1 where asked: "run_task (httpCApiImpl E) M (ReceiverTask s) w = (Ok (), w1)"
      "posted (cside w1) = posted (cside w) @ [(i, echo_event c), (i, continue_event)]"
      "run_closure E HM i (echo_event c) w1 =
        react H (ReplyCall False (c_int_of_int (cfg_Status c)) (cfg_Body c) 0 []) (at i F1 w2)"
      "\<not> enter_encoding F1" "fstate (side False F1) = WaitingHeader" "side True F1 = ProcessorState_new"
      "filter_req F1 = Some r" "\<not> local_reply_waiting_go F1" "\<not> has_destroyed F1"
      "streams_for w2 i r rq q s fm" "workPool (ustate w2) = workPool (ustate w)"
      "posted (cside w2) = posted (cside w1)" "envoy_calls (cside w2) = envoy_calls (cside w) @
        [ReplyCall False (c_int_of_int (cfg_Status c)) (cfg_Body c) 0 []]"
    using echo_asked [OF HM(1) F w echo] unfolding HM(2) by blast
  obtain d where d: "bi_bytes E d = cfg_Body c"
      "react H (ReplyCall False (c_int_of_int (cfg_Status c)) (cfg_Body c) 0 []) =
        go_then (encodeHeaders E (with_plugin (httpCApiImpl E) (mosn_plugin M) G) i h False)
          (go_then (encodeData E (with_plugin (httpCApiImpl E) (mosn_plugin M) G) i d True) (go_return ()))"
    using replies_with_body [OF laws(5) chain(2)] by blast
  obtain F2 w3 where held: "run_closure E HM i (echo_event c) w1 = (Ok (), at i F2 w3)"
      "reply_held E r (cfg_Body c) F2" "streams_for w3 i r rq q s fm"
      "workPool (ustate w3) = workPool (ustate w2)" "posted (cside w3) = posted (cside w2)"
      "envoy_calls (cside w3) = envoy_calls (cside w2)"
    using reply_received [OF laws(1,4) asked(4-10), where C = "httpCApiImpl E" and M = M and h = h and d = d]
    unfolding asked(3) d by blast
  obtain F3 w4 where sending: "run_closure E HM i continue_event (at i F2 w3) = (Ok (), at i F3 w4)"
      "reply_sending E r (cfg_Body c) F3" "streams_for w4 i r rq q s fm"
      "workPool (ustate w4) = workPool (ustate w3) @ [SenderTask s]" "posted (cside w4) = posted (cside w3)"
      "envoy_calls (cside w4) = envoy_calls (cside w3)"
    using reply_continued [OF laws(1,2) held(2,3), where C = "httpCApiImpl E" and M = M]
    unfolding HM_def by blast
  obtain w5 w6 x where sent: "run_task (httpCApiImpl E) M (SenderTask s) (at i F3 w4) = (Ok (), w5)"
      "posted (cside w5) = posted (cside w4) @ [(i, continue_event)]"
      "run_closure E HM i continue_event w5 = (Ok (), w6)"
      "envoy_calls (cside w6) = envoy_calls (cside w4) @ [InjectCall True x True]"
      "bi_bytes E x = cfg_Body c"
    using reply_released [OF laws(1,3) sending(2,3) chain(1), where C = "httpCApiImpl E" and P = "mosn_plugin M"]
    unfolding HM_def by blast
  have "workPool (ustate (at i F2 w3)) = workPool (ustate w)"
    "workPool (ustate (at i F3 w4)) = workPool (ustate w) @ [SenderTask s]"
    "posted (cside w5) = posted (cside w1) @ [(i, continue_event)]"
    "envoy_calls (cside w6) = envoy_calls (cside w) @
      [ReplyCall False (c_int_of_int (cfg_Status c)) (cfg_Body c) 0 [], InjectCall True x True]"
    using asked(11-13) held(4-6) sending(4-6) sent(2,4) by simp_all
  then show ?thesis using asked(1,2) held(1) sending(1) sent(1,3,5) by blast
qed

text \<open>
  A reply without a body: its headers come to Go with the end of the stream, so the sender's task is
  started at once; but the continuation of the request lets the headers go on before that task
  has run, which then is told that the stream is not in Go.
\<close>

lemma bodyless_answer_task_panics:
  fixes E :: "('h, 'b) envoy" and H :: "('h, 'b, 'cfg, 'v echo_state mosn_state) stream_host"
    and M :: "(('h, 'b, 'cfg, 'v) eworld, 'cfg) mosn_library"
  defines "HM \<equiv> with_plugin (httpCApiImpl E) (mosn_plugin M) H"
  assumes laws: "no_watermark H" "no_watermark G" "\<And>enc. react H (ContinueCall enc) = go_return ()"
      "replies_by E (with_plugin (httpCApiImpl E) (mosn_plugin M) G) i h H"
    and F: "filters (cside w) i = Some F" "\<not> has_destroyed F" "\<not> enter_encoding F"
      "\<not> local_reply_waiting_go F" "filter_req F = Some r" "isProcessingInGo (side False F)"
      "side True F = ProcessorState_new"
    and w: "streams_for w i r rq q s fm"
    and echo: "echoes w f = Some o'" "echoer o' = Some c" "cfg_Status c \<noteq> 0"
      "receiverFilterHandler o' = Some s" "echo_chain E M fm f"
    and chain: "no_senders M fm" "cfg_Body c = []"
  shows "\<exists>w1 w2 w3. run_task (httpCApiImpl E) M (ReceiverTask s) w = (Ok (), w1) \<and>
    run_closure E HM i (echo_event c) w1 = (Ok (), w2) \<and>
    workPool (ustate w2) = workPool (ustate w) @ [SenderTask s] \<and>
    run_closure E HM i continue_event w2 = (Ok (), w3) \<and>
    envoy_calls (cside w3) = envoy_calls (cside w) @
      [ReplyCall False (c_int_of_int (cfg_Status c)) [] 0 [], ContinueCall True] \<and>
    fst (run_task (httpCApiImpl E) M (SenderTask s) w3) = Panic (PanicString ErrNotInGo)"
proof -
  have HM: "no_watermark HM" "react HM = react H" using laws(1) by (simp_all add: HM_def)
  obtain w1 w2 F1 where asked: "run_task (httpCApiImpl E) M (ReceiverTask s) w = (Ok (), w1)"
      "run_closure E HM i (echo_event c) w1 =
        react H (ReplyCall False (c_int_of_int (cfg_Status c)) (cfg_Body c) 0 []) (at i F1 w2)"
      "\<not> enter_encoding F1" "fstate (side False F1) = WaitingHeader" "side True F1 = ProcessorState_new"
      "filter_req F1 = Some r" "\<not> local_reply_waiting_go F1" "\<not> has_destroyed F1"
      "streams_for w2 i r rq q s fm" "workPool (ustate w2) = workPool (ustate w)"
      "envoy_calls (cside w2) = envoy_calls (cside w) @
        [ReplyCall False (c_int_of_int (cfg_Status c)) (cfg_Body c) 0 []]"
    using echo_asked [OF HM(1) F w echo] unfolding HM(2) by blast
  obtain K w3 where K: "encodeHeaders E (with_plugin (httpCApiImpl E) (mosn_plugin M) G) i h True (at i F1 w2) =
        (Ok False, at i K w3)" "enter_encoding K" "\<not> local_reply_waiting_go K" "\<not> has_destroyed K"
      "side True K = ProcessorState_new\<lparr>end_stream := True, fstate := ProcessingHeader,
        do_end_stream := True\<rparr>" "streams_for w3 i r rq q s fm"
      "workPool (ustate w3) = workPool (ustate w2) @ [SenderTask s]"
      "envoy_calls (cside w3) = envoy_calls (cside w2)"
    using reply_headers [OF laws(2) asked(3-9), where E = E and C = "httpCApiImpl E" and M = M and h = h
        and e = True] by auto
  have reply: "run_closure E HM i (echo_event c) w1 = (Ok (), at i K w3)"
    unfolding asked(2) chain(2) replies_without_body [OF laws(4)] using K(1) by simp
  let ?L = "set_side True ((side True K)\<lparr>fstate := Done\<rparr>) K"
  let ?w4 = "at i ?L (calling (ContinueCall True) w3)"
  have "handleGolangStatus E GContinue (side True K) = (Ok True, (side True K)\<lparr>fstate := Done\<rparr>)"
    using K(5) by (simp add: handleGolangStatus_def isProcessingInGo_def handleHeader_apply)
  moreover have "continueProcessing HM True (at i ?L w3) = (Ok (), ?w4)"
    using laws(3) HM(2) by (simp add: continueProcessing_def call_envoy_def calling_at [symmetric])
      (simp add: calling_def)
  ultimately have "continue_state E HM i True GContinue (at i K w3) = (Ok (), ?w4)"
    using K(5) by (simp add: continue_state_def Let_def split: option.split)
  then have cont: "run_closure E HM i continue_event (at i K w3) = (Ok (), ?w4)"
    using K(2-4) unfolding continue_event_eq
    by (simp add: run_closure_def live_filter_def continueStatusInternal_def)
  obtain cq st where cq: "creqs (cside w3) r = Some cq" "weakFilter cq = i" "serves w3 r rq q s"
    "active w3 s = Some st" "as_callbacks st = rq" "filterChain st = fm"
    using K(6) by (auto simp: streams_for_def)
  have gate: "api_gate ?w4 rq = Panic (PanicString ErrNotInGo)"
    using cq K(2,4) by (simp add: api_gate_def serves_def getProcessorState_def side_cases
        [symmetric] isProcessingInGo_def)
  have "active ?w4 s = Some st" using cq(4) by (simp add: active_def)
  then have "fst (run_task (httpCApiImpl E) M (SenderTask s) ?w4) = Panic (PanicString ErrNotInGo)"
    using cq(5,6) chain(1) gate
    by (simp add: run_task_def no_senders_def httpRequest_Continue_eq del: Continue_def)
  then show ?thesis
    using asked(1,10,11) reply K(7,8) cont chain(2)
    by (intro exI [of _ w1] exI [of _ "at i K w3"] exI [of _ ?w4] conjI) simp_all
qed

end
