(* ===== verification/Async_Samples.thy ===== *)
theory Async_Samples
  imports Lifecycle
begin

text \<open>
  \<^verbatim>\<open>samples/async\<close> and \<^verbatim>\<open>samples/async-sleep\<close>: two filters whose callbacks start a goroutine and
  return \<open>Running\<close>. The goroutines sleep, print and use the API; unlike those of the buffered
  adapter they do not defer \<open>RecoverPanic\<close>. Sleeping and printing have no effect in the model.
\<close>

text \<open>A started goroutine, with the variables it captured; a filter is named by its callbacks.\<close>

datatype async_task =
    SleepTask nat
  | AsyncDecodeHeaders nat nat | AsyncDecodeData nat nat | AsyncDecodeTrailers nat nat
  | AsyncEncodeHeaders nat nat | AsyncEncodeData nat nat | AsyncEncodeTrailers nat nat

type_synonym 'v async_state = "async_task list \<times> 'v"

type_synonym ('h, 'b, 'cfg, 'v) aworld = "('h, 'b, 'cfg, 'v async_state) world"

definition started_tasks :: "('h, 'b, 'cfg, 'v) aworld \<Rightarrow> async_task list" where
  "started_tasks w = fst (ustate w)"

definition start_task ::
    "async_task \<Rightarrow> (('h, 'b, 'cfg, 'v) aworld, unit) go" where
  "start_task t = go_modify (\<lambda>w. w\<lparr>ustate := (started_tasks w @ [t], snd (ustate w))\<rparr>)"

subsection \<open>async-sleep\<close>

definition asyncSleep_DecodeHeaders ::
    "nat \<Rightarrow> nat \<Rightarrow> bool \<Rightarrow> (('h, 'b, 'cfg, 'v) aworld, StatusType) go" where
  "asyncSleep_DecodeHeaders f header endStream = go_then (start_task (SleepTask f)) (go_return Running)"

definition asyncSleep_DecodeData ::
    "nat \<Rightarrow> nat \<Rightarrow> bool \<Rightarrow> (('h, 'b, 'cfg, 'v) aworld, StatusType) go" where
  "asyncSleep_DecodeData f buffer endStream = go_then (start_task (SleepTask f)) (go_return Running)"

definition asyncSleep_DecodeTrailers ::
    "nat \<Rightarrow> nat \<Rightarrow> (('h, 'b, 'cfg, 'v) aworld, StatusType) go" where
  "asyncSleep_DecodeTrailers f trailers = go_then (start_task (SleepTask f)) (go_return Running)"

definition asyncSleep_EncodeHeaders ::
    "nat \<Rightarrow> nat \<Rightarrow> bool \<Rightarrow> (('h, 'b, 'cfg, 'v) aworld, StatusType) go" where
  "asyncSleep_EncodeHeaders f header endStream = go_then (start_task (SleepTask f)) (go_return Running)"

definition asyncSleep_EncodeData ::
    "nat \<Rightarrow> nat \<Rightarrow> bool \<Rightarrow> (('h, 'b, 'cfg, 'v) aworld, StatusType) go" where
  "asyncSleep_EncodeData f buffer endStream = go_then (start_task (SleepTask f)) (go_return Running)"

definition asyncSleep_EncodeTrailers ::
    "nat \<Rightarrow> nat \<Rightarrow> (('h, 'b, 'cfg, 'v) aworld, StatusType) go" where
  "asyncSleep_EncodeTrailers f trailers = go_then (start_task (SleepTask f)) (go_return Running)"

definition asyncSleep_OnDestroy :: "nat \<Rightarrow> int \<Rightarrow> (('h, 'b, 'cfg, 'v) aworld, unit) go" where
  "asyncSleep_OnDestroy f reason = go_return ()"

definition asyncSleep ::
    "nat \<Rightarrow> ('h, 'b, 'cfg, 'v) aworld HttpFilter" where
  "asyncSleep f = \<lparr>
     DecodeHeaders = asyncSleep_DecodeHeaders f,
     DecodeData = asyncSleep_DecodeData f,
     DecodeTrailers = asyncSleep_DecodeTrailers f,
     EncodeHeaders = asyncSleep_EncodeHeaders f,
     EncodeData = asyncSleep_EncodeData f,
     EncodeTrailers = asyncSleep_EncodeTrailers f,
     OnDestroy = asyncSleep_OnDestroy f\<rparr>"

definition asyncSleep_ConfigFactory ::
    "'cfg option \<Rightarrow> ('w, 'w HttpFilterFactory option) go" where
  "asyncSleep_ConfigFactory config = go_return (Some (\<lambda>callbacks. go_return (Some callbacks)))"

subsection \<open>async\<close>

definition httpFilter_DecodeHeaders ::
    "nat \<Rightarrow> nat \<Rightarrow> bool \<Rightarrow> (('h, 'b, 'cfg, 'v) aworld, StatusType) go" where
  "httpFilter_DecodeHeaders f header endStream =
     go_then (start_task (AsyncDecodeHeaders f header)) (go_return Running)"

definition httpFilter_DecodeData ::
    "nat \<Rightarrow> nat \<Rightarrow> bool \<Rightarrow> (('h, 'b, 'cfg, 'v) aworld, StatusType) go" where
  "httpFilter_DecodeData f buffer endStream =
     go_then (start_task (AsyncDecodeData f buffer)) (go_return Running)"

definition httpFilter_DecodeTrailers ::
    "nat \<Rightarrow> nat \<Rightarrow> (('h, 'b, 'cfg, 'v) aworld, StatusType) go" where
  "httpFilter_DecodeTrailers f trailers =
     go_then (start_task (AsyncDecodeTrailers f trailers)) (go_return Running)"

definition httpFilter_EncodeHeaders ::
    "nat \<Rightarrow> nat \<Rightarrow> bool \<Rightarrow> (('h, 'b, 'cfg, 'v) aworld, StatusType) go" where
  "httpFilter_EncodeHeaders f header endStream =
     go_then (start_task (AsyncEncodeHeaders f header)) (go_return Running)"

definition httpFilter_EncodeData ::
    "nat \<Rightarrow> nat \<Rightarrow> bool \<Rightarrow> (('h, 'b, 'cfg, 'v) aworld, StatusType) go" where
  "httpFilter_EncodeData f buffer endStream =
     go_then (start_task (AsyncEncodeData f buffer)) (go_return Running)"

definition httpFilter_EncodeTrailers ::
    "nat \<Rightarrow> nat \<Rightarrow> (('h, 'b, 'cfg, 'v) aworld, StatusType) go" where
  "httpFilter_EncodeTrailers f trailers =
     go_then (start_task (AsyncEncodeTrailers f trailers)) (go_return Running)"

definition httpFilter_OnDestroy :: "nat \<Rightarrow> int \<Rightarrow> (('h, 'b, 'cfg, 'v) aworld, unit) go" where
  "httpFilter_OnDestroy f reason = go_return ()"

definition async_filter :: "nat \<Rightarrow> ('h, 'b, 'cfg, 'v) aworld HttpFilter" where
  "async_filter f = \<lparr>
     DecodeHeaders = httpFilter_DecodeHeaders f,
     DecodeData = httpFilter_DecodeData f,
     DecodeTrailers = httpFilter_DecodeTrailers f,
     EncodeHeaders = httpFilter_EncodeHeaders f,
     EncodeData = httpFilter_EncodeData f,
     EncodeTrailers = httpFilter_EncodeTrailers f,
     OnDestroy = httpFilter_OnDestroy f\<rparr>"

text \<open>\<open>is_any\<close> is the type assertion \<^verbatim>\<open>config.(*anypb.Any)\<close>; the error of \<^verbatim>\<open>UnmarshalTo\<close> is ignored.\<close>

definition async_ConfigFactory ::
    "('cfg option \<Rightarrow> bool) \<Rightarrow> 'cfg option \<Rightarrow> ('w, 'w HttpFilterFactory option) go" where
  "async_ConfigFactory is_any config =
     (if is_any config then go_return (Some (\<lambda>callbacks. go_return (Some callbacks)))
      else go_return None)"

subsection \<open>The goroutines\<close>

definition run_async ::
    "('h, 'b, 'cfg, 'v) aworld HttpCAPI \<Rightarrow> async_task \<Rightarrow> (('h, 'b, 'cfg, 'v) aworld, unit) go" where
  "run_async C t = (case t of
      SleepTask f \<Rightarrow> httpRequest_Continue C f Continue
    | AsyncDecodeHeaders f header \<Rightarrow>
        go_bind (headerMapImpl_Get C header ''foo'') (\<lambda>_.
        go_bind (requestHeaderMapImpl_GetRaw C header ''foo'') (\<lambda>_.
          httpRequest_Continue C f Continue))
    | AsyncDecodeData f buffer \<Rightarrow>
        go_bind (httpBuffer_Len buffer) (\<lambda>_. httpRequest_Continue C f Continue)
    | AsyncDecodeTrailers f trailers \<Rightarrow>
        go_bind (headerTrailerMapImpl_Get C trailers ''foo'') (\<lambda>_.
          httpRequest_Continue C f Continue)
    | AsyncEncodeHeaders f header \<Rightarrow>
        go_bind (headerMapImpl_Get C header ''date'') (\<lambda>_.
        go_bind (responseHeaderMapImpl_GetRaw C header ''date'') (\<lambda>_.
        go_then (headerMapImpl_Set C header ''Foo'' ''Bar'')
          (httpRequest_SendLocalReply C f 403 ''forbidden from go'' [] (- 1) ''test-from-go'')))
    | AsyncEncodeData f buffer \<Rightarrow>
        go_bind (httpBuffer_Len buffer) (\<lambda>_.
        go_bind (httpBuffer_Bytes C buffer) (\<lambda>_. httpRequest_Continue C f Continue))
    | AsyncEncodeTrailers f trailers \<Rightarrow>
        go_bind (headerTrailerMapImpl_Get C trailers ''AtEnd1'') (\<lambda>_.
          httpRequest_Continue C f Continue))"

text \<open>
  A goroutine that panics ends the process. A continuation on a stream that is gone, was destroyed
  or is not in Go panics.
\<close>

lemma sleep_task_end:
  "run_async (httpCApiImpl E) (SleepTask f) w = (case api_gate w f of
     Ok _ \<Rightarrow> (Ok (), post_event f continue_event w)
   | Panic p \<Rightarrow> (Panic p, w) | Fault x \<Rightarrow> (Fault x, w))"
  by (simp only: run_async_def async_task.case httpRequest_Continue_eq)

end
