(* ===== verification/Status_Types.thy ===== *)
theory Status_Types
  imports Buffered Mosn Async_Samples
begin

text \<open>
  The type of statuses: a filter whose callbacks return one of the declared constants never makes
  the C side see an undeclared status, whether a callback returns, panics or answers an earlier
  panic. The filters of the repository are of this type.
\<close>

subsection \<open>Results of a type\<close>

definition yields :: "('a \<Rightarrow> bool) \<Rightarrow> ('s, 'a) go \<Rightarrow> bool" where
  "yields P m \<longleftrightarrow> (\<forall>s x s'. m s = (Ok x, s') \<longrightarrow> P x)"

lemma yields_return: "P x \<Longrightarrow> yields P (go_return x)"
  by (simp add: yields_def)

lemma yields_panic: "yields P (go_panic p)" and yields_fault: "yields P (go_fault f)"
  by (simp_all add: yields_def)

lemma yields_bind: "yields Q m \<Longrightarrow> (\<And>x. Q x \<Longrightarrow> yields P (f x)) \<Longrightarrow> yields P (go_bind m f)"
  unfolding yields_def by (metis go_bind_OkE)

lemma yields_any: "yields (\<lambda>_. True) m"
  by (simp add: yields_def)

lemma yields_then: "yields P n \<Longrightarrow> yields P (go_then m n)"
  unfolding go_then_def by (rule yields_bind [OF yields_any])

lemma yields_bind_any: "(\<And>x. yields P (f x)) \<Longrightarrow> yields P (go_bind m f)"
  by (rule yields_bind [OF yields_any])

lemma yields_recover:
  assumes "yields P m" "P z"
  shows "yields P (go_recover z m h)"
proof -
  have "P x" if "go_recover z m h s = (Ok x, s')" for s x s'
  proof (cases "m s")
    case (Pair y s1)
    then show ?thesis
      using that assms unfolding yields_def go_recover_def
      by (cases y) (auto simp: go_bind_def split: prod.splits outcome.splits)
  qed
  then show ?thesis by (auto simp: yields_def)
qed

lemma yields_if: "yields P m \<Longrightarrow> yields P n \<Longrightarrow> yields P (if c then m else n)"
  by simp

lemmas yields_intros = yields_if yields_return yields_panic yields_fault yields_then yields_bind_any

subsection \<open>Declared statuses\<close>

text \<open>The statuses of Envoy's filters that the API declares mean nothing on the C side.\<close>

lemma envoy_statuses_are_unexpected:
  "s \<in> set envoy_statuses \<Longrightarrow> golangStatus (c_int (status_to_u64 s)) = GUnexpected s"
  by (auto simp: envoy_statuses_def envoy_status_defs c_int_status golangStatus_def)

definition declared :: "StatusType \<Rightarrow> bool" where
  "declared s \<longleftrightarrow> s \<in> {Running, LocalReply, Continue, StopAndBuffer, StopAndBufferWatermark,
     StopNoBuffer}"

text \<open>The constants of the C++ enumeration.\<close>

fun declared_golang :: "GolangStatus \<Rightarrow> bool" where
  "declared_golang (GUnexpected n) = False"
| "declared_golang _ = True"

definition declared_filter :: "'w HttpFilter \<Rightarrow> bool" where
  "declared_filter f \<longleftrightarrow>
     (\<forall>h e. yields declared (DecodeHeaders f h e) \<and> yields declared (DecodeData f h e) \<and>
        yields declared (DecodeTrailers f h) \<and> yields declared (EncodeHeaders f h e) \<and>
        yields declared (EncodeData f h e) \<and> yields declared (EncodeTrailers f h))"

definition declared_plugin :: "('w, 'cfg) plugin \<Rightarrow> bool" where
  "declared_plugin P \<longleftrightarrow> (\<forall>f. declared_filter (http_filter P f))"

lemma declared_simps [simp]:
  "declared Running" "declared Continue" "declared StopAndBuffer"
  by (simp_all add: declared_def)

lemma declared_crosses: "declared s \<Longrightarrow> declared_golang (golangStatus (c_int (status_to_u64 s)))"
  by (auto simp: declared_def c_int_status golangStatus_def)

lemma declared_continues:
  "declared s \<Longrightarrow> (golangStatus (c_int (status_to_u64 s)) = GContinue) = (s = Continue)"
  by (auto simp: declared_def c_int_status golangStatus_def)

lemma declared_zero: "declared_golang (golangStatus (c_int 0))"
  by (simp add: golangStatus_def c_int_def)

abbreviation arrives :: "u64 \<Rightarrow> bool" where
  "arrives x \<equiv> declared_golang (golangStatus (c_int x))"

lemma arrives_after_panic:
  assumes "yields arrives m"
  shows "yields arrives (if c then go_then x (go_return (status_to_u64 Continue)) else m)"
proof -
  have "arrives (status_to_u64 Continue)" by (rule declared_crosses) (rule declared_simps)
  with assms show ?thesis by (simp add: yields_then yields_return del: Continue_def)
qed

lemma yields_filter_of:
  "declared_plugin P \<Longrightarrow> yields declared_filter (filter_of P rq)"
  unfolding filter_of_def by (intro yields_intros) (simp add: declared_plugin_def)

lemma yields_header_switch:
  assumes "declared_plugin P"
  shows "yields declared (header_switch P ph rq e n b)"
proof -
  note call = yields_bind [OF yields_filter_of [OF assms]]
  show ?thesis
    unfolding header_switch_def
    by (intro call yields_intros) (simp_all add: declared_filter_def del: Running_def)
qed

lemma arrives_header:
  assumes "declared_plugin P"
  shows "yields arrives (moeOnHttpHeader C P r e n b)"
proof -
  have body: "yields arrives (go_bind (header_switch P ph rq e n b)
      (\<lambda>status. go_return (status_to_u64 status)))" for ph rq
    by (rule yields_bind [OF yields_header_switch [OF assms]])
      (intro yields_return declared_crosses)
  show ?thesis
    unfolding moeOnHttpHeader_def
    by (intro yields_bind_any arrives_after_panic yields_recover [OF body declared_zero])
qed

lemma arrives_data:
  assumes "declared_plugin P"
  shows "yields arrives (moeOnHttpData C P r e a n)"
proof -
  have body: "yields arrives (go_bind (if ph = DecodeDataPhase then DecodeData f b e'
      else EncodeData f b e') (\<lambda>status. go_return (status_to_u64 status)))"
    if "declared_filter f" for ph f b e'
    by (rule yields_bind [of declared])
      (use that in \<open>auto simp: declared_filter_def intro!: yields_return declared_crosses\<close>)
  show ?thesis
    unfolding moeOnHttpData_def
    by (intro yields_bind_any arrives_after_panic yields_recover declared_zero
        yields_bind [OF yields_filter_of [OF assms] body])
qed

subsection \<open>The filters of the repository\<close>

lemma declared_default: "declared_plugin default_plugin"
  unfolding declared_plugin_def declared_filter_def default_plugin_def passThroughFilter_def
  by (simp add: yields_return del: Continue_def)

lemma declared_buffered: "declared_plugin (buffered_plugin U)"
  unfolding declared_plugin_def declared_filter_def buffered_plugin_def bufferedFilter_methods_def
    decode_defs encode_defs
  by (auto intro!: yields_intros simp del: Running_def StopAndBuffer_def)

lemma declared_mosn: "declared_plugin (mosn_plugin M)"
  unfolding declared_plugin_def declared_filter_def mosn_plugin_def ActiveStream_methods_def
    ActiveStream_DecodeHeaders_def ActiveStream_DecodeData_def ActiveStream_DecodeTrailers_def
    ActiveStream_EncodeHeaders_def ActiveStream_EncodeData_def ActiveStream_EncodeTrailers_def
  by (auto intro!: yields_intros simp del: Running_def)

lemma declared_async: "declared_filter (asyncSleep f)" "declared_filter (async_filter f)"
  unfolding declared_filter_def asyncSleep_def async_filter_def asyncSleep_DecodeHeaders_def
    asyncSleep_DecodeData_def asyncSleep_DecodeTrailers_def asyncSleep_EncodeHeaders_def
    asyncSleep_EncodeData_def asyncSleep_EncodeTrailers_def httpFilter_DecodeHeaders_def
    httpFilter_DecodeData_def httpFilter_DecodeTrailers_def httpFilter_EncodeHeaders_def
    httpFilter_EncodeData_def httpFilter_EncodeTrailers_def
  by (auto intro!: yields_intros simp del: Running_def)

end
