(* ===== verification/Example_Flow.thy ===== *)
theory Example_Flow
  imports Trailer_Flow Example_Env Buffered_Flow Echo_Flow Status_Types
begin

text \<open>
  Concrete streams for the properties of the flow: a response that is about to begin, with the
  buffered adapter and with the MOSN adapter, and a request that the echo filter answers.
\<close>

subsection \<open>The surroundings\<close>

text \<open>Go is plugged in by \<open>with_plugin\<close>; Envoy does not call back, and no buffer is ever too large.\<close>

definition ex_host :: "(entries, string, string, 'u) stream_host" where
  "ex_host = \<lparr>has_dynamicLib = True, lib_moeOnHttpHeader = (\<lambda>r e n b. go_return 0),
     lib_moeOnHttpData = (\<lambda>r e a n. go_return 0),
     lib_moeOnHttpDestroy = (\<lambda>r x. go_return ()), mergedConfigId = (\<lambda>i enc. go_return 0),
     alloc_req = (\<lambda>c. 7), alloc_buf = (\<lambda>c. 200), above_watermark = (\<lambda>a b. False),
     below_watermark = (\<lambda>a b. False),
     react = (\<lambda>c. go_return ())\<rparr>"

lemma ex_host_quiet: "no_watermark ex_host" "takes_data ex_host"
  by (simp_all add: no_watermark_def takes_data_def ex_host_def)

lemma ex_host_goes_on: "goes_on ex_host"
  by (simp add: goes_on_def ex_host_def)

definition ex_response_filter :: "string Filter" where
  "ex_response_filter = Filter_new\<lparr>filter_req := Some 7,
     decoding_state := ProcessorState_new\<lparr>fstate := Done\<rparr>\<rparr>"

lemma ex_response_filter_simps [simp]:
  "enter_encoding ex_response_filter = False" "filter_req ex_response_filter = Some 7"
  "has_destroyed ex_response_filter = False" "local_reply_waiting_go ex_response_filter = False"
  "decoding_state ex_response_filter = ProcessorState_new\<lparr>fstate := Done\<rparr>"
  "encoding_state ex_response_filter = ProcessorState_new"
  "side True ex_response_filter = ProcessorState_new"
  "side False ex_response_filter = ProcessorState_new\<lparr>fstate := Done\<rparr>"
  by (simp_all add: ex_response_filter_def Filter_new_def side_def)

definition ex_response :: "'u \<Rightarrow> (entries, string, string, 'u) world" where
  "ex_response u = at 5 ex_response_filter (ex_world_with u Done [] [] None)"

abbreviation ex_creq :: httpRequestInternal where
  "ex_creq \<equiv> (httpRequestInternal_new 5)\<lparr>phase := 1\<rparr>"

abbreviation ex_request :: httpRequest where
  "ex_request \<equiv> \<lparr>req = 7, httpFilter = Some 4, paniced = False, safePanic = False, sema = 0,
     finalizer = True\<rparr>"

lemma ex_response_simps [simp]:
  "filters (cside (ex_response u)) 5 = Some ex_response_filter"
  "creqs (cside (ex_response u)) 7 = Some ex_creq"
  "Requests (ex_response u) 7 = Some 4"
  "httpRequests (ex_response u) 4 = Some ex_request"
  "posted (cside (ex_response u)) = []" "envoy_calls (cside (ex_response u)) = []"
  "ustate (ex_response u) = u"
  by (simp_all add: ex_response_def) (simp add: ex_cside_def)

lemma ex_response_serves: "serves (ex_response u) 7 4 ex_request 4"
  by (simp add: serves_def)

subsection \<open>The buffered adapter\<close>

lemma ex_only_reads: "only_reads ex_user 4"
  by (simp add: only_reads_def ex_user_def)

lemma ex_response_buf: "buffered_objs (ex_response ex_bstate) 4 = Some ex_buf"
  by (simp add: buffered_objs_def ex_bstate_def)

subsection \<open>The MOSN adapter\<close>

text \<open>The stream object is 4, its callbacks the request 4; the echo filter is object 12.\<close>

definition ex_stream :: ActiveStream where
  "ex_stream = \<lparr>ctx = 1, filterChainName = ''chain'', filterChain = 6, currentReceivePhase = 0,
     as_callbacks = 4, as_reqHeader = None, as_reqBody = None, as_reqTrailer = None,
     as_respHeader = None, as_respBody = None, as_respTrailer = None\<rparr>"

definition ex_echo_config :: FilterConfigFactory where
  "ex_echo_config = \<lparr>cfg_Status = 200, cfg_Body = ''hi'', cfg_Headers = []\<rparr>"

definition ex_echo :: EchoFilter where
  "ex_echo = \<lparr>echoer = Some ex_echo_config, receiverFilterHandler = Some 4, senderHandler = None\<rparr>"

definition ex_mstate :: "nat echo_state mosn_state" where
  "ex_mstate = \<lparr>streams = [4 \<mapsto> ex_stream], moeBuffers = Map.empty, workPool = [],
     mosn_user = ([12 \<mapsto> ex_echo], 0)\<rparr>"

type_synonym ex_eworld = "(entries, string, string, nat) eworld"

definition ex_library :: "(nat \<Rightarrow> int \<Rightarrow> mosn_header option \<Rightarrow> mosn_body option \<Rightarrow>
    mosn_header option \<Rightarrow> (ex_eworld, unit) go) \<Rightarrow> (ex_eworld, string) mosn_library" where
  "ex_library run = \<lparr>
     NewContext = go_return 1, FindBuffers = (\<lambda>c. go_return 8), GiveContext = (\<lambda>c. go_return ()),
     GetDefaultStreamFilterChain = go_return 6, GetStreamFilterFactory = (\<lambda>name. None),
     PutStreamFilterChain = (\<lambda>fm. go_return ()), SetReceiveFilterHandler = (\<lambda>fm s. go_return ()),
     SetSenderFilterHandler = (\<lambda>fm s. go_return ()), RunReceiverFilter = run,
     RunSenderFilter = (\<lambda>fm ph h b t. go_return ()), BeforeRoute = 0, BeforeSend = 3,
     StreamFilterContinue = ''Continue'', StreamFilterStop = ''Stop'',
     ChainOnDestroy = (\<lambda>fm. go_return ()), VarHeaderStatus = (\<lambda>c. go_return None),
     range_order = (\<lambda>m. []),
     filter_chain_of = (\<lambda>c. case c of None \<Rightarrow> NoChain | Some n \<Rightarrow> ChainName n)\<rparr>"

definition ex_echo_library :: "(ex_eworld, string) mosn_library" where
  "ex_echo_library = ex_library (\<lambda>fm ph h b t. go_bind
     (OnReceive (httpCApiImpl ex_env) (ex_library (\<lambda>fm ph h b t. go_return ())) 12 h b t)
     (\<lambda>_. go_return ()))"

lemma ex_echo_chain: "echo_chain ex_env ex_echo_library 6 12"
proof -
  have lib: "range_order (ex_library run) = (\<lambda>m. [])"
    "StreamFilterContinue (ex_library run) = ''Continue''"
    "StreamFilterStop (ex_library run) = ''Stop''" "RunReceiverFilter (ex_library run) = run" for run
    by (simp_all add: ex_library_def)
  show ?thesis
    unfolding echo_chain_def ex_echo_library_def lib
    by (subst OnReceive_library [of _ "ex_library (\<lambda>fm ph h b t. go_return ())"])
      (simp_all only: lib simp_thms)
qed

definition ex_asked :: ex_eworld where
  "ex_asked = ex_world_with ex_mstate ProcessingHeader [] [] None"

lemma ex_asked_simps [simp]:
  "active ex_asked 4 = Some ex_stream" "echoes ex_asked 12 = Some ex_echo"
  "posted (cside ex_asked) = []" "api_gate ex_asked 4 = Ok (5, ex_filter ProcessingHeader [])"
  by (simp_all add: ex_asked_def active_def echoes_def ex_mstate_def ex_gate)

text \<open>An Envoy that sends a reply through the filter, with the headers at address 1.\<close>

definition ex_nested :: "(entries, string, string, nat echo_state mosn_state) stream_host" where
  "ex_nested = with_plugin (httpCApiImpl ex_env) (mosn_plugin ex_echo_library) ex_host"

definition ex_replier :: "(entries, string, string, nat echo_state mosn_state) stream_host" where
  "ex_replier = ex_host\<lparr>react := (\<lambda>c. case c of
      ReplyCall enc code body grpc details \<Rightarrow> go_then (encodeHeaders ex_env ex_nested 5 1 (body = []))
        (go_when (body \<noteq> []) (go_then (encodeData ex_env ex_nested 5 body True) (go_return ())))
    | _ \<Rightarrow> go_return ())\<rparr>"

lemma ex_reply_host: "no_watermark ex_replier" "takes_data ex_replier"
  "replies_by ex_env (with_plugin (httpCApiImpl ex_env) (mosn_plugin ex_echo_library) ex_host) 5 1 ex_replier"
proof -
  show "no_watermark ex_replier" "takes_data ex_replier"
    by (simp_all add: no_watermark_def takes_data_def ex_replier_def ex_host_def)
  have "bi_bytes ex_env body = body" for body by (simp add: ex_env_def)
  then show "replies_by ex_env (with_plugin (httpCApiImpl ex_env) (mosn_plugin ex_echo_library) ex_host)
      5 1 ex_replier"
    unfolding replies_by_def ex_nested_def [symmetric] by (auto simp: ex_replier_def)
qed

definition ex_answering :: "(entries, string, string, nat echo_state mosn_state) stream_host" where
  "ex_answering = with_plugin (httpCApiImpl ex_env) (mosn_plugin ex_echo_library) ex_replier"

lemma ex_asked_filter:
  "filters (cside ex_asked) 5 = Some (ex_filter ProcessingHeader [])"
  "\<not> has_destroyed (ex_filter ProcessingHeader [])" "\<not> enter_encoding (ex_filter ProcessingHeader [])"
  "\<not> local_reply_waiting_go (ex_filter ProcessingHeader [])"
  "filter_req (ex_filter ProcessingHeader []) = Some 7"
  "isProcessingInGo (side False (ex_filter ProcessingHeader []))"
  "side True (ex_filter ProcessingHeader []) = ProcessorState_new"
  by (simp_all add: ex_asked_def) (simp_all add: ex_filter_def Filter_new_def side_def isProcessingInGo_def)

lemma ex_asked_stream: "streams_for ex_asked 5 7 4 ex_request 4 6"
  by (simp add: streams_for_def ex_asked_def active_def ex_mstate_def ex_stream_def serves_def
      httpRequestInternal_new_def)

lemma ex_asked_rest: "workPool (ustate ex_asked) = []" "envoy_calls (cside ex_asked) = []"
  by (simp_all add: ex_asked_def ex_mstate_def) (simp add: ex_cside_def)

lemma ex_no_senders: "no_senders ex_echo_library 6"
  by (simp add: no_senders_def ex_echo_library_def ex_library_def)

subsection \<open>A request without a body\<close>

definition ex_headers_filter :: "string Filter" where
  "ex_headers_filter = Filter_new\<lparr>headers_ptr := Some 0, filter_req := Some 7,
     decoding_state := ProcessorState_new\<lparr>fstate := ProcessingHeader, end_stream := True,
       do_end_stream := True\<rparr>\<rparr>"

definition ex_headers_only :: ex_state where
  "ex_headers_only = at 5 ex_headers_filter (ex_world ProcessingHeader [] [] None)"

lemma ex_headers_only_simps [simp]:
  "api_gate ex_headers_only 4 = Ok (5, ex_headers_filter)"
  "posted (cside ex_headers_only) = []"
  "\<not> local_reply_waiting_go ex_headers_filter"
  "getProcessorState ex_headers_filter = ProcessorState_new\<lparr>fstate := ProcessingHeader,
     end_stream := True, do_end_stream := True\<rparr>"
  "data_buffer (ProcessorState_new\<lparr>fstate := ProcessingHeader, end_stream := True,
     do_end_stream := True\<rparr>) = None"
  by (simp_all add: ex_headers_only_def api_gate_def httpRequestInternal_new_def ex_headers_filter_def
      Filter_new_def getProcessorState_def isProcessingInGo_def ProcessorState_new_def)

end
