(* ===== verification/Example_Headers.thy ===== *)
theory Example_Headers
  imports Filter_Interface Example_Flow
begin

text \<open>
  A filter over the interfaces on a concrete stream: it renames the request header \<^verbatim>\<open>a\<close> to \<^verbatim>\<open>b\<close>. And a
  header that has two values, for iteration.
\<close>

definition ex_rename :: header_client where
  "ex_rename = Call (OpGet ''a'') (\<lambda>r. case r of
      ResGet v True \<Rightarrow> Call (OpSet ''b'' v) (\<lambda>_. Call (OpDel ''a'') (\<lambda>_. Answer Continue))
    | _ \<Rightarrow> Answer Continue)"

definition ex_edit_plugin :: "(ex_state, string) plugin" where
  "ex_edit_plugin = default_plugin\<lparr>http_filter := (\<lambda>f. interface_filter (httpCApiImpl ex_env) (\<lambda>m. [])
     \<lparr>decoder_Headers = (\<lambda>M e. run_client M ex_rename), decoder_Data = (\<lambda>b e. go_return Continue),
       decoder_Trailers = (\<lambda>t. go_return Continue)\<rparr>
     \<lparr>encoder_Headers = (\<lambda>M e. go_return Continue), encoder_Data = (\<lambda>b e. go_return Continue),
       encoder_Trailers = (\<lambda>t. go_return Continue)\<rparr> (\<lambda>r. go_return ()))\<rparr>"

lemma ex_edits: "edits_requests (httpCApiImpl ex_env) ex_edit_plugin (\<lambda>cfg e. ex_rename)"
  by (auto simp: edits_requests_def ex_edit_plugin_def default_plugin_def PassThroughFactory_def
      intro!: exI)

definition ex_fresh :: ex_state where
  "ex_fresh = at 5 Filter_new (ex_start\<lparr>cside := (cside ex_start)\<lparr>hm_heap := (\<lambda>_. [(''a'', ''1'')])\<rparr>\<rparr>)"

lemma ex_fresh_simps [simp]:
  "filters (cside ex_fresh) 5 = Some Filter_new" "hm_heap (cside ex_fresh) h = [(''a'', ''1'')]"
  "Requests ex_fresh r = None" "posted (cside ex_fresh) = []" "envoy_calls (cside ex_fresh) = []"
  by (simp_all add: ex_fresh_def ex_start_def)

lemma ex_sized: "sized ex_env [(''a'', ''1'')]"
  by (simp add: sized_def ex_env_def copy_room_def)

lemma ex_rename_proper:
  "first_read ex_rename"
  "proper_client (\<lambda>k. env_lower ex_env k = k) (hm_appends ex_env) ex_rename
     (\<lambda>k. vals k [(''a'', ''1'')])"
  "spec_client ex_rename (\<lambda>k. vals k [(''a'', ''1'')]) =
     (Continue, (\<lambda>k. if k = ''b'' then [''1''] else []))"
  by (auto simp: ex_rename_def within_def lower_char_def fun_eq_iff)

text \<open>Three entries under two names, and a function for \<open>Range\<close> that counts its calls.\<close>

definition ex_entries :: entries where
  "ex_entries = [(''a'', ''1''), (''b'', ''2''), (''a'', ''3'')]"

definition ex_two_names :: ex_state where
  "ex_two_names = ex_world ProcessingHeader [] ex_entries (Some (header_struct 4 3 6))"

definition ex_count :: "string \<Rightarrow> string \<Rightarrow> (ex_state, bool) go" where
  "ex_count k v = go_then (go_modify (\<lambda>w. w\<lparr>ustate := ustate w + 1\<rparr>)) (go_return True)"

lemma ex_count_apply [simp]: "ex_count k v w = (Ok True, w\<lparr>ustate := ustate w + 1\<rparr>)"
  by (simp add: ex_count_def)

lemma ex_two_names_fresh:
  "headerMaps ex_two_names 2 = Some (header_struct 4 3 6)" "header_view ex_two_names 4 = Ok ex_entries"
  "fresh_handle ex_env ex_entries (header_struct 4 3 6)" "ustate ex_two_names = 0"
  by (simp_all add: ex_two_names_def ex_header_view fresh_handle_def header_struct_def copy_room_def
      ex_entries_def)

end
