(* ===== verification/Example_Exchange.thy ===== *)
theory Example_Exchange
  imports Exchange_Flow Example_Headers
begin

text \<open>
  A whole exchange on a concrete stream: a filter of the buffered adapter that appends to the body of
  the request and puts the body of the response in brackets.
\<close>

definition ex_rewrites :: "bool \<Rightarrow> (BufferAction \<times> string) list" where
  "ex_rewrites enc = (if enc then [(PrependBuffer, ''<''), (AppendBuffer, ''>'')]
     else [(AppendBuffer, ''!'')])"

definition ex_write :: "bool \<Rightarrow> nat option \<Rightarrow> (ex_bworld, unit) go" where
  "ex_write enc data = (case data of None \<Rightarrow> go_return ()
     | Some b \<Rightarrow> body_ops (httpCApiImpl ex_env) b (ex_rewrites enc))"

definition ex_rewriter :: "(ex_bworld, string) buffered_user" where
  "ex_rewriter = \<lparr>
     buffered_httpFilterConfigFactory = (\<lambda>config. go_return (Some (\<lambda>callbacks.
       go_return (Some callbacks)))),
     buffered_filter = (\<lambda>f. \<lparr>
       Decode = (\<lambda>h d t. ex_write False d), Encode = (\<lambda>h d t. ex_write True d)\<rparr>)\<rparr>"

lemma ex_edits_bodies: "edits_bodies ex_env ex_rewriter (\<lambda>enc cfg. ex_rewrites enc)"
  by (force simp: edits_bodies_def ex_rewriter_def ex_write_def task_of_def)

definition ex_new_stream :: ex_bworld where
  "ex_new_stream = at 5 Filter_new ((ex_world_with ex_bstate Done [] [] None)\<lparr>Requests := Map.empty\<rparr>)"

lemma ex_new_stream_simps [simp]:
  "filters (cside ex_new_stream) 5 = Some Filter_new" "Requests ex_new_stream r = None"
  "posted (cside ex_new_stream) = []" "envoy_calls (cside ex_new_stream) = []"
  "goroutines (ustate ex_new_stream) = goroutines ex_bstate"
  by (simp_all add: ex_new_stream_def) (simp add: ex_cside_def)

lemma ex_writes_fit:
  "writes_fit (ex_rewrites False) ''abc''" "writes_fit (ex_rewrites True) ''de''"
  by (simp_all add: writes_fit_def ops_fit_def ex_rewrites_def All_less_Suc flip: less_Suc_eq_le)

lemma ex_rewritten:
  "body_specs (ex_rewrites False) ''abc'' = ''abc!''" "body_specs (ex_rewrites True) ''de'' = ''<de>''"
  by (simp_all add: ex_rewrites_def)

definition ex_rewriting :: "(entries, string, string, nat buffered_state) stream_host" where
  "ex_rewriting = with_plugin (httpCApiImpl ex_env) (buffered_plugin ex_rewriter) ex_host"

lemma ex_host_config:
  "\<forall>w'. same_configs ex_new_stream w' \<longrightarrow> mergedConfigId ex_host 5 False w' = (Ok 0, w')"
  by (simp add: ex_host_def)

lemma ex_host_new: "\<forall>c. Requests ex_new_stream (alloc_req ex_host c) = None"
  by simp

end
