(* ===== verification/Example_Config.thy ===== *)
theory Example_Config
  imports Example_Env Plugin_Config
begin

text \<open>
  A plugin with a parser, its library, and a server with two filter configurations and one route
  configuration, on which the properties of configurations are evaluated. A configuration is a string,
  merging appends.
\<close>

definition ex_linker :: linker where
  "ex_linker = \<lparr>dlopen = (\<lambda>name. Some 1), dlsym = (\<lambda>h s. Some 3)\<rparr>"

definition ex_parser :: "('w, string) HttpFilterConfigParser" where
  "ex_parser = \<lparr>Parse = (\<lambda>a. go_return (Some a)),
     Merge = (\<lambda>p c. go_return (case (p, c) of (Some a, Some b) \<Rightarrow> Some (a @ b) | _ \<Rightarrow> c))\<rparr>"

definition ex_cfg_plugin :: "('w, string) plugin" where
  "ex_cfg_plugin = RegisterHttpFilterConfigParser (Some ex_parser) default_plugin"

definition ex_code :: "(entries, string, string, 'u) world so_code" where
  "ex_code = \<lparr>code_moeNewHttpPluginConfig = (\<lambda>p. moeNewHttpPluginConfig ex_cfg_plugin id),
     code_moeMergeHttpPluginConfig = (\<lambda>p. moeMergeHttpPluginConfig ex_cfg_plugin),
     code_moeOnHttpHeader = (\<lambda>p. moeOnHttpHeader (httpCApiImpl ex_env) ex_cfg_plugin),
     code_moeOnHttpData = (\<lambda>p. moeOnHttpData (httpCApiImpl ex_env) ex_cfg_plugin),
     code_moeOnHttpSemaCallback = (\<lambda>p. moeOnHttpSemaCallback (httpCApiImpl ex_env)),
     code_moeOnHttpDestroy = (\<lambda>p. moeOnHttpDestroy (httpCApiImpl ex_env) ex_cfg_plugin)\<rparr>"

definition ex_any :: "string \<Rightarrow> Any" where
  "ex_any s = \<lparr>type_url = ''t'', any_value = s\<rparr>"

definition ex_serialize :: "Any \<Rightarrow> string option" where
  "ex_serialize conf = Some (any_value conf)"

definition ex_fc :: "string \<Rightarrow> FilterConfig" where
  "ex_fc s = FilterConfig_new ''p'' ''so'' (ex_any s)"

definition ex_route :: FilterConfigPerRoute where
  "ex_route = \<lparr>plugins_config = [(''p'', 3)]\<rparr>"

definition ex_extensions :: "dso_config list" where
  "ex_extensions = [\<lparr>cfg_so_id = ''so'', cfg_so_path = ''lib''\<rparr>, \<lparr>cfg_so_id = ''so'', cfg_so_path = ''old''\<rparr>]"

definition ex_cfg_cside :: "dso_map \<Rightarrow> (entries, string) cstate" where
  "ex_cfg_cside m = (ex_cside WaitingHeader [] [])\<lparr>filters := [5 \<mapsto> Filter_new], dsos := m,
     filterConfigs := [1 \<mapsto> ex_fc ''a'', 2 \<mapsto> ex_fc ''b''],
     routePlugins := [3 \<mapsto> RoutePluginConfig_new (ex_any ''r'')]\<rparr>"

definition ex_cfg_world :: ex_state where
  "ex_cfg_world = (ex_world WaitingHeader [] [] None)
     \<lparr>cside := ex_cfg_cside (run_bootstrap ex_linker ex_extensions [])\<rparr>"

lemma ex_resolves [simp]: "resolves ex_linker name"
  by (simp add: resolves_def ex_linker_def)

lemma ex_published: "getDsoInstanceByID ''so'' (run_bootstrap ex_linker ex_extensions []) =
    Some (DsoInstance_new ex_linker ''lib'')"
  unfolding run_bootstrap_lookup by (simp add: ex_extensions_def getDsoInstanceByID_def)

lemma ex_exports: "exports ex_code d (httpCApiImpl ex_env) ex_cfg_plugin id"
  by (simp add: exports_def ex_code_def)

lemma ex_pure_plugin: "pure_plugin ex_serialize id ex_cfg_plugin any_value (@)"
proof -
  have "parses_purely ex_cfg_plugin (\<lambda>a. a)" "merges_purely ex_cfg_plugin (@)"
    by (simp_all add: parses_purely_def merges_purely_def ex_cfg_plugin_def ex_parser_def
        RegisterHttpFilterConfigParser_def)
  moreover have "any_value = meaning ex_serialize id (\<lambda>a. a)"
    by (simp add: fun_eq_iff meaning_def ex_serialize_def)
  ultimately show ?thesis by (auto simp: pure_plugin_def ex_serialize_def)
qed

lemma ex_cfg_simps [simp]:
  "filters (cside ex_cfg_world) 5 = Some Filter_new"
  "dsos (cside ex_cfg_world) = run_bootstrap ex_linker ex_extensions []"
  "filterConfigs (cside ex_cfg_world) (Suc 0) = Some (ex_fc ''a'')"
  "filterConfigs (cside ex_cfg_world) 2 = Some (ex_fc ''b'')"
  "routePlugins (cside ex_cfg_world) p =
     (if p = 3 then Some (RoutePluginConfig_new (ex_any ''r'')) else None)"
  "configCache ex_cfg_world n = None" "configNumGenerator ex_cfg_world = 0"
  by (simp_all add: ex_cfg_world_def ex_cfg_cside_def)

lemma ex_fc_simps [simp]:
  "plugin_name (ex_fc s) = ''p''" "so_id (ex_fc s) = ''so''" "config_id (ex_fc s) = 0"
  "any_value (plugin_config (ex_fc s)) = s"
  by (simp_all add: ex_fc_def FilterConfig_new_def ex_any_def)

lemma ex_config_lib: "config_lib ex_code ex_cfg_plugin id ''so'' ex_cfg_world"
proof -
  have "loaded (DsoInstance_new ex_linker ''lib'')" by (simp add: loaded_new)
  then have l: "linked ex_linker (DsoInstance_new ex_linker ''lib'')"
    "resolves ex_linker (dsoName (DsoInstance_new ex_linker ''lib''))"
    by (simp_all add: linked_new)
  show ?thesis
    using exports_with_library(2,3) [OF ex_exports l] ex_published by (simp add: config_lib_def)
qed

lemma ex_configs_ok: "configs_ok any_value (@) par ex_cfg_world"
  by (auto simp: configs_ok_def ids_used_def ex_cfg_world_def ex_cfg_cside_def RoutePluginConfig_new_def
      ex_fc_def FilterConfig_new_def split: if_splits)

end
