(* ===== verification/Byte_Views.thy ===== *)
theory Byte_Views
  imports Config
begin

text \<open>
  The views of \<^verbatim>\<open>pkg/utils/string.go\<close>: a Go string or slice header that is made to point into C memory.
  The header holds an address and a length, not bytes, so what is read through it is what the memory
  holds at the time of the read. \<open>memory\<close> is C's memory as a map from addresses to bytes, undefined
  where nothing is allocated.
\<close>

subsection \<open>Headers and memory\<close>

record StringHeader =
  hdr_Data :: u64
  hdr_Len :: int

record SliceHeader = StringHeader +
  hdr_Cap :: int

text \<open>\<^verbatim>\<open>int(len)\<close> keeps the 64 bits of the number and makes them signed.\<close>

definition BytesToString :: "u64 \<Rightarrow> u64 \<Rightarrow> StringHeader" where
  "BytesToString ptr len = \<lparr>hdr_Data = ptr, hdr_Len = sint len\<rparr>"

definition BytesToSlice :: "u64 \<Rightarrow> u64 \<Rightarrow> SliceHeader" where
  "BytesToSlice ptr len = \<lparr>hdr_Data = ptr, hdr_Len = sint len, hdr_Cap = sint len\<rparr>"

type_synonym memory = "u64 \<Rightarrow> char option"

fun load_bytes :: "memory \<Rightarrow> u64 \<Rightarrow> nat \<Rightarrow> string option" where
  "load_bytes mem p 0 = Some []"
| "load_bytes mem p (Suc n) = (case mem p of
      None \<Rightarrow> None
    | Some c \<Rightarrow> (case load_bytes mem (p + 1) n of None \<Rightarrow> None | Some s \<Rightarrow> Some (c # s)))"

text \<open>Reading all of a view; a negative length is beyond what the runtime is made for.\<close>

definition read_view :: "memory \<Rightarrow> ('z) StringHeader_scheme \<Rightarrow> string outcome" where
  "read_view mem v =
     (if hdr_Len v < 0 then Fault OutOfBounds
      else case load_bytes mem (hdr_Data v) (nat (hdr_Len v)) of
        None \<Rightarrow> Fault UseAfterFree
      | Some s \<Rightarrow> Ok s)"

subsection \<open>A C string seen from Go\<close>

text \<open>\<open>store s p mem\<close> is the memory after \<open>s\<close> was written at \<open>p\<close>.\<close>

fun store :: "string \<Rightarrow> u64 \<Rightarrow> memory \<Rightarrow> memory" where
  "store [] p mem = mem"
| "store (c # s) p mem = (store s (p + 1) mem)(p \<mapsto> c)"

lemma load_bytes_upd:
  assumes "n < 2 ^ 64" "0 < k" "k + n \<le> 2 ^ 64"
  shows "load_bytes (mem(p \<mapsto> c)) (p + of_nat k) n = load_bytes mem (p + of_nat k) n"
  using assms
proof (induction n arbitrary: k)
  case (Suc n)
  have "(of_nat k :: u64) \<noteq> 0"
  proof
    assume "(of_nat k :: u64) = 0"
    then have "unat (of_nat k :: u64) = 0" by simp
    then show False using Suc.prems by (simp add: unat_of_nat)
  qed
  then have "p + of_nat k \<noteq> p" by simp
  then have "(mem(p \<mapsto> c)) (p + of_nat k) = mem (p + of_nat k)" by simp
  moreover have next_byte: "p + of_nat (Suc k) = p + of_nat k + 1" by (simp add: ac_simps)
  ultimately show ?case
    using Suc.IH [of "Suc k", unfolded next_byte] Suc.prems by (simp only: load_bytes.simps)
qed auto

lemma load_bytes_store: "length s < 2 ^ 64 \<Longrightarrow> load_bytes (store s p mem) p (length s) = Some s"
proof (induction s arbitrary: p)
  case (Cons c s)
  have "load_bytes ((store s (p + 1) mem)(p \<mapsto> c)) (p + of_nat 1) (length s) =
      load_bytes (store s (p + 1) mem) (p + of_nat 1) (length s)"
    using Cons.prems by (intro load_bytes_upd) auto
  also have "\<dots> = Some s" using Cons by simp
  finally have tail: "load_bytes ((store s (p + 1) mem)(p \<mapsto> c)) (p + 1) (length s) = Some s" by simp
  show ?case by (simp only: store.simps list.size(4) add_Suc_right add_0_right load_bytes.simps tail
      fun_upd_same option.case)
qed auto

lemma signed_length:
  assumes "length s < 2 ^ 63"
  shows "sint (of_nat (length s) :: u64) = int (length s)"
  using assms by (simp add: signed_of_nat signed_take_bit_int_eq_self)

text \<open>
  \<^verbatim>\<open>ptr = str.data(), len = str.length()\<close> on the C++ side, and the view on the Go side: the bytes of the
  string, as long as it is there and unchanged.
\<close>

lemma view_reads_string:
  assumes "length s < 2 ^ 63"
  shows "read_view (store s p mem) (BytesToSlice p (of_nat (length s))) = Ok s"
    and "read_view (store s p mem) (BytesToString p (of_nat (length s))) = Ok s"
  using assms load_bytes_store [of s p mem]
  by (simp_all add: read_view_def BytesToSlice_def BytesToString_def signed_length)

lemma view_follows_memory:
  assumes "length s' = length s" "length s < 2 ^ 63"
  shows "read_view (store s' p (store s p mem)) (BytesToString p (of_nat (length s))) = Ok s'"
  using view_reads_string(2) [of s' p "store s p mem"] assms by simp

lemma view_of_freed_memory:
  assumes "mem p = None" "0 < sint len"
  shows "read_view mem (BytesToString p len) = Fault UseAfterFree"
proof -
  obtain n where "nat (sint len) = Suc n" using assms(2) by (cases "nat (sint len)") auto
  then show ?thesis using assms by (simp add: read_view_def BytesToString_def)
qed

lemma huge_view:
  assumes "2 ^ 63 \<le> unat len"
  shows "read_view mem (BytesToSlice p len) = Fault OutOfBounds"
proof -
  have "unat len < 2 ^ 64" using unsigned_less [of len, where ?'a = nat] by simp
  with assms have "unat len div 2 ^ 63 = 1" by (simp add: div_nat_eqI)
  then have "bit (unat len) 63" by (simp add: bit_iff_odd)
  then have "bit len 63" by (simp add: bit_unsigned_iff)
  then have "sint len < 0" using bit_last_iff [of len] by simp
  then show ?thesis by (simp add: read_view_def BytesToSlice_def)
qed

subsection \<open>The configuration crosses as a view\<close>

text \<open>
  \<open>moeNewHttpPluginConfig\<close> as it is exported: its arguments are an address and a length. The model of
  the rest of the function takes the bytes.
\<close>

definition moeNewHttpPluginConfig_exported ::
    "(('h, 'b, 'cfg, 'u) world, 'cfg) plugin \<Rightarrow> (string \<Rightarrow> 'cfg) \<Rightarrow> memory \<Rightarrow> u64 \<Rightarrow> u64 \<Rightarrow>
     (('h, 'b, 'cfg, 'u) world, u64) go" where
  "moeNewHttpPluginConfig_exported P unmarshal mem configPtr configLen =
     go_bind (go_lift (read_view mem (BytesToSlice configPtr configLen)))
       (moeNewHttpPluginConfig P unmarshal)"

lemma exported_configuration:
  assumes "length s < 2 ^ 63"
  shows "moeNewHttpPluginConfig_exported P unmarshal (store s p mem) p (of_nat (length s)) =
    moeNewHttpPluginConfig P unmarshal s"
  by (simp add: moeNewHttpPluginConfig_exported_def view_reads_string(1) [OF assms] fun_eq_iff)

end
