(* ===== verification/Program_Init.thy ===== *)
theory Program_Init
  imports Echo Stream_Flow
begin

text \<open>
  The package variables of the library and what their initialisation makes of them: the plugin
  registration and the C API of \<^verbatim>\<open>pkg/http\<close>, the \<^verbatim>\<open>init\<close> functions of \<^verbatim>\<open>echo\<close>, \<^verbatim>\<open>pkg/http/mosn\<close> and
  \<^verbatim>\<open>main.go\<close>. Calls to MOSN's registries are listed in the order they are made. Go initialises the
  imported packages before the importing one, and the files of a package by name.
\<close>

subsection \<open>Package variables\<close>

datatype registration =
    RegisterStream string
  | RegisterBuffer
  | NewWorkerPool int
  | LoadAndRegisterStreamFilters string

record ('w, 'cfg) process =
  plugin_vars :: "('w, 'cfg) plugin"
  cAPI :: "'w HttpCAPI"
  registrations :: "registration list"

definition loaded_process ::
    "('h, 'b) envoy \<Rightarrow> (('h, 'b, 'cfg, 'u) world, 'cfg) process" where
  "loaded_process E = \<lparr>plugin_vars = default_plugin, cAPI = httpCApiImpl E, registrations = []\<rparr>"

definition SetHttpCAPI :: "'w HttpCAPI \<Rightarrow> ('w, 'cfg) process \<Rightarrow> ('w, 'cfg) process" where
  "SetHttpCAPI api p = p\<lparr>cAPI := api\<rparr>"

definition register :: "registration \<Rightarrow> ('w, 'cfg) process \<Rightarrow> ('w, 'cfg) process" where
  "register r p = p\<lparr>registrations := registrations p @ [r]\<rparr>"

text \<open>What the library exports to the C side, with the variables as they are.\<close>

definition exported ::
    "(('h, 'b, 'cfg, 'u) world, 'cfg) process \<Rightarrow> (nat \<Rightarrow> ('h, 'b, 'cfg, 'u) world HttpFilter) \<Rightarrow>
     ('h, 'b, 'cfg, 'u) stream_host \<Rightarrow> ('h, 'b, 'cfg, 'u) stream_host" where
  "exported p methods H = with_plugin (cAPI p) ((plugin_vars p)\<lparr>http_filter := methods\<rparr>) H"

subsection \<open>The \<open>init\<close> functions\<close>

definition EchoType :: string where
  "EchoType = ''echo''"

definition echo_init :: "('w, 'cfg) process \<Rightarrow> ('w, 'cfg) process" where
  "echo_init = register (RegisterStream EchoType)"

definition buffer_init :: "('w, 'cfg) process \<Rightarrow> ('w, 'cfg) process" where
  "buffer_init = register RegisterBuffer"

definition stream_init :: "int \<Rightarrow> ('w, 'cfg) process \<Rightarrow> ('w, 'cfg) process" where
  "stream_init NumCPU = (let poolSize = NumCPU * 256 in register (NewWorkerPool poolSize))"

definition DefaultMosnConfigPath :: string where
  "DefaultMosnConfigPath = ''/home/admin/mosn/config/mosn.json''"

text \<open>\<open>Getenv\<close> gives the empty string for a variable that is not set.\<close>

definition main_init ::
    "(('h, 'b, 'cfg, 'v) mworld, 'cfg) mosn_library \<Rightarrow> (string \<Rightarrow> string) \<Rightarrow>
     (('h, 'b, 'cfg, 'v) mworld, 'cfg) process \<Rightarrow> (('h, 'b, 'cfg, 'v) mworld, 'cfg) process" where
  "main_init M Getenv p =
     (let p = p\<lparr>plugin_vars := RegisterHttpFilterConfigFactory (mosn_ConfigFactory M) (plugin_vars p)\<rparr>;
          envPath = Getenv ''MOSN_CONFIG'';
          mosnConfigPath = (if envPath \<noteq> '''' then envPath else DefaultMosnConfigPath)
      in register (LoadAndRegisterStreamFilters mosnConfigPath) p)"

definition program_init ::
    "('h, 'b) envoy \<Rightarrow> (('h, 'b, 'cfg, 'v) mworld, 'cfg) mosn_library \<Rightarrow> (string \<Rightarrow> string) \<Rightarrow> int \<Rightarrow>
     (('h, 'b, 'cfg, 'v) mworld, 'cfg) process" where
  "program_init E M Getenv NumCPU =
     main_init M Getenv (stream_init NumCPU (buffer_init (echo_init (loaded_process E))))"

subsection \<open>The initialised program\<close>

text \<open>
  The program serves the MOSN adapter. MOSN's configuration is loaded last, when the filter type, the
  pool of buffers and the pool of workers it needs are there.
\<close>

lemma initialised_program:
  "exported (program_init E M Getenv NumCPU) (ActiveStream_methods M) H =
     with_plugin (httpCApiImpl E) (mosn_plugin M) H"
  "registrations (program_init E M Getenv NumCPU) = [RegisterStream ''echo'', RegisterBuffer,
     NewWorkerPool (NumCPU * 256), LoadAndRegisterStreamFilters
       (if Getenv ''MOSN_CONFIG'' = '''' then ''/home/admin/mosn/config/mosn.json''
        else Getenv ''MOSN_CONFIG'')]"
  by (simp_all add: exported_def program_init_def main_init_def stream_init_def buffer_init_def
      echo_init_def loaded_process_def register_def mosn_plugin_def EchoType_def
      DefaultMosnConfigPath_def RegisterHttpFilterConfigFactory_def Let_def)

text \<open>A test that replaces the C API reaches every callback.\<close>

lemma exported_api:
  "exported (SetHttpCAPI api p) methods H = with_plugin api ((plugin_vars p)\<lparr>http_filter := methods\<rparr>) H"
  by (simp add: exported_def SetHttpCAPI_def)

end
