(* ===== verification/Gate_Calls.thy ===== *)
theory Gate_Calls
  imports Metadata
begin

text \<open>
  Every call of the interface \<open>HttpCAPI\<close> as data, apart from \<open>HttpFinalize\<close>, and what becomes of it
  when the gate of \<open>Capi_Contract\<close> does not let it through: because the filter is gone, destroyed or
  not in Go, which panics, or because the C struct of the request was freed, which is a fault.
\<close>

subsection \<open>The calls\<close>

text \<open>
  The arguments are those of the methods, without the request. The handle of \<open>CallGetBuffer\<close> is the
  buffer object whose value is filled; a write of metadata has the bytes of the marshalled value, and a
  read the slice it fills.
\<close>

datatype api_call =
    CallContinue u64
  | CallSendLocalReply int string "(string \<times> string) list" int string
  | CallGetHeader string string
  | CallCopyHeaders u64 u64
  | CallSetHeader string string bool
  | CallRemoveHeader string
  | CallGetBuffer u64 nat u64
  | CallSetBufferHelper u64 string BufferAction
  | CallCopyTrailers u64 u64
  | CallSetTrailer string string
  | CallGetRouteName
  | CallGetDynamicMetadata bool string nat
  | CallSetDynamicMetadata bool string string string

definition no_result :: "('s, 'a) go \<Rightarrow> ('s, unit) go" where
  "no_result m = go_then m (go_return ())"

text \<open>The read of metadata is taken up to the point where it would block.\<close>

fun run_call :: "('h, 'b) envoy \<Rightarrow> nat \<Rightarrow> api_call \<Rightarrow> (('h, 'b, 'cfg, 'u) world, unit) go" where
  "run_call E r (CallContinue st) = HttpContinue (httpCApiImpl E) r st"
| "run_call E r (CallSendLocalReply code body hdrs grpc details) =
     HttpSendLocalReply (httpCApiImpl E) r code body hdrs grpc details"
| "run_call E r (CallGetHeader k v) = no_result (HttpGetHeader (httpCApiImpl E) r k v)"
| "run_call E r (CallCopyHeaders num bytes) = no_result (HttpCopyHeaders (httpCApiImpl E) r num bytes)"
| "run_call E r (CallSetHeader k v add) = HttpSetHeader (httpCApiImpl E) r k v add"
| "run_call E r (CallRemoveHeader k) = HttpRemoveHeader (httpCApiImpl E) r k"
| "run_call E r (CallGetBuffer a h len) = HttpGetBuffer (httpCApiImpl E) r a (set_buf_value h) len"
| "run_call E r (CallSetBufferHelper a s act) = HttpSetBufferHelper (httpCApiImpl E) r a s act"
| "run_call E r (CallCopyTrailers num bytes) = no_result (HttpCopyTrailers (httpCApiImpl E) r num bytes)"
| "run_call E r (CallSetTrailer k v) = HttpSetTrailer (httpCApiImpl E) r k v"
| "run_call E r CallGetRouteName = no_result (HttpGetRouteName (httpCApiImpl E) r)"
| "run_call E r (CallGetDynamicMetadata worker name slot) =
     go_then (sema_Add r) (no_result (meta_call worker r name slot))"
| "run_call E r (CallSetDynamicMetadata worker name key bytes) =
     impl_HttpSetDynamicMetadata E Inr worker r name key bytes"

text \<open>The allocations that a call makes first are within the limit of the runtime.\<close>

fun allocs :: "api_call \<Rightarrow> bool" where
  "allocs (CallCopyHeaders num bytes) = copy_allocs num bytes"
| "allocs (CallCopyTrailers num bytes) = copy_allocs num bytes"
| "allocs (CallGetBuffer a h len) = (unat len \<le> 2 ^ 48)"
| "allocs _ = True"

text \<open>
  What a call changes before it asks: the value of a handle becomes zero bytes, a slice is made nil.
\<close>

fun before_gate :: "api_call \<Rightarrow> ('h, 'b, 'cfg, 'u) world \<Rightarrow> ('h, 'b, 'cfg, 'u) world" where
  "before_gate (CallGetBuffer a h len) w = set_buf_value h (replicate (unat len) (CHR 0x00)) w"
| "before_gate (CallGetDynamicMetadata worker name slot) w = w\<lparr>cside := set_slot slot False (cside w)\<rparr>"
| "before_gate _ w = w"

subsection \<open>A closed gate\<close>

lemma no_result_panic: "m w = (Panic p, w') \<Longrightarrow> no_result m w = (Panic p, w')"
  and no_result_fault: "m w = (Fault f, w') \<Longrightarrow> no_result m w = (Fault f, w')"
  by (simp_all add: no_result_def)

lemma set_buf_value_again: "set_buf_value h v (set_buf_value h v' w) = set_buf_value h v w"
  by (simp add: set_buf_value_def upd_httpBuffer_def option.map_comp comp_def)

lemma impl_copy_headers_closed:
  assumes "api_gate w r = Panic p"
  shows "impl_HttpCopyHeaders E r num bytes w =
    (Panic (if copy_allocs num bytes then p else makeslice_out_of_range), w)"
  unfolding impl_HttpCopyHeaders_def
  by (rule copy_to_map_closed [OF assms]) (unfold moeHttpCopyHeaders_def copyHeaders_def, rule refl)

lemma impl_copy_trailers_closed:
  assumes "api_gate w r = Panic p"
  shows "impl_HttpCopyTrailers E r num bytes w =
    (Panic (if copy_allocs num bytes then p else makeslice_out_of_range), w)"
  unfolding impl_HttpCopyTrailers_def
  by (rule copy_to_map_closed [OF assms]) (unfold moeHttpCopyTrailers_def copyTrailers_def, rule refl)

lemma impl_get_buffer_closed:
  assumes "api_gate w r = Panic p" "unat len \<le> 2 ^ 48"
  shows "impl_HttpGetBuffer E r a (set_buf_value h) len w =
    (Panic p, set_buf_value h (replicate (unat len) (CHR 0x00)) w)"
proof -
  let ?z = "replicate (unat len) (CHR 0x00)"
  let ?w = "set_buf_value h ?z w"
  have gate: "api_gate ?w r = Panic p" using assms(1) by simp
  have "go_bind (c_call r (\<lambda>p. moeHttpGetBuffer E p a ?z))
      (\<lambda>(res, buf'). go_then (go_modify (set_buf_value h buf')) (handleCApiStatus res)) ?w =
      (Panic p, ?w)"
    unfolding moeHttpGetBuffer_def copyBuffer_def
    by (rule gate_closed [where k' = "\<lambda>_. go_return ()", OF gate]) (auto simp: set_buf_value_again)
  then show ?thesis
    unfolding impl_HttpGetBuffer_def using assms(2) by simp
qed

lemma impl_set_buffer_closed:
  "api_gate w r = Panic p \<Longrightarrow> impl_HttpSetBufferHelper E r a s act w = (Panic p, w)"
  unfolding impl_HttpSetBufferHelper_def moeHttpSetBufferHelper_def setBufferHelper_def
  by (rule gate_closed [where k' = "\<lambda>_. go_return ()"]) auto

lemma impl_set_metadata_closed:
  "api_gate w r = Panic p \<Longrightarrow> impl_HttpSetDynamicMetadata E Inr worker r name key bytes w = (Panic p, w)"
  unfolding impl_HttpSetDynamicMetadata_def moeHttpSetDynamicMetadata_def setDynamicMetadata_def sum.case
  by (rule gate_closed [where k' = "\<lambda>_. go_return ()"]) auto

text \<open>The wait group of a read is counted up and down again.\<close>

lemma read_closed:
  assumes gate: "api_gate w r = Panic p" and q: "httpRequests w r = Some q" "0 \<le> sema q"
  shows "run_call E r (CallGetDynamicMetadata worker name slot) w =
    (Panic p, w\<lparr>cside := set_slot slot False (cside w)\<rparr>)"
proof -
  let ?v = "upd_request r (sema_update (\<lambda>n. n + 1)) w"
  let ?w = "?v\<lparr>cside := set_slot slot False (cside ?v)\<rparr>"
  have g: "api_gate ?w r = Panic p" using gate by (simp only: api_gate_set_slot api_gate_upd_sema)
  have some: "httpRequests ?w r = Some (q\<lparr>sema := sema q + 1\<rparr>)" using q(1) by simp
  obtain st where st: "st \<in> {- 1, - 2, - 3}" "p = PanicString (status_error st)"
    and c: "c_call r (\<lambda>p. moeHttpGetDynamicMetadata worker p name slot) ?w = (Ok st, ?w)"
    unfolding moeHttpGetDynamicMetadata_def getDynamicMetadata_def
    using gate_call_closed [OF g, of id] some by auto
  have down: "upd_request r (sema_update (\<lambda>n. n - 1)) ?w = w\<lparr>cside := set_slot slot False (cside w)\<rparr>"
    using q by (simp add: upd_request_def fun_eq_iff)
  have "meta_call worker r name slot ?v = (Panic p, w\<lparr>cside := set_slot slot False (cside w)\<rparr>)"
    using c st some q(2) down
    by (auto simp: meta_call_def set_slot_def sema_Done_apply status_error_def)
  then show ?thesis using q by (simp add: sema_Add_apply no_result_panic)
qed

lemma closed_call:
  assumes "api_gate w r = Panic p" "httpRequests w r = Some q" "0 \<le> sema q"
  shows "run_call E r c w =
    (if allocs c then (Panic p, before_gate c w) else (Panic makeslice_out_of_range, w))"
proof (cases c)
  case (CallGetDynamicMetadata worker name slot)
  then show ?thesis using read_closed [OF assms] by simp
next
  case (CallGetBuffer a h len)
  then show ?thesis
    using impl_get_buffer_closed [OF assms(1)] by (auto simp: impl_HttpGetBuffer_def go_make_def)
qed (use assms in \<open>simp_all add: impl_HttpContinue_eq impl_HttpSendLocalReply_eq no_result_panic
    impl_HttpGetHeader_closed impl_copy_headers_closed impl_copy_trailers_closed header_view_gate impl_set_closed impl_remove_closed
    impl_set_buffer_closed impl_HttpSetTrailer_closed impl_HttpGetRouteName_closed
    impl_set_metadata_closed\<close>)

subsection \<open>A freed struct\<close>

lemma faulty_call:
  assumes "api_gate w r = Fault f" "httpRequests w r = Some q"
  shows "fst (run_call E r c w) = (if allocs c then Fault f else Panic makeslice_out_of_range)"
proof (cases c)
  case (CallCopyHeaders num bytes)
  have "impl_HttpCopyHeaders E r num bytes w =
      (if copy_allocs num bytes then Fault f else Panic makeslice_out_of_range, w)"
    unfolding impl_HttpCopyHeaders_def
    by (rule copy_to_map_fault [OF assms(1)]) (unfold moeHttpCopyHeaders_def copyHeaders_def, rule refl)
  with CallCopyHeaders show ?thesis by (simp add: no_result_def)
next
  case (CallCopyTrailers num bytes)
  have "impl_HttpCopyTrailers E r num bytes w =
      (if copy_allocs num bytes then Fault f else Panic makeslice_out_of_range, w)"
    unfolding impl_HttpCopyTrailers_def
    by (rule copy_to_map_fault [OF assms(1)]) (unfold moeHttpCopyTrailers_def copyTrailers_def, rule refl)
  with CallCopyTrailers show ?thesis by (simp add: no_result_def)
next
  case (CallGetBuffer a h len)
  let ?z = "replicate (unat len) (CHR 0x00)"
  have "api_gate (set_buf_value h ?z w) r = Fault f" using assms(1) by simp
  from gate_fault [OF this, of "\<lambda>st. (st, ?z)"] CallGetBuffer show ?thesis
    by (auto simp: impl_HttpGetBuffer_def go_make_def moeHttpGetBuffer_def copyBuffer_def)
next
  case (CallGetDynamicMetadata worker name slot)
  let ?v = "upd_request r (sema_update (\<lambda>n. n + 1)) w"
  have "api_gate (?v\<lparr>cside := set_slot slot False (cside ?v)\<rparr>) r = Fault f"
    using assms(1) by (simp only: api_gate_set_slot api_gate_upd_sema)
  from gate_fault [OF this, unfolded set_slot_def, of id] CallGetDynamicMetadata assms(2) show ?thesis
    by (auto simp: sema_Add_apply no_result_def meta_call_def moeHttpGetDynamicMetadata_def
        getDynamicMetadata_def)
qed (use assms in \<open>simp_all add: gate_fault impl_HttpContinue_eq impl_HttpSendLocalReply_eq
    no_result_def impl_HttpGetHeader_def moeHttpGetHeader_def getHeader_def impl_HttpSetHeader_def
    moeHttpSetHeaderHelper_def setHeader_def Let_def impl_HttpRemoveHeader_def moeHttpRemoveHeader_def
    removeHeader_def impl_HttpSetBufferHelper_def moeHttpSetBufferHelper_def setBufferHelper_def
    impl_HttpSetTrailer_def moeHttpSetTrailer_def setTrailer_def impl_HttpGetRouteName_def
    moeHttpGetStringValue_def getStringValue_def impl_HttpSetDynamicMetadata_def
    moeHttpSetDynamicMetadata_def setDynamicMetadata_def\<close>)

end
