(* ===== verification/Spec2Isabelle.thy ===== *)
theory Spec2Isabelle
  imports Example_Exchange Example_Config Byte_Views Program_Init Gate_Calls
begin

text \<open>
  A verification development for the Go extension of Envoy: the Go library under \<^verbatim>\<open>pkg\<close> with its
  sample plugins, and the C++ filter under \<^verbatim>\<open>src/envoy/http/golang\<close> it is bound to.

  \<^bold>\<open>The program.\<close> A bootstrap extension loads the Go library and publishes it under an identifier
  (\<^verbatim>\<open>dso.cc\<close>). Envoy creates one C++ filter per HTTP stream (\<^verbatim>\<open>golang_filter.cc\<close>), with the library
  its configuration names; with the first headers the filter obtains the identifier of its
  configuration, merged with those of the routes, from Go (\<^verbatim>\<open>config.go\<close>). The filter
  hands headers, buffers and trailers to Go through exported functions (\<^verbatim>\<open>moe.go\<close>), which find or
  create the Go object of the request and call the plugin (\<^verbatim>\<open>HttpFilter\<close>). The plugin answers with a
  status or, from a goroutine, with \<^verbatim>\<open>Continue\<close> and \<^verbatim>\<open>SendLocalReply\<close>; it reads and writes headers and
  bodies through handles (\<^verbatim>\<open>type.go\<close>) whose methods call back into C++ (\<^verbatim>\<open>capi.go\<close>, \<^verbatim>\<open>cgo.cc\<close>). Calls
  that must run on Envoy's worker thread are posted to it as closures. Adapters build other
  interfaces on the plugin interface: whole messages (\<^verbatim>\<open>pkg/http/buffered\<close>) and MOSN stream filters
  (\<^verbatim>\<open>pkg/http/mosn\<close>, with the filter \<^verbatim>\<open>pkg/filter/stream/echo\<close>).

  \<^bold>\<open>The model.\<close> A computation (\<open>go\<close>, theory \<open>Go_Prelude\<close>) takes a state and ends in \<open>Ok\<close>, a Go
  \<open>Panic\<close>, or a \<open>Fault\<close> (a failed \<^verbatim>\<open>ASSERT\<close>, a use of freed memory, a null pointer, an access out of
  bounds), and with the state it leaves. The state \<open>world\<close> (\<open>Go_World\<close>) holds the Go objects by
  pointer, the request map, the configurations, the C++ side \<open>cstate\<close> (\<open>Filter_Capi\<close>: filters, C
  structs, header maps, posted closures, calls on Envoy) and a part \<open>ustate\<close> for plugins. Go's
  interface \<open>HttpCAPI\<close> and plugins are records of computations, since the code replaces them at run time.
  Envoy's header maps and buffers are the record \<open>envoy\<close> (\<open>Envoy_Env\<close>) with laws that state their
  documented behaviour; MOSN's packages are the record \<open>mosn_library\<close>; lengths and addresses are
  64-bit words, a queue's byte count a 32-bit word, Go's and C's \<^verbatim>\<open>int\<close> an \<open>int\<close> that is truncated where
  the code converts it.

  \<^bold>\<open>Theories and sources.\<close>
  \<^item> \<open>Api_Types\<close>: \<^verbatim>\<open>pkg/api/type.go\<close>, \<^verbatim>\<open>pkg/http/api.h\<close>.
  \<^item> \<open>Processor_State\<close>: \<^verbatim>\<open>processor_state.cc\<close>, the state of one direction and its buffer list.
  \<^item> \<open>Filter_Capi\<close>: \<^verbatim>\<open>cgo.cc\<close> and the API for Go in \<^verbatim>\<open>golang_filter.cc\<close>.
  \<^item> \<open>Http_Capi\<close>, \<open>Header_Copy\<close>, \<open>Capi_Contract\<close>: \<^verbatim>\<open>pkg/http/capi.go\<close>; the last states the contract of
    the interface as the locale \<open>http_capi\<close> and interprets it on \<open>httpCApiImpl\<close>.
  \<^item> \<open>Header_Map\<close>, \<open>Header_Refine\<close>, \<open>Http_Buffer\<close>, \<open>Buffer_Contract\<close>, \<open>Strconv\<close>: \<^verbatim>\<open>pkg/http/type.go\<close>, with
    the locale \<open>http_buffers\<close> for bodies.
  \<^item> \<open>Api_Interfaces\<close>: the interfaces of \<^verbatim>\<open>pkg/api/type.go\<close> and \<^verbatim>\<open>pkg/api/filter.go\<close> as records of methods;
    \<open>Header_Interface\<close>: their implementations, and the contract of \<^verbatim>\<open>api.HeaderMap\<close> as the locale
    \<open>header_map\<close> with filters' code over it; \<open>Filter_Interface\<close>: filters over the interfaces in a
    stream.
  \<^item> \<open>Request\<close>: \<^verbatim>\<open>pkg/http/filter.go\<close>. \<open>Config\<close>: \<^verbatim>\<open>config.go\<close>, \<^verbatim>\<open>filtermanager.go\<close>, \<^verbatim>\<open>passthrough.go\<close>,
    \<^verbatim>\<open>pkg/api/filter.go\<close>. The locale \<open>keyed_store\<close> (\<open>Keyed_Store\<close>) serves configurations, the request map
    of \<open>Moe\<close> and the registry of libraries.
  \<^item> \<open>Dso\<close>: \<^verbatim>\<open>dso.cc\<close>, \<^verbatim>\<open>dso.h\<close> and the bootstrap extension, with \<open>pub\<close> as a step relation of threads;
    \<open>Byte_Views\<close>: \<^verbatim>\<open>pkg/utils/string.go\<close>, how the bytes of a configuration cross the boundary;
    \<open>Plugin_Config\<close>: \<^verbatim>\<open>src/envoy/http/golang/config.cc\<close> and the configurations of filter and routes in
    \<^verbatim>\<open>golang_filter.cc\<close>, down to what Go makes of them.
  \<^item> \<open>Moe\<close>: \<^verbatim>\<open>pkg/http/moe.go\<close>. \<open>Lifecycle\<close>: the step relation of callbacks, goroutines and the collector.
  \<^item> \<open>Metadata\<close>: dynamic metadata in \<^verbatim>\<open>capi.go\<close>, \<^verbatim>\<open>moe.go\<close> and \<^verbatim>\<open>golang_filter.cc\<close>, with the wait group and
    the mutex as a step relation of goroutines and the worker thread; \<open>Gate_Calls\<close>: every call of
    \<open>HttpCAPI\<close> on a request that may not be touched.
  \<^item> \<open>Stream_Flow\<close>: the callbacks of Envoy and the posted closures in \<^verbatim>\<open>golang_filter.cc\<close>;
    \<open>Stream_Runs\<close>: runs of a direction over them; \<open>Stream_Continue\<close>: what a posted continuation leads
    to; \<open>Stream_End\<close>: the notices of a local reply and of the end of a stream.
  \<^item> \<open>Buffered\<close>: \<^verbatim>\<open>pkg/http/buffered\<close>, \<^verbatim>\<open>samples/buffered\<close>, with the locale \<open>buffering\<close> for both directions;
    \<open>Mosn\<close>: \<^verbatim>\<open>pkg/http/mosn\<close>; \<open>Echo\<close>: \<^verbatim>\<open>pkg/filter/stream/echo\<close>; \<open>Async_Samples\<close>: \<^verbatim>\<open>samples/async\<close>,
    \<^verbatim>\<open>samples/async-sleep\<close>. \<open>Buffered_Flow\<close>, \<open>Trailer_Flow\<close>, \<open>Mosn_Flow\<close>: these plugins on a stream;
    \<open>Exchange_Flow\<close>: a request and its response through the buffered adapter; \<open>Echo_Flow\<close>: an answer of
    the echo filter, with Envoy's own callbacks for it.
    \<open>Program_Init\<close>: \<^verbatim>\<open>main.go\<close> and the other \<open>init\<close> functions.
  \<^item> \<open>Status_Types\<close>: statuses as a type. \<open>Example_Env\<close>, \<open>Example_Flow\<close>,
    \<open>Example_Config\<close>, \<open>Example_Headers\<close>, \<open>Example_Exchange\<close>: concrete states.

  \<^bold>\<open>What is shown.\<close> Header maps and bodies refine maps and strings, with the exact outcome of every
  copy between Go and C and the sequences that overflow it (C1 to C3, C15 to C17, C27); a
  filter's code over the interface runs on them from Envoy's callback on (C4), iteration gives first
  values only (C5), and names with upper-case letters are where Go and Envoy part (C6). The
  struct of a request is freed once, by its finalizer, over all interleavings (C7 to C9). Panic
  recovery ends and answers (C10 to C13); calls outside Go are turned away (C14). The state machine
  of a direction, its statuses and a streamed body (C18 to C21). Configurations: their identifiers,
  what the plugin of a stream gets, and what a route shared by two filters gets (C22 to C24);
  libraries: a published one is complete, a filter without one lets everything pass (C25, C26). A local
  reply that meets a callback in progress (C28). Reads of metadata complete or deadlock (C29,
  C30). The buffered adapter as a plugin (C31, C32), its sample (C33), and the adapter on a stream: it is equivalent to streaming
  for a response without trailers (C34), a whole exchange with a filter that rewrites bodies goes
  through it from the creation of the request to its end (C35), and what becomes of trailers (C36,
  C37). The MOSN adapter and the echo filter on a stream
  (C38, C39); statuses keep their type across the languages for every plugin of the repository
  (C40). The component theories hold further results of the same kind that are not numbered, among
  them \<open>pass_through_is_transparent\<close>, \<open>merge_keeps_originals\<close>, \<open>destroy_wakes_the_reader\<close>,
  \<open>buffered_plugin_abides\<close> (the adapter meets the condition that C7 puts on a plugin),
  \<open>concurrent_pub_replaces\<close>, \<open>read_after_growth_overflows\<close>, \<open>delete_before_read_phantom\<close>,
  \<open>envoy_statuses_are_unexpected\<close>, \<open>bodyless_answer_task_panics\<close>, \<open>view_reads_string\<close> and
  \<open>initialised_program\<close>.

  \<^bold>\<open>Fuel.\<close> \<open>RecoverPanic\<close> and \<open>safeReplyPanic\<close> call each other; \<open>recover_fuel\<close> is 2, and C10 shows that more
  changes nothing. No other definition has fuel.

  \<^bold>\<open>Not modelled.\<close> Envoy and MOSN themselves: Envoy's watermark buffers are two parameters that say
  when the callbacks of \<open>addBufferData\<close> run, and what Envoy does when it is called is the parameter
  \<open>react\<close>; the dynamic linker is the record \<open>linker\<close>, the code behind an address \<open>so_code\<close>, and parsing
  and serialising protobuf messages are functions. The C++ mutex of a filter, since an API call and a
  closure are single steps; cgo's pointer checks; logging and the
  filters of the integration tests. The interfaces of the API are modelled as records, but the
  pointer-level records (\<open>HttpFilter\<close>) are what the callbacks use; \<open>interface_filter\<close> binds the two.
\<close>

section \<open>Header maps\<close>

text \<open>
  C1: A header map that is first read and then read and written in any order behaves as a map from
  names to lists of values, and Envoy's map ends up with the same contents, as long as every name is
  in lower case and \<open>Add\<close> is used only for names whose values Envoy keeps apart (\<open>proper_op\<close>). For other
  names this is false: C6 has a name with an upper-case letter.
\<close>

theorem header_map_refines:
  assumes "header_laws E" "headerMaps w h = Some o'" "header_view w (request o') = Ok m"
    and "fresh_handle E m o'" "represents E m A" "is_read x"
    and "\<forall>y \<in> set (x # xs). proper_op E y"
  shows "\<exists>w' m'. impl_ops (httpCApiImpl E) h (x # xs) w = (Ok (fst (spec_ops A (x # xs))), w') \<and>
    header_view w' (request o') = Ok m' \<and> represents E m' (snd (spec_ops A (x # xs)))"
  using capi.fresh_ops_run [OF assms(1,2) refl assms(3-7)] by (auto elim!: tracksE)

theorem header_map_refines_witness:
  "\<exists>w' m'. impl_ops (httpCApiImpl ex_env) 2
      [OpGet ''a'', OpSet ''b'' ''2'', OpAdd ''a'' ''3'', OpValues ''a'', OpDel ''b'', OpGet ''b'']
      (ex_world ProcessingHeader [] [(''a'', ''1'')]
      (Some (header_struct 4 1 2))) =
    (Ok [ResGet ''1'' True, ResUnit, ResUnit, ResValues [''1'', ''3''], ResUnit, ResGet [] False], w') \<and>
    header_view w' 4 = Ok m' \<and>
    represents ex_env m' ((\<lambda>k. if k = ''a'' then [''1'', ''3''] else []))"
proof -
  let ?m = "[(''a'', ''1'')]"
  let ?w = "ex_world ProcessingHeader [] ?m (Some (header_struct 4 1 2))"
  let ?xs = "[OpSet ''b'' ''2'', OpAdd ''a'' ''3'', OpValues ''a'', OpDel ''b'', OpGet ''b'']"
  have fresh: "fresh_handle ex_env ?m (header_struct 4 1 2)"
    by (simp add: fresh_handle_def header_struct_def copy_room_def)
  have proper: "\<forall>y \<in> set (OpGet ''a'' # ?xs). proper_op ex_env y"
    by (simp add: proper_op_def lower_char_def ex_hm_appends)
  have spec: "fst (spec_ops (\<lambda>k. vals k ?m) (OpGet ''a'' # ?xs)) =
      [ResGet ''1'' True, ResUnit, ResUnit, ResValues [''1'', ''3''], ResUnit, ResGet [] False]"
    "snd (spec_ops (\<lambda>k. vals k ?m) (OpGet ''a'' # ?xs)) = (\<lambda>k. if k = ''a'' then [''1'', ''3''] else [])"
    by (auto simp: fun_eq_iff)
  have "request (header_struct 4 1 2) = 4" by (simp add: header_struct_def)
  then show ?thesis
    using header_map_refines [of ex_env ?w 2 "header_struct 4 1 2" ?m "\<lambda>k. vals k ?m"
        "OpGet ''a''" ?xs] fresh proper
    unfolding spec
    by (simp add: ex_header_laws ex_header_view represents_def)
qed

text \<open>
  C2: What copying the headers of a request gives, for every header map and any two numbers: Go makes
  room for \<^verbatim>\<open>num*2\<close> strings, a product that wraps, and for the bytes, and panics when that is more than
  the runtime allocates. Otherwise the copy gives exactly the entries Envoy holds, in order, grouped by
  name, when they fit (padded with an empty name when fewer are left), and leaves its allocation when
  they do not. The stream must be in Go and have headers.
\<close>

theorem copy_headers_exact:
  assumes "header_view w r = Ok m"
  shows "HttpCopyHeaders (httpCApiImpl E) r num bytes w =
    (let es = hm_iterate E m; slots = unat (num * 2) in
     if 2 ^ 48 < 16 * slots \<or> 2 ^ 48 < unat bytes then Panic makeslice_out_of_range
     else if 2 * length es \<le> slots \<and> entries_bytes es \<le> unat bytes
     then Ok (go_map (es @ replicate (slots div 2 - length es) ([], [])))
     else Fault OutOfBounds, w)"
  using impl_copy_any [OF assms, of E num bytes] by (auto simp: copy_result_def copy_allocs_def Let_def)

theorem copy_headers_exact_witness:
  "HttpCopyHeaders (httpCApiImpl ex_env) 4 1 2
     (ex_world ProcessingHeader [] [(''a'', ''1'')] None) =
   (Ok [''a'' \<mapsto> [''1'']], ex_world ProcessingHeader [] [(''a'', ''1'')] None)"
  using copy_headers_exact [of "ex_world ProcessingHeader [] [(''a'', ''1'')] None" 4 _ ex_env 1 2]
  by (simp add: ex_header_view go_map_def map_append_def)

text \<open>
  C3: Setting a name that is new before the first read makes that read write past its allocation.
\<close>

theorem set_before_read_overflows:
  assumes "header_laws E" "headerMaps w h = Some o'" "header_view w (request o') = Ok m"
    and "fresh_handle E m o'" "vals (env_lower E k) (hm_iterate E m) = []"
  shows "fst (go_then (headerMapImpl_Set (httpCApiImpl E) h k v)
      (headerMapImpl_Get (httpCApiImpl E) h k') w) = Fault OutOfBounds"
proof -
  let ?m = "hm_setCopy E m (env_lower E k) v"
  have o': "headers o' = None" "copy_room (headerNum o') (headerBytes o')"
    "unat (headerNum o') = length (hm_iterate E m)"
    using assms(4) by (simp_all add: fresh_handle_def)
  have "fst (load_headers (httpCApiImpl E) h (put_header (request o') ?m w)) = Fault OutOfBounds"
    unfolding capi.load_after [OF assms(2) o'(1) assms(3) o'(2)]
    using length_set_new [OF assms(1,5)] o'(3) by (simp add: copy_result_def)
  then show ?thesis
    using capi.fresh_set [OF assms(2) o'(1) assms(3), of E k v]
    by (auto simp: headerMapImpl_Get_def split: prod.split outcome.split)
qed

theorem set_before_read_overflows_witness:
  "fst (go_then (headerMapImpl_Set (httpCApiImpl ex_env) 2 ''b'' ''2'')
      (headerMapImpl_Get (httpCApiImpl ex_env) 2 ''a'')
      (ex_world ProcessingHeader [] [(''a'', ''1'')] (Some (header_struct 4 1 2)))) =
   Fault OutOfBounds"
  by (rule set_before_read_overflows [where m = "[(''a'', ''1'')]" and o' = "header_struct 4 1 2"])
    (simp_all add: ex_header_laws ex_header_view header_struct_def fresh_handle_def copy_room_def
      lower_char_def)

text \<open>
  C4: The first headers of a stream, with a filter that is written against \<^verbatim>\<open>api.RequestHeaderMap\<close>: Envoy's
  callback creates the request, the filter's code runs as it would on a map from names to lists of
  values, Envoy's header map ends up with the contents the code left, and the stream goes on just
  when the code answered with Continue. The code is any tree of calls that reads first, keeps to
  lower-case names and uses \<open>Add\<close> only for names whose values Envoy keeps apart.
\<close>

theorem edited_headers_reach_envoy:
  assumes "header_laws E" "edits_requests (httpCApiImpl E) P code"
    and "filters (cside w) i = Some F" "filter_req F = None" "\<not> has_destroyed F"
      "\<not> enter_encoding F" "fstate (side False F) = WaitingHeader" "isBufferDataEmpty E (side False F)"
    and "\<forall>w'. same_configs w w' \<longrightarrow> mergedConfigId H i False w' = (Ok n, w')"
    and "\<forall>c. Requests w (alloc_req H c) = None" "sized E (hm_heap (cside w) h)"
    and "c = code (configCache w n) e" "first_read c"
      "proper_client (\<lambda>k. env_lower E k = k) (hm_appends E) c
        (\<lambda>k. vals k (hm_iterate E (hm_heap (cside w) h)))"
      "spec_client c (\<lambda>k. vals k (hm_iterate E (hm_heap (cside w) h))) = (st, A)" "declared st"
  shows "\<exists>w'. decodeHeaders E (with_plugin (httpCApiImpl E) P H) i h e w = (Ok (st = Continue), w') \<and>
    represents E (hm_heap (cside w') h) A \<and> posted (cside w') = posted (cside w) \<and>
    envoy_calls (cside w') = envoy_calls (cside w)"
  using edited_headers [OF assms(1-15)] declared_continues [OF assms(16)] by simp

theorem edited_headers_reach_envoy_witness:
  "\<exists>w'. decodeHeaders ex_env (with_plugin (httpCApiImpl ex_env) ex_edit_plugin ex_host) 5 1 True ex_fresh =
      (Ok True, w') \<and>
    represents ex_env (hm_heap (cside w') 1) (\<lambda>k. if k = ''b'' then [''1''] else []) \<and>
    posted (cside w') = [] \<and> envoy_calls (cside w') = []"
  using edited_headers_reach_envoy [OF ex_header_laws ex_edits, where w = ex_fresh and i = 5 and
      F = Filter_new and H = ex_host and n = 0 and h = 1 and c = ex_rename and e = True and
      st = Continue and A = "\<lambda>k. if k = ''b'' then [''1''] else []"] ex_sized ex_rename_proper
  by (simp add: ex_host_def declared_def)

text \<open>
  C5: \<open>Range\<close> calls the function once for each name, in the order the runtime meets them, with the
  first value of the name only, and stops when the function returns false; a further value of the
  same name is not met.
\<close>

theorem range_gives_first_values:
  assumes "headerMaps w h = Some o'" "header_view w (request o') = Ok m" "fresh_handle E m o'"
    and "\<forall>k v w. headerMaps (snd (f k v w)) h = headerMaps w h"
    and "set (order (go_map (hm_iterate E m))) = fst ` set (hm_iterate E m)"
  shows "\<exists>w1. map_Range (requestHeaderMapImpl (httpCApiImpl E) order h) f w =
      each_header f (map (\<lambda>k. (k, hd (vals k (hm_iterate E m)))) (order (go_map (hm_iterate E m)))) w1 \<and>
    map_Range (responseHeaderMapImpl (httpCApiImpl E) order h) f w =
      map_Range (requestHeaderMapImpl (httpCApiImpl E) order h) f w \<and> outside w1 = outside w"
proof -
  have "headerMaps (snd (f k v w)) h = headerMaps w h" for k v w using assms(4) by blast
  then show ?thesis
    using fresh_Range [of w h o' m E f order] assms(1-3,5) by (simp add: requestHeaderMapImpl_def responseHeaderMapImpl_def)
qed

theorem range_gives_first_values_witness:
  "\<exists>w'. map_Range (requestHeaderMapImpl (httpCApiImpl ex_env) (\<lambda>m. [''b'', ''a'']) 2) ex_count ex_two_names =
      (Ok (), w') \<and> ustate w' = 2"
proof -
  have names: "set [''b'', ''a''] = fst ` set (hm_iterate ex_env ex_entries)"
    by (auto simp: ex_entries_def)
  have req: "request (header_struct 4 3 6) = 4" by (simp add: header_struct_def)
  obtain w1 where "map_Range (requestHeaderMapImpl (httpCApiImpl ex_env) (\<lambda>m. [''b'', ''a'']) 2) ex_count
      ex_two_names = each_header ex_count (map (\<lambda>k. (k, hd (vals k (hm_iterate ex_env ex_entries))))
        [''b'', ''a'']) w1" "outside w1 = outside ex_two_names"
    using range_gives_first_values [of ex_two_names 2 "header_struct 4 3 6" ex_entries ex_env ex_count
        "\<lambda>m. [''b'', ''a'']"] ex_two_names_fresh names by (auto simp: req)
  then show ?thesis using outside_views(7) [of w1 ex_two_names] ex_two_names_fresh(4) by simp
qed

text \<open>
  C6: After the first read, setting a header under a name with upper-case letters leaves Go and Envoy
  with different headers: Envoy stores the value under the lower-case name in place of the old ones, Go
  keeps it under the name as it was given. A read under that name gives the value, a read under the name
  that Envoy keeps, and sends, goes on giving the old values.
\<close>

theorem uppercase_set_is_not_read:
  assumes "header_laws E" "headerMaps w h = Some o'" "headers o' = Some c"
    and "header_view w (request o') = Ok m" "env_lower E k \<noteq> k"
  shows "\<exists>w' m'. headerMapImpl_Set (httpCApiImpl E) h k v w = (Ok (), w') \<and>
    header_view w' (request o') = Ok m' \<and> vals (env_lower E k) (hm_iterate E m') = [v] \<and>
    fst (headerMapImpl_Values (httpCApiImpl E) h k w') = Ok [v] \<and>
    fst (headerMapImpl_Values (httpCApiImpl E) h (env_lower E k) w') =
      Ok (case c (env_lower E k) of None \<Rightarrow> [] | Some vs \<Rightarrow> vs)"
proof -
  let ?w = "upd_headerMap h (\<lambda>o'. o'\<lparr>headers := map_option (\<lambda>m. m(k \<mapsto> [v])) (headers o')\<rparr>) w"
  let ?m = "hm_setCopy E m (env_lower E k) v"
  let ?w' = "put_header (request o') ?m ?w"
  have v: "header_view ?w (request o') = Ok m" using assms(4) by simp
  have "headerMapImpl_Set (httpCApiImpl E) h k v w = (Ok (), ?w')"
    using assms(2,3) capi.set_open [OF v, of E k v False]
    by (simp add: headerMapImpl_Set_def upd_cache_def)
  moreover have "header_view ?w' (request o') = Ok ?m" by (rule capi.view_put [OF v])
  moreover have "headerMaps ?w' h = Some (o'\<lparr>headers := Some (c(k \<mapsto> [v]))\<rparr>)"
    using assms(2,3) by (simp add: put_header_frame)
  ultimately show ?thesis
    using assms(5) vals_set_same [OF assms(1)]
    by (simp add: headerMapImpl_Values_def load_headers_cached split: option.split)
qed

theorem uppercase_set_is_not_read_witness:
  "\<exists>w' m'. headerMapImpl_Set (httpCApiImpl ex_env) 2 ''Foo'' ''new''
      (ex_world ProcessingHeader [] [(''foo'', ''old'')]
        (Some ((header_struct 4 1 6)\<lparr>headers := Some [''foo'' \<mapsto> [''old'']]\<rparr>))) = (Ok (), w') \<and>
    header_view w' 4 = Ok m' \<and> vals ''foo'' m' = [''new''] \<and>
    fst (headerMapImpl_Values (httpCApiImpl ex_env) 2 ''Foo'' w') = Ok [''new''] \<and>
    fst (headerMapImpl_Values (httpCApiImpl ex_env) 2 ''foo'' w') = Ok [''old'']"
  using uppercase_set_is_not_read [OF ex_header_laws, of "ex_world ProcessingHeader [] [(''foo'', ''old'')]
      (Some ((header_struct 4 1 6)\<lparr>headers := Some [''foo'' \<mapsto> [''old'']]\<rparr>))" 2
      "(header_struct 4 1 6)\<lparr>headers := Some [''foo'' \<mapsto> [''old'']]\<rparr>" "[''foo'' \<mapsto> [''old'']]"
      "[(''foo'', ''old'')]" "''Foo''" "''new''"]
  unfolding ex_lower_Foo by (simp add: ex_header_view header_struct_def)

section \<open>Life of a request\<close>

text \<open>
  C7: Whatever the interleaving of callbacks, goroutines and the collector, the C struct of a Go
  object that is still armed is alive and belongs to no other object, so its finalizer frees it
  and never frees it twice.
\<close>

theorem finalizer_frees_once:
  assumes "life_reachable E P w" "plugin_abides P" "armed w rq r"
  shows "requestFinalize (httpCApiImpl E) rq (disarm rq w) = (Ok (), free_struct r (disarm rq w)) \<and>
    {rq'. armed w rq' r} = {rq}"
  using requestFinalize_eq [OF life_reachable_inv [OF assms(1,2)] assms(3), of E]
    life_invD(2) [OF life_reachable_inv [OF assms(1,2)]] assms(3) by blast

theorem finalizer_frees_once_witness:
  "requestFinalize (httpCApiImpl ex_env) 10 (disarm 10 ex_created) =
    (Ok (), free_struct 7 (disarm 10 ex_created)) \<and> {rq'. armed ex_created rq' 7} = {10}"
  by (rule finalizer_frees_once [OF ex_created_reachable default_plugin_abides]) simp

text \<open>
  C8: When the filter is destroyed and its \<open>OnDestroy\<close> returns, the request leaves the map; its C
  struct is freed there and then for a normal end, and left to the collector for a terminated one.
\<close>

theorem destroy_releases:
  assumes "life_reachable E P w" "plugin_abides P"
    and "filters (cside w) i = Some F" "filter_req F = Some r" "\<not> has_destroyed F"
    and "Requests w r = Some rq" "httpRequests w rq = Some q" "httpFilter q = Some f"
    and "creqs (cside w) r = Some cq" "waitSema cq \<noteq> 1"
    and "OnDestroy (http_filter P f) (sint reason) (mark_destroyed i F w) = (Ok (), w2)"
  shows "\<exists>w'. moeOnHttpDestroy (httpCApiImpl E) P r reason (mark_destroyed i F w) = (Ok (), w') \<and>
    Requests w' r = None \<and> alive w' r = (sint reason \<noteq> Normal) \<and>
    armed w' rq r = (sint reason \<noteq> Normal)"
proof -
  let ?w = "mark_destroyed i F w"
  have inv: "life_inv w" by (rule life_reachable_inv [OF assms(1,2)])
  have a: "armed w rq r" using inv assms(6) by (rule life_invD(3))
  have J: "destroyable rq r ?w"
    using mark_destroyed_inv [OF inv assms(3-5)] a
    by (simp add: destroyable_def mark_destroyed_def cside_views)
  have user: "abides (OnDestroy (http_filter P f) (sint reason))"
    using assms(2) by (simp add: plugin_abides_def)
  have "moeOnHttpDestroy (httpCApiImpl E) P r reason ?w = (Ok (), destroyed rq r reason w2)"
    by (rule moeOnHttpDestroy_run [OF J _ _ assms(8) _ assms(10) user assms(11)])
      (simp_all add: mark_destroyed_def put_filter_def assms)
  moreover have "destroyable rq r w2"
    using destroyable_same_life [OF abidesD [OF user] J] assms(11) by simp
  ultimately show ?thesis
    using life_invD(1) [of w2 rq r] by (auto simp: destroyed_views destroyable_def)
qed

theorem destroy_releases_witness:
  "\<exists>w'. moeOnHttpDestroy (httpCApiImpl ex_env) default_plugin 7 0
      (mark_destroyed 5 (Filter_new\<lparr>filter_req := Some 7\<rparr>) ex_created) = (Ok (), w') \<and>
    Requests w' 7 = None \<and> alive w' 7 = (sint (0 :: u64) \<noteq> Normal) \<and>
    armed w' 10 7 = (sint (0 :: u64) \<noteq> Normal)"
  by (rule destroy_releases [OF ex_created_reachable default_plugin_abides,
        where f = 10 and cq = "httpRequestInternal_new 5" and
          q = "\<lparr>req = 7, httpFilter = Some 10, paniced = False, safePanic = False, sema = 0,
            finalizer = True\<rparr>"])
    (simp_all add: Filter_new_def httpRequestInternal_new_def default_plugin_def passThroughFilter_def)

text \<open>
  C9: After a normal end the code takes it that no one uses the request any more. For a goroutine that
  still holds it every call of the API (\<open>api_call\<close> lists them), \<open>Phase\<close>, and \<open>Continue\<close> with any status but
  \<open>LocalReply\<close> reads freed memory, unless the call panics before on an allocation that is too large; a
  second \<open>Finalize\<close> is a double free. What Go answers by itself still works: \<open>Continue\<close> with \<open>LocalReply\<close>
  returns at once, and headers that were read before are still read.
\<close>

theorem stale_request_faults:
  assumes "destroyable rq r w" "sint reason = Normal"
  shows "fst (run_call E rq c (destroyed rq r reason w)) =
      (if allocs c then Fault UseAfterFree else Panic makeslice_out_of_range) \<and>
    fst (httpRequest_Phase rq (destroyed rq r reason w)) = Fault UseAfterFree \<and>
    httpRequest_Continue (httpCApiImpl E) rq st (destroyed rq r reason w) =
      (if st = LocalReply then Ok () else Fault UseAfterFree, destroyed rq r reason w) \<and>
    fst (httpRequest_Finalize (httpCApiImpl E) rq k (destroyed rq r reason w)) = Fault DoubleFree \<and>
    (headerMaps w h = Some o' \<and> headers o' = Some m \<longrightarrow>
      fst (headerMapImpl_Values (httpCApiImpl E) h key (destroyed rq r reason w)) =
        Ok (case m key of None \<Rightarrow> [] | Some vs \<Rightarrow> vs))"
proof -
  let ?w = "destroyed rq r reason w"
  have "go_object ?w rq = Some r"
    using assms armed_go_object [of w rq r]
    by (simp add: destroyed_def destroyable_def free_struct_views disarm_views del_req_views)
  then obtain q where q: "httpRequests ?w rq = Some q" "req q = r" by (auto simp: go_object_def)
  have dead: "creqs (cside ?w) r = None"
    using destroyed_views(1) [of rq r reason w r] assms(2) by (simp add: alive_def)
  have gate: "api_gate ?w rq = Fault UseAfterFree" using q dead by (simp add: api_gate_def)
  have "httpRequest_Continue (httpCApiImpl E) rq st ?w =
      (if st = LocalReply then Ok () else Fault UseAfterFree, ?w)"
    by (simp add: httpRequest_Continue_def impl_HttpContinue_eq gate)
  moreover have "fst (httpRequest_Finalize (httpCApiImpl E) rq k ?w) = Fault DoubleFree"
    using q dead by (simp add: httpRequest_Finalize_def impl_HttpFinalize_def c_call_def
        moeHttpFinalize_def on_c_def)
  moreover have "headerMaps ?w = headerMaps w"
    by (simp add: destroyed_def free_struct_def disarm_def del_req_def)
  then have "headerMaps w h = Some o' \<and> headers o' = Some m \<longrightarrow>
      fst (headerMapImpl_Values (httpCApiImpl E) h key ?w) =
        Ok (case m key of None \<Rightarrow> [] | Some vs \<Rightarrow> vs)"
    by (auto simp: headerMapImpl_Values_def load_headers_cached split: option.split)
  moreover have "fst (httpRequest_Phase rq ?w) = Fault UseAfterFree"
    using q dead by (simp add: httpRequest_Phase_def)
  ultimately show ?thesis using faulty_call [OF gate q(1), of E c] by blast
qed

theorem stale_request_faults_witness:
  "fst (run_call ex_env 10 (CallGetHeader ''a'' []) (destroyed 10 7 0
      (mark_destroyed 5 (Filter_new\<lparr>filter_req := Some 7\<rparr>) ex_created))) = Fault UseAfterFree"
proof -
  let ?F = "Filter_new\<lparr>filter_req := Some 7\<rparr> :: string Filter"
  have "life_inv ex_created"
    by (rule life_reachable_inv [OF ex_created_reachable default_plugin_abides])
  from mark_destroyed_inv [OF this, of 5 ?F 7]
  have "destroyable 10 7 (mark_destroyed 5 ?F ex_created)"
    by (simp add: destroyable_def mark_destroyed_def cside_views Filter_new_def)
  from stale_request_faults [OF this, of 0 ex_env "CallGetHeader ''a'' []"] show ?thesis by simp
qed

section \<open>Panics\<close>

text \<open>
  C10: \<open>RecoverPanic\<close> always ends: with fuel 2 or more it does what \<open>recover_spec\<close> says, so it
  never runs out of fuel, and it panics itself only on a missing request or when the marker of a
  reply in progress is set.
\<close>

theorem recover_panic_total:
  assumes "1 < n"
  shows "RecoverPanic (httpCApiImpl E) n r e w = recover_spec r e w \<and>
    fst (RecoverPanic (httpCApiImpl E) n r e w) \<noteq> Fault OutOfFuel \<and>
    (\<forall>p. fst (RecoverPanic (httpCApiImpl E) n r e w) = Panic p \<longrightarrow> p \<in> {nil_deref, impossible})"
  unfolding RecoverPanic_spec [OF assms]
  by (auto simp: recover_spec_def reply_spec_def api_gate_def
      split: option.splits outcome.splits prod.splits if_splits)

theorem recover_panic_total_witness:
  "fst (RecoverPanic (httpCApiImpl ex_env) recover_fuel 4 index_out_of_range
      (ex_world ProcessingHeader [] [] None)) \<noteq> Fault OutOfFuel"
  by (rule recover_panic_total [THEN conjunct2, THEN conjunct1]) (simp add: recover_fuel_def)

text \<open>
  C11: A filter that panics in any of Go's callbacks with a part of a message, the first headers, further
  headers, data or trailers, with anything but the API's own errors, while Go owns the stream (the gate
  is open): Envoy gets the status \<open>Running\<close>, and one reply with code 500 is posted. No reply may be in
  progress, and the request must not carry the mark of an earlier panic.
\<close>

theorem panicking_filter_is_answered:
  assumes "creqs (cside w) r = Some cq" "comes_with P r (phase cq) cb w rq w1"
    and "httpRequests w1 rq = Some q" "\<not> paniced q"
    and "filter_turn P (phase cq) rq cb w1 = (Panic p, w2)" "\<not> api_error p"
    and "httpRequests w2 rq = Some q2" "\<not> safePanic q2" "api_gate w2 rq = Ok (i, F)"
  shows "\<exists>w'. go_callback_run (httpCApiImpl E) P r cb w = (Ok (status_to_u64 Running), w') \<and>
    posted (cside w') = posted (cside w2) @ [(i, PostLocalReply 500 panic_reply_body 0 [])]"
  using go_callback_panics [OF assms] answered_posted [OF assms(9)] by simp

text \<open>
  A plugin whose response callback indexes out of range, and the state that a panic outside Go leaves.
\<close>

definition ex_marked :: ex_state where
  "ex_marked = upd_request 4 (\<lambda>q. q\<lparr>paniced := True, safePanic := True\<rparr>)
     (ex_world WaitingData [] [] None)"

definition ex_panicking :: "(ex_state, string) plugin" where
  "ex_panicking = default_plugin\<lparr>http_filter := (\<lambda>f. (passThroughFilter f)\<lparr>
     DecodeTrailers := (\<lambda>h. go_panic index_out_of_range)\<rparr>)\<rparr>"

theorem panicking_filter_is_answered_witness:
  "\<exists>w'. moeOnHttpHeader (httpCApiImpl ex_env) ex_panicking 7 1 0 0
      ((ex_world ProcessingTrailer [] [] None)\<lparr>cside := put_creq 7
         ((httpRequestInternal_new 5)\<lparr>phase := 3\<rparr>) (ex_cside ProcessingTrailer [] [])\<rparr>) =
     (Ok (status_to_u64 Running), w') \<and>
    posted (cside w') = [(5, PostLocalReply 500 panic_reply_body 0 [])]"
proof -
  let ?cq = "(httpRequestInternal_new 5)\<lparr>phase := 3\<rparr>"
  let ?w = "(ex_world ProcessingTrailer [] [] None)\<lparr>cside := put_creq 7 ?cq
    (ex_cside ProcessingTrailer [] [])\<rparr> :: ex_state"
  let ?q = "\<lparr>req = 7, httpFilter = Some 4, paniced = False, safePanic = False, sema = 0,
    finalizer = True\<rparr>"
  let ?w2 = "?w\<lparr>trailerMaps := [10 \<mapsto> header_struct 4 0 0], next_ptr := 11\<rparr>"
  let ?cb = "OnHttpHeader 1 0 0"
  have run: "filter_turn ex_panicking (phase ?cq) 4 ?cb ?w = (Panic index_out_of_range, ?w2)"
    by (simp add: header_switch_def new_trailerMap_def filter_of_def ex_panicking_def
        default_plugin_def) (simp add: ex_world_with_def)
  have gate: "api_gate ?w2 4 = Ok (5, ex_filter ProcessingTrailer [])"
    by (simp add: api_gate_def put_creq_def httpRequestInternal_new_def isProcessingInGo_def)
  have "\<exists>w'. go_callback_run (httpCApiImpl ex_env) ex_panicking 7 ?cb ?w =
      (Ok (status_to_u64 Running), w') \<and>
      posted (cside w') = posted (cside ?w2) @ [(5, PostLocalReply 500 panic_reply_body 0 [])]"
    by (rule panicking_filter_is_answered [OF _ _ _ _ run _ _ _ gate, where q = ?q and ?q2.0 = ?q])
      (simp_all add: put_creq_def api_error_def index_out_of_range_def)
  then show ?thesis by (simp add: put_creq_def)
qed

text \<open>
  C12: A panic while Go does not own the stream cannot be answered then, whether it is \<open>ErrNotInGo\<close>
  itself or another panic, for which the reply fails: \<open>RecoverPanic\<close> returns, changes nothing on Envoy's
  side and leaves a mark on the request. In any later state in which the request has the mark and Go
  owns the stream again, a callback with data, trailers or the other headers answers with code 500 and
  the status \<open>Continue\<close> before it runs anything of the filter.
\<close>

theorem late_panic_answered_by_next_callback:
  assumes "httpRequests w rq = Some q" "api_gate w rq = Panic (PanicString ErrNotInGo)"
    and "p = PanicString ErrNotInGo \<or> \<not> api_error p \<and> \<not> safePanic q"
  shows "\<exists>w1 q1. RecoverPanic (httpCApiImpl E) recover_fuel rq p w = (Ok (), w1) \<and>
    cside w1 = cside w \<and> httpRequests w1 rq = Some q1 \<and> paniced q1 \<and> req q1 = req q \<and>
    (\<forall>w2 q2 cq cb P i F. httpRequests w2 rq = Some q2 \<and> paniced q2 \<and> Requests w2 (req q) = Some rq \<and>
      creqs (cside w2) (req q) = Some cq \<and> api_gate w2 rq = Ok (i, F) \<and>
      (\<forall>e n b. cb = OnHttpHeader e n b \<longrightarrow> phase cq \<noteq> DecodeHeaderPhase) \<longrightarrow>
      go_callback_run (httpCApiImpl E) P (req q) cb w2 = (Ok (status_to_u64 Continue), answered rq w2) \<and>
      posted (cside (answered rq w2)) =
        posted (cside w2) @ [(i, PostLocalReply 500 panic_reply_body 0 [])])"
proof -
  let ?w1 = "snd (recover_spec rq p w)"
  have "creqs (cside w) (req q) \<noteq> None"
    using assms(1,2) by (auto simp: api_gate_def split: option.splits)
  then have r: "recover_spec rq p w = (Ok (), ?w1)" and c: "cside ?w1 = cside w"
    and "\<exists>q1. httpRequests ?w1 rq = Some q1 \<and> paniced q1 \<and> req q1 = req q"
    using assms by (auto simp: recover_spec_def reply_spec_def reply_failed_def api_error_def)
  then obtain q1 where q1: "httpRequests ?w1 rq = Some q1" "paniced q1" "req q1 = req q" by blast
  have R: "RecoverPanic (httpCApiImpl E) recover_fuel rq p w = (Ok (), ?w1)"
    using RecoverPanic_spec [of recover_fuel E rq p w] r by (simp add: recover_fuel_def del: RecoverPanic.simps)
  have answers: "go_callback_run (httpCApiImpl E) P (req q) cb w2 =
      (Ok (status_to_u64 Continue), answered rq w2)"
    if "httpRequests w2 rq = Some q2" "paniced q2" "Requests w2 (req q) = Some rq"
      "creqs (cside w2) (req q) = Some cq" "api_gate w2 rq = Ok (i, F)"
      "\<forall>e n b. cb = OnHttpHeader e n b \<longrightarrow> phase cq \<noteq> DecodeHeaderPhase" for w2 q2 cq cb P i F
    using go_callback_marked [OF that(4) _ that(1,2,5), of P cb E] that(3,6) by (cases cb) auto
  show ?thesis
    by (rule exI [of _ ?w1], rule exI [of _ q1]) (use R c q1 answers answered_posted in blast)
qed

theorem late_panic_answered_by_next_callback_witness:
  "\<exists>w1. RecoverPanic (httpCApiImpl ex_env) recover_fuel 4 index_out_of_range
      (ex_world WaitingData [] [] None) = (Ok (), w1) \<and>
    moeOnHttpData (httpCApiImpl ex_env) default_plugin 7 1 100 3
        (ex_marked\<lparr>cside := ex_cside ProcessingData [(100, ''abc'')] []\<rparr>) =
      (Ok (status_to_u64 Continue),
       answered 4 (ex_marked\<lparr>cside := ex_cside ProcessingData [(100, ''abc'')] []\<rparr>))"
proof -
  let ?w2 = "ex_marked\<lparr>cside := ex_cside ProcessingData [(100, ''abc'')] []\<rparr>"
  let ?cq = "(httpRequestInternal_new 5)\<lparr>phase := 1\<rparr>"
  let ?q = "\<lparr>req = 7, httpFilter = Some 4, paniced = False, safePanic = False, sema = 0,
    finalizer = True\<rparr>"
  have w: "httpRequests (ex_world WaitingData [] [] None) 4 = Some ?q" by simp
  have gate: "api_gate (ex_world WaitingData [] [] None) 4 = Panic (PanicString ErrNotInGo)"
    by (simp add: ex_gate)
  have "httpRequests ?w2 4 = Some (?q\<lparr>paniced := True, safePanic := True\<rparr>)" "Requests ?w2 7 = Some 4"
    "creqs (cside ?w2) 7 = Some ?cq" "api_gate ?w2 4 = Ok (5, ex_filter ProcessingData [(100, ''abc'')])"
    by (simp_all add: ex_marked_def api_gate_def isProcessingInGo_def httpRequestInternal_new_def)
  note later = this
  have "\<not> api_error index_out_of_range" by (simp add: api_error_def index_out_of_range_def)
  with late_panic_answered_by_next_callback [OF w gate, of index_out_of_range ex_env]
  obtain w1 where R: "RecoverPanic (httpCApiImpl ex_env) recover_fuel 4 index_out_of_range
      (ex_world WaitingData [] [] None) = (Ok (), w1)"
    and answers: "\<And>(w2 :: ex_state) q2 cq cb P i F. httpRequests w2 4 = Some q2 \<and> paniced q2 \<and> Requests w2 7 = Some 4 \<and>
      creqs (cside w2) 7 = Some cq \<and> api_gate w2 4 = Ok (i, F) \<and>
      (\<forall>e n b. cb = OnHttpHeader e n b \<longrightarrow> phase cq \<noteq> DecodeHeaderPhase) \<Longrightarrow>
      go_callback_run (httpCApiImpl ex_env) P 7 cb w2 = (Ok (status_to_u64 Continue), answered 4 w2)"
    unfolding httpRequest.simps by meson
  have "go_callback_run (httpCApiImpl ex_env) default_plugin 7 (OnHttpData 1 100 3) ?w2 =
      (Ok (status_to_u64 Continue), answered 4 ?w2)"
    by (rule answers [OF conjI [OF later(1)]]) (use later in simp)
  then have "moeOnHttpData (httpCApiImpl ex_env) default_plugin 7 1 100 3 ?w2 =
      (Ok (status_to_u64 Continue), answered 4 ?w2)"
    by (simp only: go_callback_run.simps)
  with R show ?thesis by blast
qed

text \<open>
  C13: Two panics of a filter while Go does not own the stream, neither of them the API's own
  error: the reply to the first fails and leaves \<open>safePanic\<close> set, so the second one ends in the
  code's own panic, which nothing recovers.
\<close>

theorem second_panic_is_fatal:
  assumes "httpRequests w rq = Some q" "creqs (cside w) (req q) = Some cq" "\<not> safePanic q"
    and "api_gate w rq = Panic (PanicString ErrNotInGo)" "\<not> api_error p" "\<not> api_error p'"
  shows "\<exists>w1. RecoverPanic (httpCApiImpl E) recover_fuel rq p w = (Ok (), w1) \<and>
    RecoverPanic (httpCApiImpl E) recover_fuel rq p' w1 = (Panic impossible, w1)"
proof -
  let ?w1 = "upd_request rq (reply_failed (PanicString ErrNotInGo)) w"
  have "RecoverPanic (httpCApiImpl E) recover_fuel rq p w = (Ok (), ?w1)"
    using assms RecoverPanic_spec [of recover_fuel E rq p w]
    by (simp add: recover_spec_def reply_spec_def api_error_def recover_fuel_def)
  moreover have "RecoverPanic (httpCApiImpl E) recover_fuel rq p' ?w1 = (Panic impossible, ?w1)"
    using assms RecoverPanic_spec [of recover_fuel E rq p' ?w1]
    by (simp add: recover_spec_def reply_failed_def api_error_def recover_fuel_def)
  ultimately show ?thesis by blast
qed

theorem second_panic_is_fatal_witness:
  "\<exists>w1. RecoverPanic (httpCApiImpl ex_env) recover_fuel 4 index_out_of_range
      (ex_world WaitingData [] [] None) = (Ok (), w1) \<and>
    RecoverPanic (httpCApiImpl ex_env) recover_fuel 4 nil_deref w1 = (Panic impossible, w1)"
  by (rule second_panic_is_fatal [where cq = "(httpRequestInternal_new 5)\<lparr>phase := 1\<rparr>" and
        q = "\<lparr>req = 7, httpFilter = Some 4, paniced = False, safePanic = False, sema = 0,
          finalizer = True\<rparr>"])
    (simp_all add: ex_gate api_error_def index_out_of_range_def nil_deref_def)

text \<open>
  C14: While the filter behind a request is gone, destroyed or not in Go, every call of the API
  (\<open>api_call\<close> lists them, with the calls for dynamic metadata) panics with the error that says so, unless
  Go's own allocation for the call panics first. Nothing is changed by then but what the call does
  before it asks (\<open>before_gate\<close>): fetching a body has made the value of the handle zero bytes, and
  reading metadata has made the slice nil.
\<close>

theorem closed_gate_stops_every_call:
  assumes "api_gate w r = Panic p" "httpRequests w r = Some q" "0 \<le> sema q"
  shows "run_call E r c w =
      (if allocs c then (Panic p, before_gate c w) else (Panic makeslice_out_of_range, w)) \<and>
    p \<in> {PanicString ErrRequestFinished, PanicString ErrFilterDestroyed, PanicString ErrNotInGo}"
  using closed_call [OF assms] api_gate_errors [OF assms(1)] assms(2) by simp

theorem closed_gate_stops_every_call_witness:
  "run_call ex_env 4 (CallSetHeader ''a'' ''1'' False) (ex_world WaitingData [] [] None) =
    (Panic (PanicString ErrNotInGo), ex_world WaitingData [] [] None)"
  using closed_gate_stops_every_call [of "ex_world WaitingData [] [] None" 4
      "PanicString ErrNotInGo" _ ex_env "CallSetHeader ''a'' ''1'' False"] by (simp add: ex_gate)

section \<open>Bodies\<close>

text \<open>
  C15: Any sequence of writes to a body does to Envoy's buffer what it would do to a string.
\<close>

theorem body_writes_refine:
  assumes "buffer_laws E" "httpBuffers w h = Some o'"
    and "buffer_view w (buf_request o') (envoyBufferInstance o') = Ok b" "ops_fit xs"
    and "\<And>ys zs. xs = ys @ zs \<Longrightarrow> length (body_specs ys (bi_bytes E b)) < 2 ^ 64"
  shows "\<exists>w' b'. body_ops (httpCApiImpl E) h xs w = (Ok (), w') \<and>
    buffer_view w' (buf_request o') (envoyBufferInstance o') = Ok b' \<and>
    bi_bytes E b' = body_specs xs (bi_bytes E b)"
  using bufs.body_ops_run [OF assms(1-4)] assms(5) by blast

theorem body_writes_refine_witness:
  "\<exists>w' b'. body_ops (httpCApiImpl ex_env) 3 [(AppendBuffer, ''d''), (PrependBuffer, ''0'')]
      (ex_world ProcessingData [(100, ''abc'')] [] None) = (Ok (), w') \<and>
    buffer_view w' 4 100 = Ok b' \<and> bi_bytes ex_env b' = ''0abcd''"
proof -
  let ?w = "ex_world ProcessingData [(100, ''abc'')] [] None"
  let ?o = "\<lparr>buf_request = 4, envoyBufferInstance = 100, buf_length = 3, buf_value = []\<rparr>"
  let ?xs = "[(AppendBuffer, ''d''), (PrependBuffer, ''0'')]"
  have small: "length (body_specs ys (bi_bytes ex_env ''abc'')) < 2 ^ 64" if "?xs = ys @ zs" for ys zs
    using that by (auto simp: Cons_eq_append_conv)
  have "\<exists>w' b'. body_ops (httpCApiImpl ex_env) 3 ?xs ?w = (Ok (), w') \<and>
      buffer_view w' (buf_request ?o) (envoyBufferInstance ?o) = Ok b' \<and>
      bi_bytes ex_env b' = body_specs ?xs (bi_bytes ex_env ''abc'')"
    by (rule body_writes_refine [OF ex_buffer_laws _ _ _ small])
      (simp_all add: ops_fit_def buffer_view_def ex_gate find_buffer_def)
  then show ?thesis by simp
qed

text \<open>
  C16: What \<open>String\<close> reads: the body, padded with zero bytes to the length the handle was made
  with; a body that has outgrown that length is written past the end of the Go allocation. A handle
  that was made with length 0 reads as the empty string whatever the body has become, without a call of
  Envoy, and one whose length is more than the runtime allocates panics.
\<close>

theorem body_read_exact:
  assumes "httpBuffers w h = Some o'"
    and "buffer_view w (buf_request o') (envoyBufferInstance o') = Ok b"
  shows "fst (httpBuffer_String (httpCApiImpl E) h w) =
    (if buf_length o' = 0 then Ok []
     else if 2 ^ 48 < unat (buf_length o') then Panic makeslice_out_of_range
     else if length (bi_bytes E b) \<le> unat (buf_length o')
     then Ok (bi_bytes E b @ replicate (unat (buf_length o') - length (bi_bytes E b)) (CHR 0x00))
     else Fault OutOfBounds)"
  using bufs.fetch_value_fits [OF assms, of E] bufs.fetch_value_overflow [OF assms, of E] assms(1)
  by (auto simp: httpBuffer_String_def fetch_value_def impl_HttpGetBuffer_def)

theorem body_read_exact_witness:
  "fst (httpBuffer_String (httpCApiImpl ex_env) 3
     (ex_world ProcessingData [(100, ''ab'')] [] None)) = Ok [CHR ''a'', CHR ''b'', CHR 0x00]"
  using body_read_exact [of "ex_world ProcessingData [(100, ''ab'')] [] None" 3
      "\<lparr>buf_request = 4, envoyBufferInstance = 100, buf_length = 3, buf_value = []\<rparr>" "''ab''" ex_env]
  by (simp add: buffer_view_def ex_gate find_buffer_def)

text \<open>
  C17: Go's use of the latest buffer drops every buffer that was handed to it before: what the
  filter chain gets then is that buffer alone.
\<close>

theorem earlier_buffers_are_dropped:
  assumes "buffer_laws E" "api_gate w r = Ok (i, F)"
    and "filter_queue F = bs @ [(a, b)]" "distinct (map fst (bs @ [(a, b)]))"
    and "length s < 2 ^ 31" "length (bi_bytes E b) < 2 ^ 64"
  shows "\<exists>w' F'. HttpSetBufferHelper (httpCApiImpl E) r a s AppendBuffer w = (Ok (), w') \<and>
    api_gate w' r = Ok (i, F') \<and>
    list_bytes E (doDataList (getProcessorState F)) =
      concat (map (\<lambda>x. bi_bytes E (snd x)) bs) @ bi_bytes E b \<and>
    list_bytes E (doDataList (getProcessorState F')) = bi_bytes E b @ s"
proof -
  let ?b = "apply_action E (c_action AppendBuffer) s b"
  have a: "a \<notin> fst ` set bs" using assms(4) by simp
  have f: "find_buffer a (bs @ [(a, b)]) = Some b"
    using a by (induction bs) (auto simp: find_buffer_def)
  have v: "buffer_view w r a = Ok b"
    using assms(2-4) f by (simp add: buffer_view_def)
  have "dropWhile (\<lambda>x. fst x \<noteq> a) (bs @ [(a, b)]) = [(a, b)]"
    using a by (induction bs) auto
  then have put: "put_buffer r a ?b w = w\<lparr>cside := put_filter i (put_queue
      ((doDataList (getProcessorState F))\<lparr>queue := [(a, ?b)]\<rparr>) F) (cside w)\<rparr>"
    using assms(2,3) by (simp add: put_buffer_def upd_buffer_def)
  have "HttpSetBufferHelper (httpCApiImpl E) r a s AppendBuffer w = (Ok (), put_buffer r a ?b w)"
    by (rule bufs.helper_open [OF v assms(5)])
  moreover have "api_gate (put_buffer r a ?b w) r = Ok (i, put_queue
      ((doDataList (getProcessorState F))\<lparr>queue := [(a, ?b)]\<rparr>) F)"
    unfolding put by (rule api_gate_put_queue [OF assms(2)])
  moreover have "bi_bytes E ?b = bi_bytes E b @ s"
    using bufs.apply_action_bytes [OF assms(1,6), of AppendBuffer s] by simp
  ultimately show ?thesis
    using assms(3) by (simp add: list_bytes_def filter_queue_def)
qed

theorem earlier_buffers_are_dropped_witness:
  "\<exists>w' F'. HttpSetBufferHelper (httpCApiImpl ex_env) 4 200 ''!'' AppendBuffer
      (ex_world ProcessingData [(100, ''lost''), (200, ''kept'')] [] None) = (Ok (), w') \<and>
    api_gate w' 4 = Ok (5, F') \<and> list_bytes ex_env (doDataList (getProcessorState F')) = ''kept!''"
  using earlier_buffers_are_dropped [of ex_env
      "ex_world ProcessingData [(100, ''lost''), (200, ''kept'')] [] None" 4 5
      "ex_filter ProcessingData [(100, ''lost''), (200, ''kept'')]" "[(100, ''lost'')]" 200 "''kept''" "''!''"]
  by (auto simp: ex_buffer_laws ex_gate)

text \<open>
  C18: A body that Go streams through untouched reaches the filter chain complete, in order, once.
\<close>

theorem streamed_body_is_complete:
  assumes "buffer_laws E" "doDataList p = pushes E bs BufferList_new"
    and "end_stream p \<or>
      (of_nat (length (concat (map (\<lambda>x. bi_bytes E (snd x)) bs))) :: u32) \<noteq> 0"
  shows "\<exists>d. continueDoData E p = (Some (d, do_end_stream p), p\<lparr>doDataList := BufferList_new\<rparr>) \<and>
    bi_bytes E d = concat (map (\<lambda>x. bi_bytes E (snd x)) bs)"
  by (rule continueDoData_pushes [OF assms])

theorem streamed_body_is_complete_witness:
  "\<exists>d. continueDoData ex_env (ProcessorState_new\<lparr>doDataList :=
        pushes ex_env [(1, ''ab''), (2, ''c'')] BufferList_new\<rparr>) =
      (Some (d, False), ProcessorState_new\<lparr>doDataList := BufferList_new\<rparr>) \<and> bi_bytes ex_env d = ''abc''"
  using streamed_body_is_complete [OF ex_buffer_laws, of
      "ProcessorState_new\<lparr>doDataList := pushes ex_env [(1, ''ab''), (2, ''c'')] BufferList_new\<rparr>"
      "[(1, ''ab''), (2, ''c'')]"]
  by (simp add: ProcessorState_new_def del: pushes.simps)

section \<open>Phases and statuses\<close>

text \<open>
  C19: Only the status \<open>Continue\<close> lets the stream go on, in headers, data and trailers; every other
  status keeps it with Go or waiting.
\<close>

theorem only_continue_goes_on:
  assumes "isProcessingInGo p"
    and "fstate p = ProcessingData \<Longrightarrow> queue (doDataList p) \<noteq> []"
  shows "fst (handleGolangStatus E status p) = Ok (status = GContinue)"
proof -
  consider "fstate p = ProcessingHeader" | "fstate p = ProcessingData" | "fstate p = ProcessingTrailer"
    using assms(1) by (auto simp: isProcessingInGo_def)
  then show ?thesis
  proof cases
    case 1
    then show ?thesis using assms(1) by (simp add: handleGolangStatus_def handleHeader_apply)
  next
    case 2
    then show ?thesis using assms handleData_result [of p E status] by (simp add: handleGolangStatus_def)
  next
    case 3
    then show ?thesis using assms(1) by (simp add: handleGolangStatus_def handleTrailer_apply)
  qed
qed

theorem only_continue_goes_on_witness:
  "fst (handleGolangStatus ex_env GStopAndBuffer (ProcessorState_new\<lparr>fstate := ProcessingHeader\<rparr>)) =
    Ok False"
  using only_continue_goes_on [of "ProcessorState_new\<lparr>fstate := ProcessingHeader\<rparr>" ex_env GStopAndBuffer]
  by (simp add: isProcessingInGo_def)

text \<open>
  C20: In a run of one direction that sends no local reply the phase never goes back, so the
  headers are given to Go once: a second time is stopped by the assertion.
\<close>

theorem headers_given_once:
  assumes "ps_run E p p'" "fstate p \<noteq> WaitingHeader"
  shows "phase_rank (fstate p) \<le> phase_rank (fstate p') \<and>
    fst (processHeader eos p') = Fault AssertFailed"
  using ps_run_rank [OF assms(1)] header_once [OF assms] by simp

theorem headers_given_once_witness:
  "fst (processHeader False (snd (handleGolangStatus ex_env GContinue
     (snd (processHeader False (ProcessorState_new :: string ProcessorState)))))) = Fault AssertFailed"
proof -
  let ?p = "snd (processHeader False (ProcessorState_new :: string ProcessorState))"
  let ?p' = "snd (handleGolangStatus ex_env GContinue ?p)"
  have p: "?p = ProcessorState_new\<lparr>fstate := ProcessingHeader\<rparr>"
    by (simp add: processHeader_def ProcessorState_new_def)
  have "ps_step ex_env ?p ?p'"
    by (rule Status [where status = GContinue and go_on = True])
      (simp add: p handleGolangStatus_def handleHeader_apply isProcessingInGo_def)
  then have "ps_run ex_env ?p ?p'" using ps_stop ps_more by metis
  from headers_given_once [OF this] show ?thesis unfolding p by simp
qed

text \<open>
  C21: A goroutine that continues a message without a body with \<open>StopAndBuffer\<close> is let through by the
  API, and the closure it posts then reads the body through a null pointer on the worker thread.
\<close>

theorem stop_without_body_crashes:
  assumes "api_gate w rq = Ok (i, F)" "\<not> local_reply_waiting_go F"
    and "fstate (getProcessorState F) = ProcessingHeader" "end_stream (getProcessorState F)"
    and "data_buffer (getProcessorState F) = None"
  shows "\<exists>w1 w2. httpRequest_Continue (httpCApiImpl E) rq StopAndBuffer w = (Ok (), w1) \<and>
    posted (cside w1) = posted (cside w) @ [(i, PostContinue GStopAndBuffer)] \<and>
    run_closure E H i (PostContinue GStopAndBuffer) w1 = (Fault NullPointer, w2)"
proof -
  let ?w1 = "w\<lparr>cside := post i (PostContinue GStopAndBuffer) (cside w)\<rparr>"
  have F: "filters (cside w) i = Some F" "\<not> has_destroyed F"
    using assms(1) by (auto simp: api_gate_def split: option.splits if_splits)
  have p: "getProcessorState F = side (enter_encoding F) F"
    by (simp add: getProcessorState_def side_def)
  have "httpRequest_Continue (httpCApiImpl E) rq StopAndBuffer w = (Ok (), ?w1)"
    using assms(1) stop_event_eq
    by (simp add: httpRequest_Continue_def impl_HttpContinue_eq post_event_def)
  moreover have "at i F ?w1 = ?w1" by (rule at_self) (simp add: post_def F)
  ultimately show ?thesis
    using continue_without_body [OF F(2) assms(2) refl assms(3,4,5) [unfolded p], of E H i ?w1]
    by (auto simp: post_def)
qed

theorem stop_without_body_crashes_witness:
  "\<exists>w1 w2. httpRequest_Continue (httpCApiImpl ex_env) 4 StopAndBuffer ex_headers_only = (Ok (), w1) \<and>
    posted (cside w1) = [(5, PostContinue GStopAndBuffer)] \<and>
    run_closure ex_env ex_host 5 (PostContinue GStopAndBuffer) w1 = (Fault NullPointer, w2)"
  using stop_without_body_crashes [of ex_headers_only 4 5 ex_headers_filter ex_env ex_host] by simp

section \<open>Configurations\<close>

text \<open>
  C22: Every configuration is found under the identifier it was given, however many were made
  before and after it, as long as the 64-bit counter has not gone round.
\<close>

theorem configurations_are_found:
  assumes "parses_purely P parse" "length bufs < 2 ^ 64" "i < length bufs"
    and "new_configs P unmarshal bufs w = (Ok ns, w')"
  shows "distinct ns \<and> configCache w' (ns ! i) = Some (parse (unmarshal (bufs ! i)))"
proof -
  have "ns = config_ids (configNumGenerator w) (length bufs)"
    using assms(4) unfolding new_configs_run [OF assms(1)] by simp
  then show ?thesis using distinct_config_ids [OF assms(2)] new_configs_found [OF assms] by simp
qed

theorem configurations_are_found_witness:
  "\<exists>w'. new_configs default_plugin (\<lambda>b. b) [''x'', ''y''] (ex_world WaitingHeader [] [] None) =
      (Ok [1, 2], w') \<and> configCache w' ([1, 2] ! 1) = Some ''y''"
proof -
  have pure: "parses_purely default_plugin (\<lambda>c. c)"
    by (simp add: parses_purely_def default_plugin_def)
  obtain w' where r: "new_configs default_plugin (\<lambda>b. b) [''x'', ''y'']
      (ex_world WaitingHeader [] [] None) = (Ok [1, 2], w')"
    using new_configs_run [OF pure, of "\<lambda>b. b" "[''x'', ''y'']" "ex_world WaitingHeader [] [] None"]
    by (simp add: numeral_2_eq_2 del: new_configs.simps)
  from configurations_are_found [OF pure _ _ r, of 1] r show ?thesis by simp
qed

text \<open>
  C23: The configuration of a stream reaches the plugin: when the C struct of a new request is made, the
  identifier put into it is one under which Go gives the filter factory the configuration of the
  filter merged with those of the routes, from the outermost to the innermost. The caches
  stay right, and a later stream gets the same identifier without another call of Go. The hypothesis
  on the routes is that each route configuration has always been merged into the same parent.
\<close>

theorem stream_gets_merged_config:
  assumes "pure_plugin serialize unmarshal P v merge"
    and "filters (cside w) i = Some F" "filter_req F = None"
    and "filterConfigs (cside w) (conf i) = Some fc" "config_lib K P unmarshal (so_id fc) w"
    and "configs_ok v merge par w" "routes_ok v merge par w fc (rs i enc)"
    and "unat (configNumGenerator w) + 2 * length (rs i enc) + 1 < 2 ^ 64"
  shows "\<exists>q w'. make_req (with_config serialize K conf rs H) i enc w = (Ok (), w') \<and>
    creqs (cside w') (alloc_req H (cside w)) = Some q \<and> weakFilter q = i \<and>
    getOrCreateHttpFilterFactory P (configId q) w' =
      httpFilterConfigFactory P (Some (stream_config v merge w fc (rs i enc))) w' \<and>
    configs_ok v merge par w' \<and>
    (\<forall>w''. same_configs w' w'' \<longrightarrow>
       Filter_getMergedConfigId serialize K (conf i) (rs i enc) w'' = (Ok (configId q), w''))"
proof -
  from make_req_config [of serialize unmarshal P v merge w i F conf fc K par rs enc H] assms
  obtain q w' where "make_req (with_config serialize K conf rs H) i enc w = (Ok (), w')"
    "creqs (cside w') (alloc_req H (cside w)) = Some q" "weakFilter q = i"
    "configCache w' (configId q) = Some (stream_config v merge w fc (rs i enc))"
    "configs_ok v merge par w'" "\<forall>w''. same_configs w' w'' \<longrightarrow>
       Filter_getMergedConfigId serialize K (conf i) (rs i enc) w'' = (Ok (configId q), w'')"
    by blast
  then show ?thesis
    by (intro exI [of _ q] exI [of _ w'])
      (simp add: getOrCreateHttpFilterFactory_def configCache_Load_def)
qed

theorem stream_gets_merged_config_witness:
  "\<exists>q w'. make_req (with_config ex_serialize ex_code (\<lambda>i. 1) (\<lambda>i enc. [Some ex_route]) ex_host) 5 False
      ex_cfg_world = (Ok (), w') \<and> creqs (cside w') 7 = Some q \<and>
    getOrCreateHttpFilterFactory ex_cfg_plugin (configId q) w' =
      httpFilterConfigFactory ex_cfg_plugin (Some ''ar'') w'"
proof -
  have routes: "routes_ok any_value (@) (\<lambda>_. ''a'') ex_cfg_world (ex_fc ''a'') [Some ex_route]"
    by (simp add: routes_ok_def ex_route_def route_value_def)
  have conf: "stream_config any_value (@) ex_cfg_world (ex_fc ''a'') [Some ex_route] = ''ar''"
    by (simp add: stream_config_def effective_config_def ex_route_def route_value_def
        RoutePluginConfig_new_def ex_any_def)
  from stream_gets_merged_config [OF ex_pure_plugin, where w = ex_cfg_world and i = 5 and F = Filter_new
      and conf = "\<lambda>i. 1" and fc = "ex_fc ''a''" and K = ex_code and par = "\<lambda>_. ''a''"
      and rs = "\<lambda>i enc. [Some ex_route]" and enc = False and H = ex_host] routes
  show ?thesis
    unfolding conf by (force simp: ex_config_lib ex_configs_ok Filter_new_def ex_host_def)
qed

text \<open>
  C24: The identifier of a merged route configuration is kept whatever it was merged into: when two
  filters with configurations of their own share a route configuration, the second gets the
  configuration of the first merged with the route's, not its own.
\<close>

theorem route_config_keeps_first_parent:
  assumes "pure_plugin serialize unmarshal P v merge"
    and "filterConfigs (cside w) p1 = Some fc1" "filterConfigs (cside w) p2 = Some fc2"
    and "plugin_name fc2 = plugin_name fc1" "so_id fc2 = so_id fc1"
    and "config_lib K P unmarshal (so_id fc1) w" "configs_ok v merge par w"
    and "map_of (plugins_config r) (plugin_name fc1) = Some q" "routePlugins (cside w) q = Some rc"
    and "par q = v (plugin_config fc1)" "unat (configNumGenerator w) + 4 < 2 ^ 64"
  shows "\<exists>m w1 w2. Filter_getMergedConfigId serialize K p1 [Some r] w = (Ok m, w1) \<and>
    Filter_getMergedConfigId serialize K p2 [Some r] w1 = (Ok m, w2) \<and>
    getOrCreateHttpFilterFactory P m w2 =
      httpFilterConfigFactory P (Some (merge (v (plugin_config fc1)) (v (route_plugin_config rc)))) w2 \<and>
    stream_config v merge w fc2 [Some r] =
      merge (v (plugin_config fc2)) (v (route_plugin_config rc))"
proof -
  obtain m w1 w2 where "Filter_getMergedConfigId serialize K p1 [Some r] w = (Ok m, w1)"
    "Filter_getMergedConfigId serialize K p2 [Some r] w1 = (Ok m, w2)"
    "configCache w2 m = Some (merge (v (plugin_config fc1)) (v (route_plugin_config rc)))"
    by (rule shared_route_config [OF assms])
  then show ?thesis
    using assms(4,8,9) by (intro exI [of _ m] exI [of _ w1] exI [of _ w2])
      (simp add: getOrCreateHttpFilterFactory_def configCache_Load_def stream_config_def
        effective_config_def route_value_def)
qed

theorem route_config_keeps_first_parent_witness:
  "\<exists>m w1 w2. Filter_getMergedConfigId ex_serialize ex_code 1 [Some ex_route] ex_cfg_world = (Ok m, w1) \<and>
    Filter_getMergedConfigId ex_serialize ex_code 2 [Some ex_route] w1 = (Ok m, w2) \<and>
    getOrCreateHttpFilterFactory ex_cfg_plugin m w2 =
      httpFilterConfigFactory ex_cfg_plugin (Some ''ar'') w2 \<and>
    stream_config any_value (@) ex_cfg_world (ex_fc ''b'') [Some ex_route] = ''br''"
  using route_config_keeps_first_parent [OF ex_pure_plugin, where w = ex_cfg_world and ?p1.0 = 1
      and ?fc1.0 = "ex_fc ''a''" and ?p2.0 = 2 and ?fc2.0 = "ex_fc ''b''" and K = ex_code
      and par = "\<lambda>_. ''a''" and r = ex_route and q = 3 and rc = "RoutePluginConfig_new (ex_any ''r'')"]
  by (force simp: ex_config_lib ex_configs_ok ex_route_def RoutePluginConfig_new_def ex_any_def)

text \<open>
  C25: The library of a filter is complete: after the bootstrap extensions have run and libraries were
  published and unpublished in any order, the library that a new filter is made with has all six
  functions, so no assertion of \<^verbatim>\<open>dso.cc\<close> fails and the filter calls Go as \<open>with_plugin\<close> says. Of the
  extensions that use one identifier, the first whose library can be loaded is the one that counts.
\<close>

theorem published_library_is_complete:
  assumes "dsos c = run_dso L ops (run_bootstrap L cs [])" "filterConfigs c p = Some fc"
    and "FilterFactoryCb p i c = (Ok (Some d), c')" "exports K d C P unmarshal"
  shows "with_library K (Some d) H = with_plugin C P H \<and>
    DsoInstance_moeOnHttpSemaCallback K d = moeOnHttpSemaCallback C \<and>
    config_lib K P unmarshal (so_id fc) (w\<lparr>cside := c'\<rparr>) \<and>
    (ops = [] \<longrightarrow> (\<exists>x. find (\<lambda>x. cfg_so_id x = so_id fc \<and> resolves L (cfg_so_path x)) cs = Some x \<and>
       d = DsoInstance_new L (cfg_so_path x)))"
proof -
  have pub: "published L (dsos c)"
    using published_bootstrap [OF published_Nil] published_run by (simp add: assms(1))
  have d: "getDsoInstanceByID (so_id fc) (dsos c) = Some d"
    using assms(2,3) by (auto simp: FilterFactoryCb_def)
  then have "linked L d" "resolves L (dsoName d)" using pub by (auto simp: published_def)
  note sema = exports_with_library(4) [OF assms(4) this]
  have "\<exists>x. find (\<lambda>x. cfg_so_id x = so_id fc \<and> resolves L (cfg_so_path x)) cs = Some x \<and>
      d = DsoInstance_new L (cfg_so_path x)" if "ops = []"
    using d that unfolding assms(1) run_dso_Nil [OF that] run_bootstrap_lookup
    by (auto simp: getDsoInstanceByID_def)
  then show ?thesis
    using published_filter(1) [OF pub assms(2-4), of H] sema
      published_filter(2) [OF pub assms(2-4), of "w\<lparr>cside := c'\<rparr>"] by simp
qed

theorem published_library_is_complete_witness:
  "with_library ex_code (Some (DsoInstance_new ex_linker ''lib'')) ex_host =
   with_plugin (httpCApiImpl ex_env) (ex_cfg_plugin :: (ex_state, string) plugin) ex_host"
  using published_library_is_complete [of "cside ex_cfg_world" ex_linker "[]" ex_extensions 1 "ex_fc ''a''"
      6 "DsoInstance_new ex_linker ''lib''" "put_filter 6 Filter_new (cside ex_cfg_world)" ex_code
      "httpCApiImpl ex_env" ex_cfg_plugin id ex_host ex_cfg_world]
  by (simp add: FilterFactoryCb_def ex_published ex_exports)

text \<open>
  C26: A filter made while its library is not published is transparent: whatever callbacks Envoy makes on
  it, in whatever order, each of them goes on with the data it was given, and Go is not called. Only the
  filter itself changes, and the stream's metadata: with each end of the stream it is told of, the filter
  still writes its three times there, which are 0.
\<close>

theorem filter_without_library_is_transparent:
  assumes "filterConfigs (cside w) p = Some fc" "getDsoInstanceByID (so_id fc) (dsos (cside w)) = None"
  shows "\<exists>c' G. FilterFactoryCb p i (cside w) = (Ok None, c') \<and>
    run_callbacks E number (with_library K None H) i xs (w\<lparr>cside := c'\<rparr>) =
      (Ok (map untouched xs), at i G (with_notes E number i xs w))"
proof -
  have "\<not> has_dynamicLib (with_library K None H)" by (simp add: with_library_def)
  then obtain G where "run_callbacks E number (with_library K None H) i xs (at i Filter_new w) =
      (Ok (map untouched xs), at i G (with_notes E number i xs w))"
    using callbacks_without_library by blast
  then show ?thesis using assms by (auto simp: FilterFactoryCb_def at_def)
qed

theorem filter_without_library_is_transparent_witness:
  "\<exists>c' G. FilterFactoryCb 1 6 (cside (ex_cfg_world\<lparr>cside := ex_cfg_cside []\<rparr>)) = (Ok None, c') \<and>
    run_callbacks ex_env (\<lambda>_. ''0'') (with_library ex_code None ex_host) 6
      [CbDecodeHeaders 0 False, CbDecodeData ''x'' True, CbEncodeHeaders 0 True, CbStreamComplete, CbDestroy]
      ((ex_cfg_world\<lparr>cside := ex_cfg_cside []\<rparr>)\<lparr>cside := c'\<rparr>) =
    (Ok [(True, None), (True, Some ''x''), (True, None), (True, None), (True, None)],
     at 6 G (no_costs ex_env (\<lambda>_. ''0'') 6 (ex_cfg_world\<lparr>cside := ex_cfg_cside []\<rparr>)))"
  using filter_without_library_is_transparent [of "ex_cfg_world\<lparr>cside := ex_cfg_cside []\<rparr>" 1 "ex_fc ''a''"
      6 ex_env "\<lambda>_. ''0''" ex_code ex_host "[CbDecodeHeaders 0 False, CbDecodeData ''x'' True,
        CbEncodeHeaders 0 True, CbStreamComplete, CbDestroy]"]
  by (simp add: ex_cfg_cside_def getDsoInstanceByID_def with_notes_def)

section \<open>Numbers\<close>

text \<open>
  C27: What \<open>WriteUint64\<close> appends to a body is the decimal text of the number: reading it back
  gives the number.
\<close>

theorem written_number_reads_back:
  assumes "buffer_laws E" "httpBuffers w h = Some o'"
    and "buffer_view w (buf_request o') (envoyBufferInstance o') = Ok b"
    and "length (bi_bytes E b) < 2 ^ 64"
  shows "\<exists>w' b'. httpBuffer_WriteUint64 (httpCApiImpl E) h n w = (Ok (), w') \<and>
    buffer_view w' (buf_request o') (envoyBufferInstance o') = Ok b' \<and>
    take (length (bi_bytes E b)) (bi_bytes E b') = bi_bytes E b \<and>
    ParseUint 0 (drop (length (bi_bytes E b)) (bi_bytes E b')) = Inr (unat n)"
proof -
  let ?s = "FormatUint (unat n)"
  let ?b = "apply_action E (c_action AppendBuffer) ?s b"
  let ?w = "put_buffer (buf_request o') (envoyBufferInstance o') ?b w"
  have n: "unat n < 2 ^ 64" using unsigned_less [of n] by simp
  have len: "length ?s < 2 ^ 31"
  proof -
    have "length ?s \<le> 20" by (rule length_FormatUint) (use n in simp_all)
    then show ?thesis by simp
  qed
  have "buffer_helper (httpCApiImpl E) h ?s AppendBuffer w = (Ok (), ?w)"
    by (rule bufs.helper_step [OF assms(2,3) len])
  then have "httpBuffer_WriteUint64 (httpCApiImpl E) h n w = (Ok (), ?w)"
    by (simp add: httpBuffer_WriteUint64_def httpBuffer_WriteString_def)
  moreover have "bi_bytes E ?b = bi_bytes E b @ ?s"
    using bufs.apply_action_bytes [OF assms(1,4), of AppendBuffer ?s] by simp
  moreover have "buffer_view ?w (buf_request o') (envoyBufferInstance o') = Ok ?b"
    by (rule bufs.view_put [OF assms(3)])
  ultimately show ?thesis using ParseUint_FormatUint [OF n] by simp
qed

theorem written_number_reads_back_witness:
  "\<exists>w' b'. httpBuffer_WriteUint64 (httpCApiImpl ex_env) 3 42
      (ex_world ProcessingData [(100, ''abc'')] [] None) = (Ok (), w') \<and>
    buffer_view w' 4 100 = Ok b' \<and> ParseUint 0 (drop 3 (bi_bytes ex_env b')) = Inr 42"
  using written_number_reads_back [of ex_env "ex_world ProcessingData [(100, ''abc'')] [] None" 3
      "\<lparr>buf_request = 4, envoyBufferInstance = 100, buf_length = 3, buf_value = []\<rparr>" "''abc''" 42]
  by (auto simp: ex_buffer_laws buffer_view_def ex_gate find_buffer_def numeral_3_eq_3)

section \<open>Local replies\<close>

text \<open>
  C28: A local reply that comes while Go has the request is held back without a call of Go or Envoy.
  Whatever status Go then continues the request with is ignored: the headers of the reply are given
  to the filter, and when it lets them pass they go on and the stream is a response from there.
\<close>

theorem local_reply_waits_for_go:
  assumes "no_watermark H" "filters (cside w) i = Some F" "\<not> has_destroyed F" "\<not> enter_encoding F"
    and "isProcessingInGo (decoding_state F)" "filter_req F = Some r" "local_trailers F = None"
    and "fstate (encoding_state F) = WaitingHeader" "isBufferDataEmpty E (encoding_state F)"
    and "\<not> seen_trailers (encoding_state F)" "creqs (cside w) r = Some cq" "serves w r rq q f"
    and "\<And>hp e. EncodeHeaders (http_filter P f) hp e = go_return Continue"
    and "\<And>enc. react H (ContinueCall enc) = go_return ()"
  shows "\<exists>w1. encodeHeaders E (with_plugin C P H) i h e w = (Ok False, w1) \<and>
    envoy_calls (cside w1) = envoy_calls (cside w) \<and>
    (\<forall>st. \<exists>w2 F2. run_closure E (with_plugin C P H) i (PostContinue st) w1 = (Ok (), w2) \<and>
      envoy_calls (cside w2) = envoy_calls (cside w) @ [ContinueCall True] \<and>
      filters (cside w2) i = Some F2 \<and> enter_encoding F2 \<and> \<not> local_reply_waiting_go F2 \<and>
      fstate (encoding_state F2) = (if e then Done else WaitingData))"
proof -
  have held: "encodeHeaders E (with_plugin C P H) i h e (at i F w) =
      (Ok False, at i (reply_waits E h e F) w)"
    by (rule reply_kept) (use assms in \<open>simp_all add: side_cases\<close>)
  have sent: "\<exists>w2 F2. run_closure E (with_plugin C P H) i (PostContinue st)
        (at i (reply_waits E h e F) w) = (Ok (), w2) \<and>
      envoy_calls (cside w2) = envoy_calls (cside w) @ [ContinueCall True] \<and>
      filters (cside w2) i = Some F2 \<and> enter_encoding F2 \<and> \<not> local_reply_waiting_go F2 \<and>
      fstate (side True F2) = (if e then Done else WaitingData)" for st
    by (rule reply_sent [where cq = cq and rq = rq and q = q and f = f and r = r])
      (use assms in \<open>simp_all add: side_cases\<close>)
  show ?thesis
    using held sent at_self [OF assms(2)]
    by (intro exI [of _ "at i (reply_waits E h e F) w"]) (simp add: side_cases)
qed

theorem local_reply_waits_for_go_witness:
  "\<exists>w1. encodeHeaders ex_env (with_plugin (httpCApiImpl ex_env) default_plugin ex_host) 5 1 True
      (ex_world ProcessingHeader [] [] None) = (Ok False, w1) \<and>
    (\<forall>st. \<exists>w2. run_closure ex_env (with_plugin (httpCApiImpl ex_env) default_plugin ex_host) 5
      (PostContinue st) w1 = (Ok (), w2) \<and> envoy_calls (cside w2) = [ContinueCall True])"
proof -
  let ?w = "ex_world ProcessingHeader [] [] None"
  have calls: "envoy_calls (cside ?w) = []" by (simp add: ex_cside_def)
  have "serves ?w 7 4 ex_request 4" by (simp add: serves_def)
  from local_reply_waits_for_go [OF ex_host_quiet(1), where w = ?w and i = 5 and P = default_plugin
      and F = "ex_filter ProcessingHeader []" and E = ex_env and r = 7 and C = "httpCApiImpl ex_env"
      and h = 1 and e = True, OF _ _ _ _ _ _ _ _ _ _ this]
  show ?thesis unfolding calls
    by (force simp: ex_filter_def Filter_new_def ProcessorState_new_def isProcessingInGo_def
        isBufferDataEmpty_def default_plugin_def passThroughFilter_def ex_host_def)
qed

section \<open>Dynamic metadata\<close>

text \<open>
  C29: A goroutine that reads dynamic metadata while its filter is in Go gets the bytes the stream
  has for the filter name, or nothing when there are none, once the worker thread has run the
  closure; the wait group is back where it was and the mutex is free.
\<close>

theorem async_read_completes:
  assumes "api_gate w r = Ok (i, F)" "filter_req F = Some k" "Requests w k = Some r"
    and "httpRequests w r = Some q" "req q = k" "sema q = 0" "posted (cside w) = []"
  shows "\<exists>w'. (meta_step E P)\<^sup>*\<^sup>*
      \<lparr>mw = w, mutex = Map.empty, pcs = [g \<mapsto> dynamicMetadata_Get r name]\<rparr>
      \<lparr>mw = w', mutex = Map.empty, pcs = [g \<mapsto> MetaDone (Ok (case dyn_meta (cside w) i name of
         None \<Rightarrow> None | Some s \<Rightarrow> if s = [] then None else Some s))]\<rparr> \<and>
      map_option sema (httpRequests w' r) = Some 0"
proof -
  let ?s = "\<lparr>mw = w, mutex = Map.empty, pcs = [g \<mapsto> MetaAdd r name]\<rparr>"
  let ?w1 = "upd_request r (sema_update (\<lambda>n. n + 1)) w"
  have start: "dynamicMetadata_Get r name = MetaAdd r name" by (simp add: dynamicMetadata_Get_def)
  obtain cq where cq: "creqs (cside w) k = Some cq"
    and F: "filters (cside w) i = Some F" "\<not> has_destroyed F"
    using assms(1,4,5) by (auto elim: gate_openE)
  let ?w2 = "upd_request r (sema_update (\<lambda>n. n - 1))
    (?w1\<lparr>cside := given k i name g cq (cside ?w1)\<rparr>)"
  let ?s1 = "waiting k i r name g cq ?s"
  have "(meta_step E P)\<^sup>*\<^sup>* ?s ?s1"
    by (rule read_waits [where F = F]) (simp_all add: assms cq)
  moreover have posted: "posted (cside (yielded k i name g cq ?w1)) = [(i, PostGetMetadata name g)]"
    "run_posted E i (PostGetMetadata name g) (pop_posted (yielded k i name g cq ?w1)) = (Ok (), ?w2)"
    using read_posted [of ?w1 i F k r "q\<lparr>sema := 1\<rparr>"] assms F by simp_all
  then have "meta_step E P ?s1 (?s1\<lparr>mw := ?w2\<rparr>)"
    by (intro StepPosted) (simp_all add: waiting_def)
  moreover have q2: "httpRequests ?w2 r = Some q" using assms by simp
  have "meta_step E P (?s1\<lparr>mw := ?w2\<rparr>)
      \<lparr>mw = ?w2, mutex = Map.empty, pcs = [g \<mapsto> MetaDone (Ok (case dyn_meta (cside w) i name of
         None \<Rightarrow> None | Some s \<Rightarrow> if s = [] then None else Some s))]\<rparr>"
    using StepResume [of "?s1\<lparr>mw := ?w2\<rparr>" g r q] q2 assms
    by (simp add: waiting_def meta_bytes_def given_frame split: option.split)
  ultimately have "(meta_step E P)\<^sup>*\<^sup>* ?s
      \<lparr>mw = ?w2, mutex = Map.empty, pcs = [g \<mapsto> MetaDone (Ok (case dyn_meta (cside w) i name of
         None \<Rightarrow> None | Some s \<Rightarrow> if s = [] then None else Some s))]\<rparr>"
    by (meson rtranclp.rtrancl_into_rtrancl)
  moreover have "map_option sema (httpRequests ?w2 r) = Some 0"
    by (subst q2) (simp add: assms)
  ultimately show ?thesis unfolding start by blast
qed

theorem async_read_completes_witness:
  "\<exists>w'. (meta_step ex_env default_plugin)\<^sup>*\<^sup>*
      \<lparr>mw = ex_meta, mutex = Map.empty, pcs = [11 \<mapsto> dynamicMetadata_Get 4 ''f'']\<rparr>
      \<lparr>mw = w', mutex = Map.empty, pcs = [11 \<mapsto> MetaDone (Ok (Some ''bytes''))]\<rparr> \<and>
      map_option sema (httpRequests w' 4) = Some 0"
  using async_read_completes [of ex_meta 4 5 "ex_filter ProcessingHeader []" 7
      "\<lparr>req = 7, httpFilter = Some 4, paniced = False,
        safePanic = False, sema = 0, finalizer = True\<rparr>" ex_env
      default_plugin 11 "''f''"]
  by (simp add: ex_meta_gate)

text \<open>
  C30: Two goroutines that read the metadata of one request at the same time can block for ever: the
  second counts the wait group up before it takes the mutex the first holds while it waits, the
  closure counts it down once, and from then on nothing wakes either, not the worker thread, not
  the end of the stream.
\<close>

theorem concurrent_reads_deadlock:
  assumes "api_gate w r = Ok (i, F)" "filter_req F = Some k" "Requests w k = Some r"
    and "httpRequests w r = Some q" "req q = k" "sema q = 0" "posted (cside w) = []"
    and "\<forall>k'. Requests w k' = Some r \<longrightarrow> k' = k" "quiet_plugin P" "g1 \<noteq> g2"
  shows "\<exists>s. (meta_step E P)\<^sup>*\<^sup>*
      \<lparr>mw = w, mutex = Map.empty, pcs = [g1 \<mapsto> MetaAdd r name1, g2 \<mapsto> MetaAdd r name2]\<rparr> s \<and>
    (\<forall>s'. (meta_step E P)\<^sup>*\<^sup>* s s' \<longrightarrow> pcs s' = [g1 \<mapsto> MetaWait r, g2 \<mapsto> MetaLock r name2])"
proof -
  let ?s = "\<lparr>mw = w, mutex = Map.empty, pcs = [g1 \<mapsto> MetaAdd r name1, g2 \<mapsto> MetaAdd r name2]\<rparr>"
  let ?inc = "upd_request r (sema_update (\<lambda>n. n + 1))"
  obtain cq where cq: "creqs (cside w) k = Some cq"
    and F: "filters (cside w) i = Some F" "\<not> has_destroyed F"
    using assms(1,4,5) by (auto elim: gate_openE)
  let ?s1 = "waiting k i r name1 g1 cq ?s"
  let ?w2 = "?inc (yielded k i name1 g1 cq (?inc w))"
  let ?s2 = "?s1\<lparr>mw := ?w2, pcs := (pcs ?s1)(g2 \<mapsto> MetaLock r name2)\<rparr>"
  let ?w3 = "upd_request r (sema_update (\<lambda>n. n - 1))
    ((?inc (?inc w))\<lparr>cside := given k i name1 g1 cq (cside w)\<rparr>)"
  have "(meta_step E P)\<^sup>*\<^sup>* ?s ?s1"
    by (rule read_waits [where F = F]) (simp_all add: assms cq)
  moreover have "meta_step E P ?s1 ?s2"
    by (rule StepAdd) (simp_all add: waiting_def sema_Add_apply yielded_def assms assms(10) [symmetric])
  moreover have y2: "?w2 = yielded k i name1 g1 cq (?inc (?inc w))"
    by (simp add: upd_request_def yielded_def)
  have "posted (cside ?w2) = [(i, PostGetMetadata name1 g1)]"
    "run_posted E i (PostGetMetadata name1 g1) (pop_posted ?w2) = (Ok (), ?w3)"
    unfolding y2 using read_posted [of "?inc (?inc w)" i F k r "q\<lparr>sema := 2\<rparr>"] assms(2-7) F
    by simp_all
  then have "meta_step E P ?s2 (?s2\<lparr>mw := ?w3\<rparr>)"
    by (intro StepPosted) simp_all
  ultimately have run: "(meta_step E P)\<^sup>*\<^sup>* ?s (?s2\<lparr>mw := ?w3\<rparr>)" by simp
  have "both_wait k r g1 g2 name2 (?s2\<lparr>mw := ?w3\<rparr>)"
    unfolding both_wait_def unwoken_def
    using assms(4,6,7,10) spec [OF assms(8)] by (simp add: waiting_def given_frame fun_upd_twist)
  from both_wait_steps [OF assms(9) _ this] run show ?thesis
    by (intro exI [of _ "?s2\<lparr>mw := ?w3\<rparr>"]) (auto simp: both_wait_def)
qed

theorem concurrent_reads_deadlock_witness:
  "\<exists>s. (meta_step ex_env default_plugin)\<^sup>*\<^sup>*
      \<lparr>mw = ex_meta, mutex = Map.empty, pcs = [11 \<mapsto> MetaAdd 4 ''f'', 12 \<mapsto> MetaAdd 4 ''g'']\<rparr> s \<and>
    (\<forall>s'. (meta_step ex_env default_plugin)\<^sup>*\<^sup>* s s' \<longrightarrow>
       pcs s' = [11 \<mapsto> MetaWait 4, 12 \<mapsto> MetaLock 4 ''g''])"
  by (rule concurrent_reads_deadlock [of ex_meta 4 5 "ex_filter ProcessingHeader []" 7
      "\<lparr>req = 7, httpFilter = Some 4, paniced = False,
        safePanic = False, sema = 0, finalizer = True\<rparr>"
      default_plugin 11 12 ex_env "''f''" "''g''"])
    (simp_all add: ex_meta_gate quiet_default)

section \<open>The buffered adapter\<close>

text \<open>
  C31: Whatever headers, buffers and trailers a message has, the buffered adapter keeps every part
  back with \<open>StopAndBuffer\<close> and answers the last one with \<open>Running\<close>; it starts one goroutine, which gets
  the headers, the buffer of the last data callback only, and the trailers, and touches nothing of the
  library. Both for requests and for responses. The last buffer is the whole body where Envoy has kept
  the earlier data and puts it in front, which is the subject of C34.
\<close>

theorem buffered_message_runs_once:
  assumes "buffered_objs w bf = Some o'" "reqData o' = None" "rspData o' = None"
  shows "(\<exists>w1. feed (decode_part bf) (message h ds t) w =
      (Ok (replicate (length (message h ds t) - 1) StopAndBuffer @ [Running]), w1) \<and>
    goroutines (ustate w1) = goroutines (ustate w) @ [RunDecode bf (Some h) (last_data ds) t] \<and>
    same_library w w1) \<and>
   (\<exists>w1. feed (encode_part bf) (message h ds t) w =
      (Ok (replicate (length (message h ds t) - 1) StopAndBuffer @ [Running]), w1) \<and>
    goroutines (ustate w1) = goroutines (ustate w) @ [RunEncode bf (Some h) (last_data ds) t] \<and>
    same_library w w1)"
  using dec.message_once [where w = w and bf = bf and h = h and ds = ds and t = t]
    enc.message_once [where w = w and bf = bf and h = h and ds = ds and t = t] assms
  by simp

theorem buffered_message_runs_once_witness:
  "\<exists>w1. feed (decode_part 4) (message 2 [3] (Some 9)) (ex_buffered 1) =
      (Ok [StopAndBuffer, StopAndBuffer, Running], w1) \<and>
    goroutines (ustate w1) = [RunDecode 4 (Some 2) (Some 3) (Some 9)]"
  using buffered_message_runs_once [of "ex_buffered 1" 4 ex_buf 2 "[3]" "Some 9"]
  by (auto simp: ex_buf_def message_def last_data_def)

text \<open>
  C32: How a goroutine of the adapter ends: a filter that returned is followed by one \<open>Continue\<close> if
  the stream is still in Go, by nothing if it is gone, by the mark for the next callback if Go does
  not own it; a filter that panicked is answered with one reply of status 500 and no \<open>Continue\<close>.
\<close>

theorem buffered_goroutine_outcome:
  assumes "buffered_objs w (goroutine_filter t) = Some o'" "bf_filter o' = Some f"
    and "bf_callbacks o' = rq" "goroutine_call U f t w = (x, w1)"
    and "httpRequests w1 rq = Some q" "\<not> safePanic q" "creqs (cside w1) (req q) \<noteq> None"
  shows "(x = Ok () \<longrightarrow> api_gate w1 rq = Ok (i, F) \<longrightarrow>
      run_goroutine (httpCApiImpl E) U t w = (Ok (), post_event rq continue_event w1)) \<and>
    (x = Ok () \<longrightarrow> api_gate w1 rq = Panic p \<longrightarrow>
      run_goroutine (httpCApiImpl E) U t w = (Ok (), if p = PanicString ErrNotInGo
        then upd_request rq (paniced_update (\<lambda>_. True)) w1 else w1)) \<and>
    (x = Panic p \<longrightarrow> \<not> api_error p \<longrightarrow> api_gate w1 rq = Ok (i, F) \<longrightarrow>
      run_goroutine (httpCApiImpl E) U t w = (Ok (), answered rq w1))"
  using assms run_goroutine_eq [OF assms(1,2), of "httpCApiImpl E" U]
    run_buffered_Ok [of "goroutine_call U f t" w w1 o' q E]
    run_buffered_panic [of "goroutine_call U f t" w p w1 o' q i F E]
  by simp_all

theorem buffered_goroutine_outcome_witness:
  "run_goroutine (httpCApiImpl ex_env) (sample_buffered (httpCApiImpl ex_env))
      (RunDecode 4 (Some 2) None None) (ex_buffered 1) =
    (Ok (), post_event 4 continue_event (ex_buffered 1))"
  using buffered_goroutine_outcome [of "ex_buffered 1" "RunDecode 4 (Some 2) None None" ex_buf 4 4
      "sample_buffered (httpCApiImpl ex_env)" "Ok ()" "ex_buffered 1"
      "\<lparr>req = 7, httpFilter = Some 4, paniced = False, safePanic = False, sema = 0,
        finalizer = True\<rparr>" 5 "ex_filter ProcessingData [(100, ''abc'')]" ex_env]
  by (simp add: ex_buf_def sample_buffered_def sample_Decode_def ex_buffered_gate)

text \<open>
  C33: The sample filter of \<^verbatim>\<open>samples/buffered\<close> never changes a body. The last data of a response makes
  the adapter start its goroutine, which panics in \<open>Drain\<close>, a method that is not implemented, whatever
  the body is; the panic is recovered, and the response is replaced by a reply of status 500.
\<close>

theorem sample_filter_answers_500:
  assumes "creqs (cside w) r = Some cq" "phase cq = EncodeDataPhase" "Requests w r = Some rq"
    and "httpRequests w rq = Some q" "\<not> paniced q" "\<not> safePanic q" "httpFilter q = Some bf"
    and "buffered_objs w bf = Some o'" "bf_callbacks o' = rq" "bf_filter o' = Some f"
    and "api_gate w rq = Ok (i, F)"
  shows "\<exists>w1 t. moeOnHttpData C (buffered_plugin (sample_buffered C)) r 1 a len w =
      (Ok (status_to_u64 Running), w1) \<and>
    goroutines (ustate w1) = goroutines (ustate w) @ [t] \<and>
    run_goroutine (httpCApiImpl E) (sample_buffered (httpCApiImpl E)) t w1 = (Ok (), answered rq w1) \<and>
    posted (cside (answered rq w1)) =
      posted (cside w1) @ [(i, PostLocalReply 500 panic_reply_body 0 [])]"
proof -
  let ?b = "\<lparr>buf_request = rq, envoyBufferInstance = a, buf_length = len, buf_value = []\<rparr>"
  let ?t = "RunEncode bf (rspHeader o') (Some (next_ptr w)) None"
  let ?w1 = "(snd (new_httpBuffer ?b w))\<lparr>ustate := (ustate w)
    \<lparr>goroutines := goroutines (ustate w) @ [?t]\<rparr>\<rparr>"
  have "moeOnHttpData C (buffered_plugin (sample_buffered C)) r 1 a len w =
      (Ok (status_to_u64 Running), ?w1)"
    using assms(1-10)
    by (simp add: moeOnHttpData_def getRequest_def GetReq_def filter_of_def buffered_plugin_def
        bufferedFilter_methods_def bufferedFilter_EncodeData_def runEncode_def new_httpBuffer_def
        buffered_objs_def)
  moreover have "api_gate ?w1 rq = api_gate w rq"
    by (rule api_gate_cong) (simp_all add: new_httpBuffer_def)
  then have gate: "api_gate ?w1 rq = Ok (i, F)" using assms(11) by simp
  moreover have "run_goroutine (httpCApiImpl E) (sample_buffered (httpCApiImpl E)) ?t ?w1 =
      (Ok (), answered rq ?w1)"
  proof -
    have "httpBuffers ?w1 (next_ptr w) = Some ?b" by (simp add: new_httpBuffer_def)
    then have "run_buffered (httpCApiImpl E) o' (sample_Encode (httpCApiImpl E) (rspHeader o')
        (Some (next_ptr w)) None) ?w1 = (Ok (), answered (bf_callbacks o') ?w1)"
      using gate assms(4,6,9) by (intro run_buffered_panic [OF sample_Encode_body])
        (simp_all add: new_httpBuffer_def implement_me_answered)
    then show ?thesis
      using assms(8-10) by (subst run_goroutine_eq [of _ _ o' f])
        (simp_all add: sample_buffered_def new_httpBuffer_def buffered_objs_def)
  qed
  ultimately show ?thesis
    by (intro exI [of _ ?w1] exI [of _ ?t]) (simp add: answered_posted [OF gate])
qed

theorem sample_filter_answers_500_witness:
  "\<exists>w1 t. moeOnHttpData (httpCApiImpl ex_env) (buffered_plugin (sample_buffered (httpCApiImpl ex_env)))
      7 1 100 3 (ex_buffered 5) = (Ok (status_to_u64 Running), w1) \<and>
    goroutines (ustate w1) = [t] \<and>
    run_goroutine (httpCApiImpl ex_env) (sample_buffered (httpCApiImpl ex_env)) t w1 =
      (Ok (), answered 4 w1) \<and>
    posted (cside (answered 4 w1)) = posted (cside w1) @ [(5, PostLocalReply 500 panic_reply_body 0 [])]"
  using sample_filter_answers_500 [of "ex_buffered 5" 7 "(httpRequestInternal_new 5)\<lparr>phase := 5\<rparr>" 4
      "\<lparr>req = 7, httpFilter = Some 4, paniced = False, safePanic = False, sema = 0, finalizer = True\<rparr>"
      4 ex_buf 4 5 "ex_filter ProcessingData [(100, ''abc'')]" "httpCApiImpl ex_env" 100 3 ex_env]
  by (simp add: ex_buf_def ex_buffered_gate)

section \<open>The flow of a stream\<close>

text \<open>
  C34: For a filter that only reads, buffering is equivalent to streaming: whatever buffers a response
  has, the rest of the chain gets the same bytes. Passing through, every buffer goes on at once; with
  the adapter nothing goes on until its goroutine has run and the closure that it posts injects the
  whole body as one buffer that ends the stream.
\<close>

theorem buffering_equals_streaming:
  assumes laws: "buffer_laws E" "no_watermark H" "takes_data H"
    and F: "filters (cside w) i = Some F" "\<not> enter_encoding F" "filter_req F = Some r"
      "\<not> local_reply_waiting_go F" "fstate (side False F) = Done"
      "fstate (side True F) = WaitingHeader" "kept_bytes E (side True F) = []"
      "queue (doDataList (side True F)) = []" "\<not> seen_trailers (side True F)" "\<not> has_destroyed F"
    and w: "creqs (cside w) r = Some cq" "serves w r rq q bf" "buffered_objs w bf = Some o'"
      "weakFilter cq = i"
    and user: "only_reads U f" "bf_filter o' = Some f" "bf_callbacks o' = rq"
    and len: "length (concat (map (bi_bytes E) ds)) < 2 ^ 64"
  shows "\<exists>rs v rs' w1 t w2 w3 calls.
    encode_response E (with_plugin C default_plugin H) i h (body_of ds d) w = (Ok (True, rs), v) \<and>
    envoy_calls (cside v) = envoy_calls (cside w) \<and>
    encode_response E (with_plugin C (buffered_plugin U) H) i h (body_of ds d) w = (Ok (False, rs'), w1) \<and>
    chain_gets E rs' [] = [] \<and> goroutines (ustate w1) = goroutines (ustate w) @ [t] \<and>
    run_goroutine (httpCApiImpl E) U t w1 = (Ok (), w2) \<and>
    posted (cside w2) = posted (cside w) @ [(i, continue_event)] \<and>
    run_closure E (with_plugin C (buffered_plugin U) H) i continue_event w2 = (Ok (), w3) \<and>
    envoy_calls (cside w3) = envoy_calls (cside w) @ calls \<and> length calls = 1 \<and>
    chain_gets E rs' calls = concat (map (bi_bytes E) (ds @ [d])) \<and>
    chain_gets E rs' calls = chain_gets E rs []"
proof -
  have "isBufferDataEmpty E (side True F)"
    using isBufferDataEmpty_kept [OF laws(1), of "side True F"] F(7) by simp
  from pass_response [OF laws(1) F(1,2,3,5,6) this F(4,8,9) w(1,2), of C H h ds d]
  obtain rs G v where pass: "encode_response E (with_plugin C default_plugin H) i h (body_of ds d) w =
      (Ok (True, rs), at i G v)" "left_alone r cq w v"
    and bytes: "chain_gets E rs [] = concat (map (bi_bytes E) (ds @ [d]))"
    using chain_gets_passed by blast
  have calls: "envoy_calls (cside (at i G v)) = envoy_calls (cside w)"
    using pass(2) by (simp add: left_alone_def)
  from buffered_body_returns [OF laws F w user len, of C h d]
  obtain rs' w1 t w2 w3 b where run:
      "encode_response E (with_plugin C (buffered_plugin U) H) i h (body_of ds d) w = (Ok (False, rs'), w1)"
      "goroutines (ustate w1) = goroutines (ustate w) @ [t]"
      "run_goroutine (httpCApiImpl E) U t w1 = (Ok (), w2)"
      "posted (cside w2) = posted (cside w) @ [(i, continue_event)]"
      "run_closure E (with_plugin C (buffered_plugin U) H) i continue_event w2 = (Ok (), w3)"
      "envoy_calls (cside w3) = envoy_calls (cside w) @ [InjectCall True b True]"
    and stopped: "map fst rs' = replicate (Suc (length ds)) False"
    and b: "bi_bytes E b = concat (map (bi_bytes E) (ds @ [d]))" by blast
  have "chain_gets E rs' [] = []" "chain_gets E rs' [InjectCall True b True] = bi_bytes E b"
    unfolding chain_gets_stopped [OF stopped] by simp_all
  then show ?thesis using pass(1) calls run b bytes
    by (intro exI [of _ rs] exI [of _ "at i G v"] exI [of _ rs'] exI [of _ w1] exI [of _ t]
        exI [of _ w2] exI [of _ w3] exI [of _ "[InjectCall True b True]"] conjI) simp_all
qed

theorem buffering_equals_streaming_witness:
  "\<exists>rs v rs' w1 t w2 w3 calls.
    encode_response ex_env (with_plugin (httpCApiImpl ex_env) default_plugin ex_host) 5 1
      (body_of [''ab''] ''c'') (ex_response ex_bstate) = (Ok (True, rs), v) \<and>
    envoy_calls (cside v) = envoy_calls (cside (ex_response ex_bstate)) \<and>
    encode_response ex_env (with_plugin (httpCApiImpl ex_env) (buffered_plugin ex_user) ex_host) 5 1
      (body_of [''ab''] ''c'') (ex_response ex_bstate) = (Ok (False, rs'), w1) \<and>
    chain_gets ex_env rs' [] = [] \<and>
    goroutines (ustate w1) = goroutines (ustate (ex_response ex_bstate)) @ [t] \<and>
    run_goroutine (httpCApiImpl ex_env) ex_user t w1 = (Ok (), w2) \<and>
    posted (cside w2) = posted (cside (ex_response ex_bstate)) @ [(5, continue_event)] \<and>
    run_closure ex_env (with_plugin (httpCApiImpl ex_env) (buffered_plugin ex_user) ex_host) 5
      continue_event w2 = (Ok (), w3) \<and>
    envoy_calls (cside w3) = envoy_calls (cside (ex_response ex_bstate)) @ calls \<and> length calls = 1 \<and>
    chain_gets ex_env rs' calls = concat (map (bi_bytes ex_env) ([''ab''] @ [''c''])) \<and>
    chain_gets ex_env rs' calls = chain_gets ex_env rs []"
  by (rule buffering_equals_streaming [OF ex_buffer_laws ex_host_quiet, where F = ex_response_filter
      and r = 7 and cq = ex_creq and rq = 4 and q = ex_request and bf = 4 and o' = ex_buf and f = 4])
    (simp_all add: ex_response_serves ex_response_buf ex_only_reads ex_buf_def ProcessorState_new_def
      BufferList_new_def kept_bytes_def httpRequestInternal_new_def)

text \<open>
  C35: A whole exchange on a stream that has just begun, through the buffered adapter, with a filter whose
  goroutines write to the body. Nothing of the request goes on until its goroutine has run; then the
  continuation injects what the writes make of the request's body. The response goes the same way,
  with the same objects. Envoy's calls are these two, in this order, and destroying the stream takes
  the request out of the map and frees its C struct.
\<close>

theorem exchange_is_edited:
  assumes "buffer_laws E" "no_watermark H" "takes_data H" "edits_bodies E U ed"
    and "filters (cside w) i = Some Filter_new"
    and "\<forall>w'. same_configs w w' \<longrightarrow> mergedConfigId H i False w' = (Ok n, w')"
    and "\<forall>c. Requests w (alloc_req H c) = None"
    and "writes_fit (ed False (configCache w n)) (concat (map (bi_bytes E) (ds1 @ [d1])))"
      "writes_fit (ed True (configCache w n)) (concat (map (bi_bytes E) (ds2 @ [d2])))"
    and "HB = with_plugin (httpCApiImpl E) (buffered_plugin U) H"
  shows "\<exists>w1 t1 w2 w3 w4 t2 w5 w6 w7 r x1 x2.
    decode_message E HB i h1 (body_inputs_of ds1 d1) w = (Ok (replicate (length ds1 + 2) False), w1) \<and>
    goroutines (ustate w1) = goroutines (ustate w) @ [t1] \<and>
    run_goroutine (httpCApiImpl E) U t1 w1 = (Ok (), w2) \<and>
    posted (cside w2) = posted (cside w) @ [(i, continue_event)] \<and>
    run_closure E HB i continue_event w2 = (Ok (), w3) \<and>
    encode_message E HB i h2 (body_inputs_of ds2 d2) w3 = (Ok (replicate (length ds2 + 2) False), w4) \<and>
    goroutines (ustate w4) = goroutines (ustate w3) @ [t2] \<and>
    run_goroutine (httpCApiImpl E) U t2 w4 = (Ok (), w5) \<and>
    posted (cside w5) = posted (cside w2) @ [(i, continue_event)] \<and>
    run_closure E HB i continue_event w5 = (Ok (), w6) \<and>
    envoy_calls (cside w6) = envoy_calls (cside w) @ [InjectCall False x1 True, InjectCall True x2 True] \<and>
    bi_bytes E x1 = body_specs (ed False (configCache w n)) (concat (map (bi_bytes E) (ds1 @ [d1]))) \<and>
    bi_bytes E x2 = body_specs (ed True (configCache w n)) (concat (map (bi_bytes E) (ds2 @ [d2]))) \<and>
    onDestroy HB i w6 = (Ok (), w7) \<and> owns w6 i r \<and> Requests w7 r = None \<and> \<not> alive w7 r"
  unfolding assms(10)
  by (rule edited_exchange [OF assms(1-7), where xs = "\<lambda>enc. ed enc (configCache w n)"])
    (rule refl assms(8,9))+

theorem exchange_is_edited_witness:
  "\<exists>w1 w5 w6 w7 r x1 x2.
    decode_message ex_env ex_rewriting 5 1 (body_inputs_of [''ab''] ''c'') ex_new_stream =
      (Ok [False, False, False], w1) \<and>
    run_closure ex_env ex_rewriting 5 continue_event w5 = (Ok (), w6) \<and>
    envoy_calls (cside w6) = [InjectCall False x1 True, InjectCall True x2 True] \<and>
    bi_bytes ex_env x1 = ''abc!'' \<and> bi_bytes ex_env x2 = ''<de>'' \<and>
    onDestroy ex_rewriting 5 w6 = (Ok (), w7) \<and> owns w6 5 r \<and> Requests w7 r = None"
proof -
  have "replicate (length [''ab''] + 2) False = [False, False, False]" by (simp add: numeral_3_eq_3)
  then show ?thesis
    using exchange_is_edited [OF ex_buffer_laws ex_host_quiet ex_edits_bodies ex_new_stream_simps(1),
        where n = 0 and ?ds1.0 = "[''ab'']" and ?d1.0 = "''c''" and ?ds2.0 = "[]" and ?d2.0 = "''de''"
          and ?h1.0 = 1 and ?h2.0 = 2, OF ex_host_config ex_host_new _ _ ex_rewriting_def]
      ex_writes_fit
    by (simp add: ex_rewritten) metis
qed

text \<open>
  C36: A response with trailers through the buffered adapter: everything is kept until the trailers, which
  hand the whole body and then the trailers to Go and start one goroutine on both. When a filter that
  only reads has returned, the continuation injects the body with the end of the stream set, although
  the trailers are still to come, and lets the trailers go on behind it.
\<close>

theorem trailers_follow_ended_body:
  assumes laws: "buffer_laws E" "no_watermark H" "takes_data H" "goes_on H"
    and F: "filters (cside w) i = Some F" "\<not> enter_encoding F" "filter_req F = Some r"
      "\<not> local_reply_waiting_go F" "fstate (side False F) = Done"
      "fstate (side True F) = WaitingHeader" "kept_bytes E (side True F) = []"
      "doDataList (side True F) = BufferList_new" "\<not> has_destroyed F"
    and w: "creqs (cside w) r = Some cq" "serves w r rq q bf" "buffered_objs w bf = Some o'"
      "weakFilter cq = i"
    and user: "only_reads U f" "bf_filter o' = Some f" "bf_callbacks o' = rq"
    and len: "length (concat (map (bi_bytes E) ds)) < 2 ^ 32" "concat (map (bi_bytes E) ds) \<noteq> []"
  shows "\<exists>w1 hp bp tp w2 w3 b.
    encode_message E (with_plugin C (buffered_plugin U) H) i h
      (map (\<lambda>d. DataIn d False) ds @ [TrailersIn t]) w = (Ok (replicate (length ds + 2) False), w1) \<and>
    envoy_calls (cside w1) = envoy_calls (cside w) \<and>
    goroutines (ustate w1) = goroutines (ustate w) @ [RunEncode bf (Some hp) (Some bp) (Some tp)] \<and>
    run_goroutine (httpCApiImpl E) U (RunEncode bf (Some hp) (Some bp) (Some tp)) w1 = (Ok (), w2) \<and>
    posted (cside w2) = posted (cside w) @ [(i, continue_event)] \<and>
    run_closure E (with_plugin C (buffered_plugin U) H) i continue_event w2 = (Ok (), w3) \<and>
    envoy_calls (cside w3) = envoy_calls (cside w) @ [InjectCall True b True, ContinueCall True] \<and>
    bi_bytes E b = concat (map (bi_bytes E) ds)"
  by (rule trailers_return [OF assms])

theorem trailers_follow_ended_body_witness:
  "\<exists>w1 hp bp tp w2 w3 b.
    encode_message ex_env (with_plugin (httpCApiImpl ex_env) (buffered_plugin ex_user) ex_host) 5 1
      (map (\<lambda>d. DataIn d False) [''ab'', ''c''] @ [TrailersIn 2]) (ex_response ex_bstate) =
      (Ok (replicate (length [''ab'', ''c''] + 2) False), w1) \<and>
    envoy_calls (cside w1) = envoy_calls (cside (ex_response ex_bstate)) \<and>
    goroutines (ustate w1) = goroutines (ustate (ex_response ex_bstate)) @
      [RunEncode 4 (Some hp) (Some bp) (Some tp)] \<and>
    run_goroutine (httpCApiImpl ex_env) ex_user (RunEncode 4 (Some hp) (Some bp) (Some tp)) w1 =
      (Ok (), w2) \<and>
    posted (cside w2) = posted (cside (ex_response ex_bstate)) @ [(5, continue_event)] \<and>
    run_closure ex_env (with_plugin (httpCApiImpl ex_env) (buffered_plugin ex_user) ex_host) 5
      continue_event w2 = (Ok (), w3) \<and>
    envoy_calls (cside w3) = envoy_calls (cside (ex_response ex_bstate)) @
      [InjectCall True b True, ContinueCall True] \<and>
    bi_bytes ex_env b = concat (map (bi_bytes ex_env) [''ab'', ''c''])"
  by (rule trailers_follow_ended_body [OF ex_buffer_laws ex_host_quiet, where F = ex_response_filter
      and r = 7 and cq = ex_creq and rq = 4 and q = ex_request and bf = 4 and o' = ex_buf and f = 4])
    (simp_all add: ex_response_serves ex_response_buf ex_only_reads ex_buf_def ProcessorState_new_def
      BufferList_new_def kept_bytes_def httpRequestInternal_new_def ex_host_goes_on)

text \<open>
  C37: A response that consists of headers and trailers only never gets any further with the buffered
  adapter: the C++ side goes on waiting for a body, so the trailers are never handed to Go, no
  goroutine is started, Envoy is not called, and every call of the API is refused because
  Go does not own the stream.
\<close>

theorem bodyless_response_with_trailers_stalls:
  assumes "buffer_laws E" "filters (cside w) i = Some F" "\<not> enter_encoding F" "filter_req F = Some r"
    and "\<not> local_reply_waiting_go F" "\<not> has_destroyed F" "fstate (side False F) = Done"
    and "fstate (side True F) = WaitingHeader" "kept_bytes E (side True F) = []"
    and "creqs (cside w) r = Some cq" "serves w r rq q bf" "buffered_objs w bf = Some o'"
    and "weakFilter cq = i"
  shows "\<exists>w1. encode_message E (with_plugin C (buffered_plugin U) H) i h [TrailersIn t] w =
      (Ok [False, False], w1) \<and>
    goroutines (ustate w1) = goroutines (ustate w) \<and> posted (cside w1) = posted (cside w) \<and>
    envoy_calls (cside w1) = envoy_calls (cside w) \<and>
    api_gate w1 rq = Panic (PanicString ErrNotInGo)"
proof -
  obtain G w2 where run: "encode_message E (with_plugin C (buffered_plugin U) H) i h [TrailersIn t] w =
      (Ok [False, False], at i G w2)"
    and G: "enter_encoding G" "has_destroyed G = has_destroyed F" "fstate (side True G) = WaitingAllData"
      "started r cq w [] w2"
    using buffered_bodyless [OF assms(1-5,7-12), of C U H h t] by blast
  have "httpRequests w2 rq = Some q" "req q = r"
    using G(4) assms(11) by (auto simp: started_def left_alone_def serves_def)
  then have "api_gate (at i G w2) rq = Panic (PanicString ErrNotInGo)"
    using G assms(6,13) by (auto simp: api_gate_def started_def left_alone_def getProcessorState_def
        side_def isProcessingInGo_def)
  then show ?thesis
    using run G(4) by (intro exI [of _ "at i G w2"]) (simp add: started_def left_alone_def)
qed

theorem bodyless_response_with_trailers_stalls_witness:
  "\<exists>w1. encode_message ex_env (with_plugin (httpCApiImpl ex_env) (buffered_plugin ex_user) ex_host) 5 1
      [TrailersIn 2] (ex_response ex_bstate) = (Ok [False, False], w1) \<and>
    goroutines (ustate w1) = goroutines (ustate (ex_response ex_bstate)) \<and>
    posted (cside w1) = posted (cside (ex_response ex_bstate)) \<and>
    envoy_calls (cside w1) = envoy_calls (cside (ex_response ex_bstate)) \<and>
    api_gate w1 4 = Panic (PanicString ErrNotInGo)"
  by (rule bodyless_response_with_trailers_stalls [OF ex_buffer_laws, where F = ex_response_filter
      and r = 7 and cq = ex_creq and q = ex_request and bf = 4 and o' = ex_buf])
    (simp_all add: ex_response_serves ex_response_buf ProcessorState_new_def
      kept_bytes_def httpRequestInternal_new_def)

text \<open>
  C38: With the MOSN adapter a response that has more than its headers does not get any further, even
  when all of it fits into the buffer: the headers are answered with \<open>Running\<close> and no task, so
  whatever else arrives is kept, nothing is handed to a worker, nothing is posted, Envoy is not
  called, and the direction stays in Go. Only a continuation that was posted before could still move it,
  as in C39.
\<close>

theorem mosn_response_with_body_stalls:
  assumes "filters (cside w) i = Some F" "\<not> enter_encoding F" "\<not> local_reply_waiting_go F"
    and "fstate (decoding_state F) = Done" "fstate (encoding_state F) = WaitingHeader"
    and "isBufferDataEmpty E (encoding_state F)" "filter_req F = Some r"
    and "creqs (cside w) r = Some cq" "Requests w r = Some rq" "httpRequests w rq = Some q"
    and "\<not> paniced q" "httpFilter q = Some s" "active w s = Some st"
    and "rest_of_message xs" "xs \<noteq> []" "no_watermark H"
  shows "\<exists>w'. encode_message E (with_plugin C (mosn_plugin M) H) i h xs w =
      (Ok (replicate (Suc (length xs)) False), w') \<and>
    workPool (ustate w') = workPool (ustate w) \<and> posted (cside w') = posted (cside w) \<and>
    envoy_calls (cside w') = envoy_calls (cside w) \<and>
    (\<exists>F'. filters (cside w') i = Some F' \<and> isProcessingInGo (encoding_state F'))"
  by (rule mosn_body_response_stalls) (rule assms)+

theorem mosn_response_with_body_stalls_witness:
  "\<exists>w'. encode_message ex_env (with_plugin (httpCApiImpl ex_env) (mosn_plugin ex_echo_library) ex_host)
      5 1 [DataIn ''ab'' False, DataIn ''c'' True] (ex_response ex_mstate) =
      (Ok [False, False, False], w') \<and>
    workPool (ustate w') = [] \<and> posted (cside w') = [] \<and> envoy_calls (cside w') = [] \<and>
    (\<exists>F'. filters (cside w') 5 = Some F' \<and> isProcessingInGo (encoding_state F'))"
  using mosn_response_with_body_stalls [of "ex_response ex_mstate" 5 ex_response_filter ex_env 7
      ex_creq 4 ex_request 4 ex_stream "[DataIn ''ab'' False, DataIn ''c'' True]"
      ex_host "httpCApiImpl ex_env" ex_echo_library 1]
  by (simp add: ProcessorState_new_def isBufferDataEmpty_def active_def ex_mstate_def
      rest_of_message.intros ex_host_quiet)

text \<open>
  C39: What becomes of the answer of the echo filter. The worker's task posts the configured reply and
  right behind it a continuation of the request, although the reply should have been the end. The
  first closure has Envoy send the reply, which comes back to the filter as response headers
  and a body; the adapter starts nothing for the headers, so the reply would stay there (C38). The
  second closure finds the reply in Go's hands and continues that: now the body is given to Go, the
  sender's task is started, and its own continuation injects the body of the reply.
\<close>

theorem echo_answer_goes_out:
  assumes "buffer_laws E" "no_watermark H" "takes_data H" "no_watermark G"
    and "replies_by E (with_plugin (httpCApiImpl E) (mosn_plugin M) G) i h H"
    and "filters (cside w) i = Some F" "\<not> has_destroyed F" "\<not> enter_encoding F"
      "\<not> local_reply_waiting_go F" "filter_req F = Some r" "isProcessingInGo (side False F)"
      "side True F = ProcessorState_new"
    and "streams_for w i r rq q s fm" "echoes w f = Some o'" "echoer o' = Some c" "cfg_Status c \<noteq> 0"
      "receiverFilterHandler o' = Some s" "echo_chain E M fm f" "no_senders M fm" "cfg_Body c \<noteq> []"
    and "HM = with_plugin (httpCApiImpl E) (mosn_plugin M) H"
  shows "\<exists>w1 w2 w3 w4 w5 x. run_task (httpCApiImpl E) M (ReceiverTask s) w = (Ok (), w1) \<and>
    posted (cside w1) = posted (cside w) @ [(i, echo_event c), (i, continue_event)] \<and>
    run_closure E HM i (echo_event c) w1 = (Ok (), w2) \<and> workPool (ustate w2) = workPool (ustate w) \<and>
    run_closure E HM i continue_event w2 = (Ok (), w3) \<and>
    workPool (ustate w3) = workPool (ustate w) @ [SenderTask s] \<and>
    run_task (httpCApiImpl E) M (SenderTask s) w3 = (Ok (), w4) \<and>
    posted (cside w4) = posted (cside w1) @ [(i, continue_event)] \<and>
    run_closure E HM i continue_event w4 = (Ok (), w5) \<and>
    envoy_calls (cside w5) = envoy_calls (cside w) @
      [ReplyCall False (c_int_of_int (cfg_Status c)) (cfg_Body c) 0 [], InjectCall True x True] \<and>
    bi_bytes E x = cfg_Body c"
  unfolding assms(21) by (rule echo_answered) (rule assms)+

theorem echo_answer_goes_out_witness:
  "\<exists>w1 w2 w3 w4 w5 x. run_task (httpCApiImpl ex_env) ex_echo_library (ReceiverTask 4) ex_asked = (Ok (), w1) \<and>
    posted (cside w1) = [(5, echo_event ex_echo_config), (5, continue_event)] \<and>
    run_closure ex_env ex_answering 5 (echo_event ex_echo_config) w1 = (Ok (), w2) \<and>
    workPool (ustate w2) = [] \<and> run_closure ex_env ex_answering 5 continue_event w2 = (Ok (), w3) \<and>
    workPool (ustate w3) = [SenderTask 4] \<and>
    run_task (httpCApiImpl ex_env) ex_echo_library (SenderTask 4) w3 = (Ok (), w4) \<and>
    run_closure ex_env ex_answering 5 continue_event w4 = (Ok (), w5) \<and>
    envoy_calls (cside w5) = [ReplyCall False 200 ''hi'' 0 [], InjectCall True x True] \<and>
    bi_bytes ex_env x = ''hi''"
proof -
  have status: "c_int_of_int 200 = 200" by (rule c_int_of_int_id) simp_all
  show ?thesis
    using echo_answer_goes_out [OF ex_buffer_laws ex_reply_host(1,2) ex_host_quiet(1) ex_reply_host(3)
        ex_asked_filter ex_asked_stream ex_asked_simps(2) _ _ _ ex_echo_chain ex_no_senders _ ex_answering_def]
    by (simp add: ex_echo_def ex_echo_config_def ex_asked_rest status) blast
qed

text \<open>
  C40: Statuses are well typed: if the callbacks of a plugin return declared statuses only, then
  whatever Go's exported callbacks return, after a panic or an answer to one as well, is one of the
  declared constants on the C side. The pass-through filter, the buffered adapter and the MOSN
  adapter are such plugins, and so are the filters of the asynchronous samples.
\<close>

theorem statuses_are_typed:
  assumes "declared_plugin P"
  shows "(moeOnHttpHeader C P r e n b w = (Ok x, w') \<longrightarrow> declared_golang (golangStatus (c_int x))) \<and>
    (moeOnHttpData C P r e a len w = (Ok x, w') \<longrightarrow> declared_golang (golangStatus (c_int x))) \<and>
    declared_plugin default_plugin \<and> declared_plugin (buffered_plugin U) \<and>
    declared_plugin (mosn_plugin M) \<and> declared_filter (asyncSleep g) \<and> declared_filter (async_filter g)"
  using arrives_header [OF assms] arrives_data [OF assms] declared_default declared_buffered
    declared_mosn declared_async
  unfolding yields_def by blast

theorem statuses_are_typed_witness:
  "\<exists>w'. moeOnHttpHeader (httpCApiImpl ex_env) default_plugin 7 0 1 2 (ex_buffered EncodeHeaderPhase) =
      (Ok (status_to_u64 Continue), w') \<and>
    declared_golang (golangStatus (c_int (status_to_u64 Continue)))"
proof -
  let ?w = "ex_buffered EncodeHeaderPhase"
  obtain w' where run: "moeOnHttpHeader (httpCApiImpl ex_env) default_plugin 7 0 1 2 ?w =
      (Ok (status_to_u64 Continue), w')"
    using pass_header [where w = ?w and r = 7 and rq = 4 and q = ex_request and f = 4 and n = 1
        and b = 2 and C = "httpCApiImpl ex_env"]
    by (auto simp: serves_def)
  then show ?thesis
    using statuses_are_typed [OF declared_default, of "httpCApiImpl ex_env" 7 0 1 2 ?w] by blast
qed

end
